(* ===== verification/Flow_Prelude.thy ===== *)
theory Flow_Prelude
  imports Main "HOL-Library.Word" "HOL-Library.Sublist"
begin

text \<open>
  Shared vocabulary of the development: bytes and buffers, the few operations of the
  JavaScript runtime the stages call (\<^verbatim>\<open>Buffer.slice\<close>, \<^verbatim>\<open>Array.some\<close>, \<^verbatim>\<open>String.trim\<close>),
  and the generic machinery every stage is run with: a handler takes one incoming
  element and the stage's state and returns the list of elements it emits together
  with the new state; \<open>run\<close> feeds a whole input list through a handler, in order,
  concatenating what is emitted, and \<open>runE\<close> does so for a handler that can throw. The
  lemmas on \<open>run\<close> (append, invariants, filters of the output, subsequences) are the
  ones the component theories instantiate.
\<close>

unbundle bit_operations_syntax

named_theorems flow_defs \<open>definitions of flow objects and layers, unfolded to execute a stage\<close>
named_theorems keep_defs \<open>definitions of the keep conditions of the tag filters\<close>

section \<open>Bytes and buffers\<close>

type_synonym byte = "8 word"
type_synonym buffer = "byte list"

text \<open>
  \<^verbatim>\<open>buf.slice(0, end)\<close> of Node's \<^verbatim>\<open>Buffer\<close>: a negative \<open>end\<close> counts from the end of
  the buffer, and the result is clamped to the buffer. HOL's \<open>take\<close> on a \<open>nat\<close> would
  silently turn \<open>length - 4\<close> into \<open>0\<close> for short buffers, which is not what the
  runtime does for a buffer of three bytes.
\<close>

definition slice0 :: "'a list \<Rightarrow> int \<Rightarrow> 'a list" where
  "slice0 b e = take (nat (if e < 0 then int (length b) + e else e)) b"

text \<open>\<^verbatim>\<open>Array.prototype.some\<close>.\<close>

abbreviation some :: "('a \<Rightarrow> bool) \<Rightarrow> 'a list \<Rightarrow> bool" where
  "some P xs \<equiv> list_ex P xs"

text \<open>
  \<^verbatim>\<open>buf.toString().trim()\<close> on the bytes of the string: white space is removed at
  both ends. The white space of the runtime that is one byte of UTF-8 is TAB, LF, VT,
  FF, CR and SPACE; a NUL byte is not white space. The white space outside ASCII
  (NBSP, the Unicode spaces), which is two or three bytes of UTF-8, is not modelled: a
  value that ends in such a character is compared untrimmed.
\<close>

definition isWhiteSpace :: "byte \<Rightarrow> bool" where
  "isWhiteSpace c \<longleftrightarrow> c \<in> {0x09, 0x0A, 0x0B, 0x0C, 0x0D, 0x20}"

definition trim :: "buffer \<Rightarrow> buffer" where
  "trim b = rev (dropWhile isWhiteSpace (rev (dropWhile isWhiteSpace b)))"

lemma slice0_nonneg [simp]: "0 \<le> e \<Longrightarrow> slice0 b e = take (nat e) b"
  by (simp add: slice0_def)

lemma slice0_drop_last4:
  "4 \<le> length b \<Longrightarrow> slice0 b (int (length b) - 4) = take (length b - 4) b"
  by (simp add: slice0_def nat_diff_distrib')

lemma length_slice0_drop_last4:
  "4 \<le> length b \<Longrightarrow> length (slice0 b (int (length b) - 4)) = length b - 4"
  by (simp add: slice0_drop_last4)

lemma slice0_prefix: "prefix (slice0 b e) b"
  by (simp add: slice0_def take_is_prefix)

lemma trim_Nil [simp]: "trim [] = []"
  by (simp add: trim_def)

lemma dropWhile_id_iff: "dropWhile P xs = xs \<longleftrightarrow> xs = [] \<or> \<not> P (hd xs)"
proof (cases xs)
  case Nil
  then show ?thesis by simp
next
  case (Cons a list)
  have "dropWhile P list \<noteq> a # list"
  proof
    assume "dropWhile P list = a # list"
    then have "length (dropWhile P list) = Suc (length list)" by simp
    with length_dropWhile_le [of P list] show False by simp
  qed
  with Cons show ?thesis by simp
qed

lemma trim_idem: "trim (trim b) = trim b"
proof -
  define c where "c = dropWhile isWhiteSpace b"
  define e where "e = dropWhile isWhiteSpace (rev c)"
  have e_hd: "e = [] \<or> \<not> isWhiteSpace (hd e)"
    unfolding e_def by (metis hd_dropWhile)
  have e_last: "e = [] \<or> \<not> isWhiteSpace (last e)"
  proof (cases "e = []")
    case True
    then show ?thesis by simp
  next
    case False
    obtain zs where zs: "rev c = zs @ e"
      using suffix_dropWhile [of isWhiteSpace "rev c"] by (auto simp: suffix_def e_def)
    with False have "c \<noteq> []" by auto
    from zs False have "last (rev c) = last e" by simp
    with \<open>c \<noteq> []\<close> have "last e = hd c" by (simp add: last_rev)
    moreover from \<open>c \<noteq> []\<close> have "\<not> isWhiteSpace (hd c)"
      unfolding c_def by (rule hd_dropWhile)
    ultimately show ?thesis by simp
  qed
  from e_last have "dropWhile isWhiteSpace (rev e) = rev e"
    by (auto simp: dropWhile_id_iff hd_rev)
  moreover from e_hd have "dropWhile isWhiteSpace e = e"
    by (simp add: dropWhile_id_iff)
  ultimately show ?thesis
    by (simp add: trim_def c_def [symmetric] e_def [symmetric])
qed

section \<open>Handlers and their runs\<close>

text \<open>
  A handler is the model of one \<^verbatim>\<open>accept(part)\<close>: \<open>h p s = (out, s')\<close>. A stream
  stage is \<^verbatim>\<open>flatMap\<close> of its handler over the incoming stream, threading the state.
\<close>

type_synonym ('a, 'b, 's) handler = "'a \<Rightarrow> 's \<Rightarrow> 'b list \<times> 's"

fun run :: "('a, 'b, 's) handler \<Rightarrow> 's \<Rightarrow> 'a list \<Rightarrow> 'b list \<times> 's" where
  "run h s [] = ([], s)"
| "run h s (p # ps) =
     (case h p s of (out, s') \<Rightarrow> (case run h s' ps of (outs, s'') \<Rightarrow> (out @ outs, s'')))"

definition emitted :: "('a, 'b, 's) handler \<Rightarrow> 's \<Rightarrow> 'a list \<Rightarrow> 'b list" where
  "emitted h s ps = fst (run h s ps)"

definition final :: "('a, 'b, 's) handler \<Rightarrow> 's \<Rightarrow> 'a list \<Rightarrow> 's" where
  "final h s ps = snd (run h s ps)"

text \<open>
  A handler that can throw returns the error in place of its result. A run stops at the
  first error; what was emitted before it has left the stage already.
\<close>

type_synonym ('a, 'b, 's, 'e) thrower = "'a \<Rightarrow> 's \<Rightarrow> 'e + 'b list \<times> 's"

fun runE :: "('a, 'b, 's, 'e) thrower \<Rightarrow> 's \<Rightarrow> 'a list \<Rightarrow> 'b list \<times> ('e + 's)" where
  "runE h s [] = ([], Inr s)"
| "runE h s (p # ps) =
     (case h p s of
        Inl e \<Rightarrow> ([], Inl e)
      | Inr (out, s') \<Rightarrow> (case runE h s' ps of (out', r) \<Rightarrow> (out @ out', r)))"

lemma run_eq: "run h s ps = (emitted h s ps, final h s ps)"
  by (simp add: emitted_def final_def)

lemma emitted_Nil [simp]: "emitted h s [] = []"
  by (simp add: emitted_def)

lemma final_Nil [simp]: "final h s [] = s"
  by (simp add: final_def)

lemma emitted_Cons [simp]:
  "emitted h s (p # ps) = fst (h p s) @ emitted h (snd (h p s)) ps"
  by (simp add: emitted_def split: prod.splits)

lemma final_Cons [simp]: "final h s (p # ps) = final h (snd (h p s)) ps"
  by (simp add: final_def split: prod.splits)

lemma final_append [simp]: "final h s (ps @ qs) = final h (final h s ps) qs"
  by (induction ps arbitrary: s) simp_all

lemma emitted_append [simp]:
  "emitted h s (ps @ qs) = emitted h s ps @ emitted h (final h s ps) qs"
  by (induction ps arbitrary: s) simp_all

lemma run_append:
  "run h s (ps @ qs) =
     (emitted h s ps @ emitted h (final h s ps) qs, final h (final h s ps) qs)"
  by (simp add: run_eq)

text \<open>An invariant every step keeps holds after every run.\<close>

lemma final_invariant:
  assumes "\<And>p s. I s \<Longrightarrow> I (snd (h p s))" and "I s"
  shows "I (final h s ps)"
  using assms(2) by (induction ps arbitrary: s) (simp_all add: assms(1))

text \<open>A property of everything a step emits, under an invariant, holds of the whole output.\<close>

lemma emitted_all:
  assumes "\<And>p s. I s \<Longrightarrow> I (snd (h p s))"
    and "\<And>p s. I s \<Longrightarrow> \<forall>q \<in> set (fst (h p s)). Q q"
    and "I s"
  shows "\<forall>q \<in> set (emitted h s ps). Q q"
  using assms(3)
proof (induction ps arbitrary: s)
  case Nil
  then show ?case by simp
next
  case (Cons p ps)
  from Cons.prems have "I (snd (h p s))" by (rule assms(1))
  then have "\<forall>q \<in> set (emitted h (snd (h p s)) ps). Q q" by (rule Cons.IH)
  with assms(2) [OF Cons.prems, of p] show ?case by auto
qed

lemma emitted_Nil_iff:
  assumes "\<And>p s. p \<in> set ps \<Longrightarrow> fst (h p s) = []"
  shows "emitted h s ps = []"
  using assms by (induction ps arbitrary: s) simp_all

text \<open>A stage whose steps emit the incoming element or nothing emits a subsequence.\<close>

lemma emitted_subseq:
  assumes "\<And>p s. I s \<Longrightarrow> I (snd (h p s))"
    and "\<And>p s. I s \<Longrightarrow> subseq (fst (h p s)) [p]"
    and "I s"
  shows "subseq (emitted h s ps) ps"
  using assms(3)
proof (induction ps arbitrary: s)
  case Nil
  then show ?case by simp
next
  case (Cons p ps)
  from Cons.prems have "I (snd (h p s))" by (rule assms(1))
  then have "subseq (emitted h (snd (h p s)) ps) ps" by (rule Cons.IH)
  with assms(2) [OF Cons.prems, of p]
  have "subseq (fst (h p s) @ emitted h (snd (h p s)) ps) ([p] @ ps)"
    by (rule list_emb_append_mono)
  then show ?case by simp
qed

text \<open>
  Two handlers that agree, on the elements of the input, in every state of an invariant
  have the same run.
\<close>

lemma run_cong_invariant:
  assumes "\<And>p s. p \<in> set ps \<Longrightarrow> I s \<Longrightarrow> h p s = h' p s"
    and "\<And>p s. p \<in> set ps \<Longrightarrow> I s \<Longrightarrow> I (snd (h p s))"
    and "I s"
  shows "run h s ps = run h' s ps"
  using assms
proof (induction ps arbitrary: s)
  case Nil
  then show ?case by simp
next
  case (Cons p ps)
  from Cons.prems have eq: "h p s = h' p s" and inv: "I (snd (h p s))"
    by simp_all
  from Cons.prems have "run h (snd (h p s)) ps = run h' (snd (h p s)) ps"
    by (intro Cons.IH inv) simp_all
  with eq show ?case
    by (cases "h' p s") simp
qed

text \<open>A simulation between two stages: related states, equal outputs.\<close>

lemma run_simulation:
  assumes step: "\<And>p s t. R s t \<Longrightarrow> fst (h p s) = fst (g p t) \<and> R (snd (h p s)) (snd (g p t))"
    and "R s t"
  shows "emitted h s ps = emitted g t ps \<and> R (final h s ps) (final g t ps)"
  using assms(2)
proof (induction ps arbitrary: s t)
  case Nil
  then show ?case by simp
next
  case (Cons p ps)
  from step [OF Cons.prems, of p]
  have out: "fst (h p s) = fst (g p t)" and rel: "R (snd (h p s)) (snd (g p t))"
    by simp_all
  from Cons.IH [OF rel] out show ?case by simp
qed

text \<open>What a filter sees of the output, step by step.\<close>

lemma filter_emitted_Nil:
  assumes "\<And>p s. filter Q (fst (h p s)) = []"
  shows "filter Q (emitted h s ps) = []"
  by (induction ps arbitrary: s) (simp_all add: assms)

lemma filter_emitted_map:
  assumes "\<And>p s. I s \<Longrightarrow> I (snd (h p s))"
    and "\<And>p s. I s \<Longrightarrow> filter Q (fst (h p s)) = (if P p then [f p] else [])"
    and "I s"
  shows "filter Q (emitted h s ps) = map f (filter P ps)"
  using assms(3) by (induction ps arbitrary: s) (simp_all add: assms(1,2))

lemma run_append_run:
  "run h s (ps @ qs) =
     (case run h s ps of (out, s') \<Rightarrow> case run h s' qs of (out', s'') \<Rightarrow> (out @ out', s''))"
  by (simp add: run_eq)

end
