(* ===== verification/Parts.thy ===== *)
theory Parts
  imports Flow_Prelude
begin

text \<open>
  The part model of the specification (section 3): the tagged union of structural events
  that flows through every stage, together with the tag arithmetic and the byte-level
  constants of the module \<^verbatim>\<open>base\<close> that the stages of \<^verbatim>\<open>src/src/dicom-flows.js\<close> call.
  The classes themselves live in \<^verbatim>\<open>parts.js\<close> and \<^verbatim>\<open>base.js\<close>, which are not among the
  sources; the constructors that \<^verbatim>\<open>dicom-flows.js\<close> calls (lines 91-96, 105, 112-116, 125
  and 148) take their arguments in the order of those calls, the others the fields the
  specification lists.

  Tags and lengths are 32-bit fields of the encoding and are kept at that width;
  a length is indeterminate exactly when it is the sentinel \<open>0xFFFFFFFF\<close>.
\<close>

section \<open>Tags\<close>

type_synonym tag = "32 word"
type_synonym len = "32 word"
type_synonym vr = string

definition groupNumber :: "tag \<Rightarrow> 16 word" where
  "groupNumber t = ucast (drop_bit 16 t)"

definition elementNumber :: "tag \<Rightarrow> 16 word" where
  "elementNumber t = ucast t"

definition isGroupLength :: "tag \<Rightarrow> bool" where
  "isGroupLength t \<longleftrightarrow> elementNumber t = 0"

definition isFileMetaInformation :: "tag \<Rightarrow> bool" where
  "isFileMetaInformation t \<longleftrightarrow> groupNumber t = 0x0002"

definition tagOf :: "16 word \<Rightarrow> 16 word \<Rightarrow> tag" where
  "tagOf g e = push_bit 16 (ucast g) OR ucast e"

definition TransferSyntaxUID :: tag where "TransferSyntaxUID = 0x00020010"
definition FileMetaInformationGroupLength :: tag where "FileMetaInformationGroupLength = 0x00020000"
definition StudyDate :: tag where "StudyDate = 0x00080020"
definition DerivationCodeSequence :: tag where "DerivationCodeSequence = 0x00089215"
definition PatientName :: tag where "PatientName = 0x00100010"
definition PixelData :: tag where "PixelData = 0x7FE00010"

lemmas tag_defs = TransferSyntaxUID_def FileMetaInformationGroupLength_def StudyDate_def
  DerivationCodeSequence_def PatientName_def PixelData_def

lemmas tag_simps = groupNumber_def elementNumber_def isGroupLength_def
  isFileMetaInformation_def

section \<open>Lengths and their encoding\<close>

definition indeterminateLength :: len where
  "indeterminateLength = 0xFFFFFFFF"

definition shortToBytes :: "16 word \<Rightarrow> bool \<Rightarrow> buffer" where
  "shortToBytes w be =
     (if be then [ucast (drop_bit 8 w), ucast w] else [ucast w, ucast (drop_bit 8 w)])"

definition intToBytes :: "32 word \<Rightarrow> bool \<Rightarrow> buffer" where
  "intToBytes w be =
     (let b0 = ucast w; b1 = ucast (drop_bit 8 w); b2 = ucast (drop_bit 16 w);
          b3 = ucast (drop_bit 24 w)
      in if be then [b3, b2, b1, b0] else [b0, b1, b2, b3])"

definition tagToBytes :: "tag \<Rightarrow> bool \<Rightarrow> buffer" where
  "tagToBytes t be = shortToBytes (groupNumber t) be @ shortToBytes (elementNumber t) be"

fun bytesToUInt :: "buffer \<Rightarrow> bool \<Rightarrow> 32 word" where
  "bytesToUInt [a, b, c, d] be =
     (if be
      then push_bit 24 (ucast a) OR push_bit 16 (ucast b) OR push_bit 8 (ucast c) OR ucast d
      else push_bit 24 (ucast d) OR push_bit 16 (ucast c) OR push_bit 8 (ucast b) OR ucast a)"
| "bytesToUInt _ be = 0"

text \<open>The length field of a sequence or item header: its trailing four bytes.\<close>

definition lengthField :: "buffer \<Rightarrow> bool \<Rightarrow> len" where
  "lengthField b be = bytesToUInt (drop (length b - 4) b) be"

text \<open>
  The delimitation items of the encoding, as \<^verbatim>\<open>base.sequenceDelimitation\<close> and
  \<^verbatim>\<open>base.itemDelimitation\<close> produce them: the tag \<open>(FFFE,E0DD)\<close>, respectively
  \<open>(FFFE,E00D)\<close>, followed by a zero length.
\<close>

definition sequenceDelimitation :: "bool \<Rightarrow> buffer" where
  "sequenceDelimitation be = tagToBytes 0xFFFEE0DD be @ [0, 0, 0, 0]"

definition itemDelimitation :: "bool \<Rightarrow> buffer" where
  "itemDelimitation be = tagToBytes 0xFFFEE00D be @ [0, 0, 0, 0]"

text \<open>The transfer syntax UID that triggers the compression detour, as ASCII bytes.\<close>

definition DeflatedExplicitVRLittleEndian :: buffer where
  "DeflatedExplicitVRLittleEndian =
     [0x31, 0x2E, 0x32, 0x2E, 0x38, 0x34, 0x30, 0x2E, 0x31, 0x30, 0x30, 0x30, 0x38, 0x2E,
      0x31, 0x2E, 0x32, 0x2E, 0x31, 0x2E, 0x39, 0x39]"

section \<open>Parts\<close>

datatype part =
    isHeaderPart: HeaderPart (tag: tag) (vr: vr) (plength: len) (bigEndian: bool)
      (explicitVR: bool) (isFmi: bool) (bytes: buffer)
  | isValueChunk: ValueChunk (bytes: buffer) (isLast: bool)
  | isSequencePart: SequencePart (tag: tag) (plength: len) (bigEndian: bool)
      (explicitVR: bool) (bytes: buffer)
  | isSequenceDelimitationPart: SequenceDelimitationPart (bigEndian: bool) (bytes: buffer)
  | isItemPart: ItemPart (index: nat) (plength: len) (bigEndian: bool) (bytes: buffer)
  | isItemDelimitationPart: ItemDelimitationPart (index: nat) (bigEndian: bool)
      (bytes: buffer)
  | isDeflatedChunk: DeflatedChunk (bigEndian: bool) (bytes: buffer)

text \<open>
  The flag \<^verbatim>\<open>indeterminate\<close> of a header, sequence or item part is derived from its
  length; the other parts have no length and are never indeterminate.
\<close>

fun indeterminate :: "part \<Rightarrow> bool" where
  "indeterminate (HeaderPart t v l be ex fmi b) \<longleftrightarrow> l = indeterminateLength"
| "indeterminate (SequencePart t l be ex b) \<longleftrightarrow> l = indeterminateLength"
| "indeterminate (ItemPart i l be b) \<longleftrightarrow> l = indeterminateLength"
| "indeterminate _ \<longleftrightarrow> False"

text \<open>The parts that open or close a scope: everything but headers and value chunks.\<close>

definition isDelimitation :: "part \<Rightarrow> bool" where
  "isDelimitation p \<longleftrightarrow> isSequenceDelimitationPart p \<or> isItemDelimitationPart p"

text \<open>
  A delimitation part that was not read from the stream but synthesized at the end of
  a scope carries no bytes; a stage tells the two apart by \<^verbatim>\<open>part.bytes.length <= 0\<close>.
\<close>

definition isMarker :: "part \<Rightarrow> bool" where
  "isMarker p \<longleftrightarrow> isDelimitation p \<and> bytes p = []"

text \<open>
  What the tokenizer promises of a sequence or item header (section 6): the declared
  length is the one encoded in the trailing four bytes of its raw bytes.
\<close>

definition consistent :: "part \<Rightarrow> bool" where
  "consistent p \<longleftrightarrow>
     (isSequencePart p \<or> isItemPart p \<longrightarrow>
        4 \<le> length (bytes p) \<and> lengthField (bytes p) (bigEndian p) = plength p)"

section \<open>Facts about tags\<close>

lemma tagOf_group [simp]: "groupNumber (tagOf g e) = g"
  unfolding groupNumber_def tagOf_def
  by (rule bit_word_eqI) (auto simp: bit_simps dest: bit_imp_le_length)

lemma tagOf_element [simp]: "elementNumber (tagOf g e) = e"
  unfolding elementNumber_def tagOf_def
  by (rule bit_word_eqI) (auto simp: bit_simps dest: bit_imp_le_length)

lemma tagOf_inverse: "tagOf (groupNumber t) (elementNumber t) = t"
  unfolding groupNumber_def elementNumber_def tagOf_def
proof (rule bit_word_eqI)
  fix n assume "n < LENGTH(32)"
  then consider "n < 16" | "16 \<le> n" "n < 32"
    by fastforce
  then show "bit (push_bit 16 (ucast (ucast (drop_bit 16 t) :: 16 word)) OR
      ucast (ucast t :: 16 word) :: 32 word) n = bit t n"
    by cases (auto simp: bit_simps)
qed

lemma tag_eq_iff: "t = t' \<longleftrightarrow> groupNumber t = groupNumber t' \<and> elementNumber t = elementNumber t'"
  by (metis tagOf_inverse)

lemma isGroupLength_tagOf [simp]: "isGroupLength (tagOf g e) \<longleftrightarrow> e = 0"
  by (simp add: isGroupLength_def)

lemma isFileMetaInformation_tagOf [simp]: "isFileMetaInformation (tagOf g e) \<longleftrightarrow> g = 2"
  by (simp add: isFileMetaInformation_def)

lemma fmi_TransferSyntaxUID [simp]: "isFileMetaInformation TransferSyntaxUID"
  by (simp add: tag_simps tag_defs)

lemma not_groupLength_TransferSyntaxUID [simp]: "\<not> isGroupLength TransferSyntaxUID"
  by (simp add: tag_simps tag_defs)

lemma fmi_groupLength [simp]:
  "isFileMetaInformation FileMetaInformationGroupLength"
  "isGroupLength FileMetaInformationGroupLength"
  by (simp_all add: tag_simps tag_defs)

section \<open>Facts about the encoding\<close>

lemma length_shortToBytes [simp]: "length (shortToBytes w be) = 2"
  by (simp add: shortToBytes_def)

lemma length_intToBytes [simp]: "length (intToBytes w be) = 4"
  by (simp add: intToBytes_def Let_def)

lemma length_tagToBytes [simp]: "length (tagToBytes t be) = 4"
  by (simp add: tagToBytes_def)

lemma length_sequenceDelimitation [simp]: "length (sequenceDelimitation be) = 8"
  by (simp add: sequenceDelimitation_def)

lemma length_itemDelimitation [simp]: "length (itemDelimitation be) = 8"
  by (simp add: itemDelimitation_def)

lemma sequenceDelimitation_nonempty [simp]: "sequenceDelimitation be \<noteq> []"
  by (simp add: sequenceDelimitation_def)

lemma itemDelimitation_nonempty [simp]: "itemDelimitation be \<noteq> []"
  by (simp add: itemDelimitation_def)

lemma word32_of_bytes:
  "push_bit 24 (ucast (ucast (drop_bit 24 w) :: byte)) OR
   push_bit 16 (ucast (ucast (drop_bit 16 w) :: byte)) OR
   push_bit 8 (ucast (ucast (drop_bit 8 w) :: byte)) OR ucast (ucast w :: byte) = w"
  for w :: "32 word"
proof (rule bit_word_eqI)
  fix n assume "n < LENGTH(32)"
  then consider "n < 8" | "8 \<le> n" "n < 16" | "16 \<le> n" "n < 24" | "24 \<le> n" "n < 32"
    by fastforce
  then show "bit (push_bit 24 (ucast (ucast (drop_bit 24 w) :: byte)) OR
      push_bit 16 (ucast (ucast (drop_bit 16 w) :: byte)) OR
      push_bit 8 (ucast (ucast (drop_bit 8 w) :: byte)) OR ucast (ucast w :: byte) :: 32 word) n
      = bit w n"
    by cases (auto simp: bit_simps)
qed

lemma bytesToUInt_intToBytes: "bytesToUInt (intToBytes w be) be = w"
  by (simp add: intToBytes_def Let_def word32_of_bytes)

lemma lengthField_append:
  "length f = 4 \<Longrightarrow> lengthField (b @ f) be = bytesToUInt f be"
  by (simp add: lengthField_def)

lemma lengthField_sentinel:
  "lengthField (b @ [0xFF, 0xFF, 0xFF, 0xFF]) be = indeterminateLength"
  by (simp add: lengthField_append indeterminateLength_def)

lemma lengthField_delimitation [simp]:
  "lengthField (sequenceDelimitation be) be = 0"
  "lengthField (itemDelimitation be) be = 0"
  by (simp_all add: sequenceDelimitation_def itemDelimitation_def lengthField_append)

section \<open>Facts about parts\<close>

lemma isMarker_simps [simp]:
  "isMarker (SequenceDelimitationPart be b) \<longleftrightarrow> b = []"
  "isMarker (ItemDelimitationPart i be b) \<longleftrightarrow> b = []"
  "\<not> isMarker (HeaderPart t v l be ex fmi b)"
  "\<not> isMarker (ValueChunk b la)"
  "\<not> isMarker (SequencePart t l be ex b)"
  "\<not> isMarker (ItemPart i l be b)"
  "\<not> isMarker (DeflatedChunk be b)"
  by (simp_all add: isMarker_def isDelimitation_def)

lemma isDelimitation_simps [simp]:
  "isDelimitation (SequenceDelimitationPart be b)"
  "isDelimitation (ItemDelimitationPart i be b)"
  "\<not> isDelimitation (HeaderPart t v l be ex fmi b)"
  "\<not> isDelimitation (ValueChunk b la)"
  "\<not> isDelimitation (SequencePart t l be ex b)"
  "\<not> isDelimitation (ItemPart i l be b)"
  "\<not> isDelimitation (DeflatedChunk be b)"
  by (simp_all add: isDelimitation_def)

lemma isMarker_bytes: "isMarker p \<Longrightarrow> bytes p = []"
  by (simp add: isMarker_def)

lemma indeterminate_iff:
  "isSequencePart p \<or> isItemPart p \<or> isHeaderPart p \<Longrightarrow>
     indeterminate p \<longleftrightarrow> plength p = indeterminateLength"
  by (cases p) simp_all

end
