(* ===== verification/Tag_Path.thy ===== *)
theory Tag_Path
  imports Parts
begin

text \<open>
  Tag paths (specification, section 3): the address of a part in the nesting of
  sequences and items. A path is the list of its steps from the root; a step is a bare
  tag or a sequence tag with an item index. \<open>isTrunkOf\<close> is the prefix relation on step
  lists and \<open>hasTrunk\<close> its converse; \<^verbatim>\<open>a.isTrunkOf(b)\<close> of the source is \<open>isTrunkOf a b\<close>.
  The operations at the end are the moves the path tracking layer makes.
\<close>

datatype step = TagStep tag | ItemStep tag nat

type_synonym tagPath = "step list"

definition emptyTagPath :: tagPath where
  "emptyTagPath = []"

definition isTrunkOf :: "tagPath \<Rightarrow> tagPath \<Rightarrow> bool" where
  "isTrunkOf a b \<longleftrightarrow> prefix a b"

definition hasTrunk :: "tagPath \<Rightarrow> tagPath \<Rightarrow> bool" where
  "hasTrunk a b \<longleftrightarrow> isTrunkOf b a"

fun stepTag :: "step \<Rightarrow> tag" where
  "stepTag (TagStep t) = t"
| "stepTag (ItemStep t i) = t"

text \<open>
  \<^verbatim>\<open>path.tag()\<close>: the tag of the last step. The empty path has none; the stages only
  ask for it on a path they have checked against \<open>emptyTagPath\<close>.
\<close>

definition pathTag :: "tagPath \<Rightarrow> tag option" where
  "pathTag p = (case rev p of [] \<Rightarrow> None | s # _ \<Rightarrow> Some (stepTag s))"

section \<open>Moves of the current path\<close>

text \<open>The open scopes of a path: the path without the element it currently addresses.\<close>

definition scopes :: "tagPath \<Rightarrow> tagPath" where
  "scopes p = (case rev p of TagStep t # r \<Rightarrow> rev r | _ \<Rightarrow> p)"

text \<open>A header or a sequence start addresses the element \<open>t\<close> in the open scopes.\<close>

definition thenTag :: "tagPath \<Rightarrow> tag \<Rightarrow> tagPath" where
  "thenTag p t = scopes p @ [TagStep t]"

text \<open>
  An item start turns the sequence the path addresses into the scope of its \<open>i\<close>-th item
  (or moves on from the previous item of the same sequence).
\<close>

definition thenItem :: "tagPath \<Rightarrow> nat \<Rightarrow> tagPath" where
  "thenItem p i =
     (case rev p of
        TagStep t # r \<Rightarrow> rev (ItemStep t i # r)
      | ItemStep t j # r \<Rightarrow> rev (ItemStep t i # r)
      | [] \<Rightarrow> [])"

text \<open>The end of an item addresses the item that closes.\<close>

definition itemEnd :: "tagPath \<Rightarrow> tagPath" where
  "itemEnd p = scopes p"

text \<open>The end of a sequence addresses the sequence that closes.\<close>

definition sequenceEnd :: "tagPath \<Rightarrow> tagPath" where
  "sequenceEnd p =
     (case rev (scopes p) of ItemStep t i # r \<Rightarrow> rev (TagStep t # r) | _ \<Rightarrow> p)"

text \<open>
  The paths the tracking layer builds: every step but the last is an item scope.
\<close>

fun isItemStep :: "step \<Rightarrow> bool" where
  "isItemStep (ItemStep t i) = True"
| "isItemStep (TagStep t) = False"

definition wfPath :: "tagPath \<Rightarrow> bool" where
  "wfPath p \<longleftrightarrow> list_all isItemStep (butlast p)"

lemmas path_defs = emptyTagPath_def isTrunkOf_def hasTrunk_def pathTag_def
lemmas move_defs = scopes_def thenTag_def thenItem_def itemEnd_def sequenceEnd_def

section \<open>The trunk relation is a partial order with least element\<close>

lemma isTrunkOf_refl [simp]: "isTrunkOf p p"
  by (simp add: isTrunkOf_def)

lemma isTrunkOf_trans: "isTrunkOf a b \<Longrightarrow> isTrunkOf b c \<Longrightarrow> isTrunkOf a c"
  by (auto simp: isTrunkOf_def intro: prefix_order.trans)

lemma isTrunkOf_antisym: "isTrunkOf a b \<Longrightarrow> isTrunkOf b a \<Longrightarrow> a = b"
  by (auto simp: isTrunkOf_def intro: prefix_order.antisym)

lemma emptyTagPath_isTrunkOf [simp]: "isTrunkOf emptyTagPath p"
  by (simp add: path_defs)

lemma isTrunkOf_emptyTagPath [simp]: "isTrunkOf p emptyTagPath \<longleftrightarrow> p = emptyTagPath"
  by (simp add: path_defs)

lemma hasTrunk_iff: "hasTrunk a b \<longleftrightarrow> isTrunkOf b a"
  by (simp add: hasTrunk_def)

text \<open>Two trunks of one path lie on one branch.\<close>

lemma trunks_comparable:
  "isTrunkOf a c \<Longrightarrow> isTrunkOf b c \<Longrightarrow> isTrunkOf a b \<or> isTrunkOf b a"
  unfolding isTrunkOf_def by (rule prefix_same_cases)

lemma isTrunkOf_append [simp]: "isTrunkOf p (p @ q)"
  by (simp add: isTrunkOf_def)

lemma isTrunkOf_length: "isTrunkOf a b \<Longrightarrow> length a \<le> length b"
  by (simp add: isTrunkOf_def prefix_length_le)

section \<open>Facts about the moves\<close>

lemma pathTag_empty [simp]: "pathTag emptyTagPath = None"
  by (simp add: path_defs)

lemma pathTag_snoc [simp]: "pathTag (p @ [s]) = Some (stepTag s)"
  by (simp add: pathTag_def)

lemma pathTag_None_iff: "pathTag p = None \<longleftrightarrow> p = emptyTagPath"
  by (cases p rule: rev_cases) (simp_all add: path_defs)

lemma scopes_snoc [simp]:
  "scopes (p @ [TagStep t]) = p"
  "scopes (p @ [ItemStep t i]) = p @ [ItemStep t i]"
  "scopes [] = []"
  by (simp_all add: scopes_def)

lemma scopes_isTrunkOf: "isTrunkOf (scopes p) p"
  by (cases p rule: rev_cases) (auto simp: scopes_def isTrunkOf_def split: step.splits list.splits)

lemma scopes_snoc2 [simp]: "scopes (p @ [s, TagStep t]) = p @ [s]"
  using scopes_snoc(1) [of "p @ [s]" t] by simp

lemma thenTag_nonempty [simp]: "thenTag p t \<noteq> emptyTagPath"
  by (simp add: thenTag_def emptyTagPath_def)

lemma pathTag_thenTag [simp]: "pathTag (thenTag p t) = Some t"
  by (simp add: thenTag_def)

lemma thenTag_thenTag [simp]: "thenTag (thenTag p t) u = thenTag p u"
  by (simp add: thenTag_def)

lemma thenItem_snoc [simp]:
  "thenItem (p @ [TagStep t]) i = p @ [ItemStep t i]"
  "thenItem (p @ [ItemStep t j]) i = p @ [ItemStep t i]"
  by (simp_all add: thenItem_def)

lemma itemEnd_thenTag_thenItem [simp]:
  "itemEnd (thenTag (thenItem (p @ [TagStep t]) i) u) = p @ [ItemStep t i]"
  by (simp add: itemEnd_def thenTag_def)

lemma sequenceEnd_item [simp]: "sequenceEnd (p @ [ItemStep t i]) = p @ [TagStep t]"
  by (simp add: sequenceEnd_def)

section \<open>The moves keep paths well-formed\<close>

lemma wfPath_empty [simp]: "wfPath emptyTagPath"
  by (simp add: wfPath_def emptyTagPath_def)

lemma wfPath_snoc: "wfPath (p @ [s]) \<longleftrightarrow> list_all isItemStep p"
  by (simp add: wfPath_def)

lemma wfPath_scopes_all: "wfPath p \<Longrightarrow> list_all isItemStep (scopes p)"
  by (cases p rule: rev_cases) (auto simp: wfPath_snoc scopes_def split: step.splits)

lemma wfPath_scopes: "wfPath p \<Longrightarrow> wfPath (scopes p)"
  by (cases p rule: rev_cases) (auto simp: wfPath_def scopes_def list_all_iff
      split: step.splits dest: in_set_butlastD)

lemma wfPath_thenTag: "wfPath p \<Longrightarrow> wfPath (thenTag p t)"
  by (simp add: thenTag_def wfPath_snoc wfPath_scopes_all)

lemma wfPath_thenItem: "wfPath p \<Longrightarrow> wfPath (thenItem p i)"
  by (cases p rule: rev_cases) (auto simp: wfPath_snoc thenItem_def split: step.splits)

lemma wfPath_itemEnd: "wfPath p \<Longrightarrow> wfPath (itemEnd p)"
  by (simp add: itemEnd_def wfPath_scopes)

lemma wfPath_sequenceEnd: "wfPath p \<Longrightarrow> wfPath (sequenceEnd p)"
proof (cases "scopes p" rule: rev_cases)
  case Nil
  then show "wfPath p \<Longrightarrow> wfPath (sequenceEnd p)" by (simp add: sequenceEnd_def)
next
  case (snoc q s)
  assume wf: "wfPath p"
  then have "list_all isItemStep (scopes p)" by (rule wfPath_scopes_all)
  with snoc show "wfPath (sequenceEnd p)"
    using wf by (cases s) (simp_all add: sequenceEnd_def wfPath_snoc)
qed

lemmas wfPath_moves = wfPath_thenTag wfPath_thenItem wfPath_itemEnd wfPath_sequenceEnd

lemma scopes_idem: "wfPath p \<Longrightarrow> scopes (scopes p) = scopes p"
proof (cases p rule: rev_cases)
  case Nil
  then show ?thesis by simp
next
  case (snoc q s)
  assume "wfPath p"
  with snoc have q: "list_all isItemStep q" by (simp add: wfPath_snoc)
  show ?thesis
  proof (cases s)
    case (TagStep t)
    with snoc q show ?thesis
      by (cases q rule: rev_cases) (auto simp: scopes_def split: step.splits)
  next
    case (ItemStep t i)
    with snoc show ?thesis by simp
  qed
qed

text \<open>Opening the \<open>i\<close>-th item of a sequence and closing it again addresses the item,
  and closing the sequence addresses the sequence: a scope closes at the path it opened at.\<close>

lemma item_closes_where_it_opened:
  "itemEnd (thenItem (thenTag p t) i) = thenItem (thenTag p t) i"
  by (simp add: thenTag_def itemEnd_def)

lemma sequence_closes_where_it_opened:
  "sequenceEnd (itemEnd (thenItem (thenTag p t) i)) = thenTag p t"
  by (simp add: thenTag_def itemEnd_def)

end
