(* ===== verification/Dicom_Flow.thy ===== *)
theory Dicom_Flow
  imports Tag_Path
begin

text \<open>
  The stage contract and the capability layers (specification, section 4.1), which
  \<^verbatim>\<open>src/src/dicom-flows.js\<close> imports from \<^verbatim>\<open>./dicom-flow\<close> (lines 11-14) and which are not
  among the sources. A flow object is a record of one handler per kind of part;
  \<open>handlePart\<close> dispatches on the kind. The two base classes are \<open>IdentityFlow\<close> (every
  handler forwards its part) and \<open>DeferToPartFlow\<close> (every handler defers to one
  \<^verbatim>\<open>onPart\<close>). A capability layer is a function from the flow object it wraps (its
  \<^verbatim>\<open>super\<close>) to the flow object it yields, overriding the handlers it intercepts, so that
  the class expression of a stage reads here as it does in the source.

  Following the design notes of the specification (section 9) the fields that the layers
  mix into a stage are the fields of one per-stream record \<open>flow_state\<close>, which a stage
  extends with its own. A layer that a stage does not use leaves its field untouched.

  Where the specification leaves a choice, the model makes these:
  \<^item> the predicate that recognises the header of a fragment-bearing element is a
    parameter \<open>fr\<close> of the fragment tracking layer (specification, section 9);
  \<^item> the value chunk guaranteed after a header of length zero is inserted in front of
    the handlers (\<open>baseFlow\<close>) unless the tokenizer sent one itself, and is forwarded
    like any other value chunk;
  \<^item> the delimitation layer counts down the bytes of each determinate-length sequence
    and item that is open; when a scope is exhausted it hands a delimitation part with
    no bytes to the delimitation handler of the stage itself (\<^verbatim>\<open>this\<close>, here the
    parameter \<open>self\<close>), and it never forwards a delimitation part with no bytes.
  The stage object is tied to its own delimitation handler by \<open>tie\<close>: the handler used for
  synthesized parts is the stage built with a \<open>self\<close> that emits nothing, which is all a
  stage needs while it handles a part without bytes (lemma \<open>maybeDelimit_none\<close>).
\<close>

section \<open>The per-stream state\<close>

record flow_state =
  inFragments :: bool
  silent :: bool
  warned :: "tag list"
  partStack :: "(part \<times> int) list"
  tagPath :: tagPath

definition flow_init :: flow_state where
  "flow_init = \<lparr>inFragments = False, silent = False, warned = [], partStack = [],
     tagPath = emptyTagPath\<rparr>"

section \<open>Flow objects\<close>

record 's flow =
  baseFlow :: "part list \<Rightarrow> part list"
  onHeader :: "(part, part, 's) handler"
  onValueChunk :: "(part, part, 's) handler"
  onSequence :: "(part, part, 's) handler"
  onSequenceDelimitation :: "(part, part, 's) handler"
  onItem :: "(part, part, 's) handler"
  onItemDelimitation :: "(part, part, 's) handler"
  onDeflatedChunk :: "(part, part, 's) handler"

definition emit :: "(part, part, 's) handler" where
  "emit p s = ([p], s)"

definition discard :: "(part, part, 's) handler" where
  "discard p s = ([], s)"

definition IdentityFlow :: "'s flow" where
  "IdentityFlow = \<lparr>baseFlow = id, onHeader = emit, onValueChunk = emit, onSequence = emit,
     onSequenceDelimitation = emit, onItem = emit, onItemDelimitation = emit,
     onDeflatedChunk = emit\<rparr>"

definition DeferToPartFlow :: "(part, part, 's) handler \<Rightarrow> 's flow" where
  "DeferToPartFlow onPart = \<lparr>baseFlow = id, onHeader = onPart, onValueChunk = onPart,
     onSequence = onPart, onSequenceDelimitation = onPart, onItem = onPart,
     onItemDelimitation = onPart, onDeflatedChunk = onPart\<rparr>"

definition handlePart :: "'s flow \<Rightarrow> (part, part, 's) handler" where
  "handlePart f p =
     (case p of
        HeaderPart t v l be ex fmi b \<Rightarrow> onHeader f p
      | ValueChunk b la \<Rightarrow> onValueChunk f p
      | SequencePart t l be ex b \<Rightarrow> onSequence f p
      | SequenceDelimitationPart be b \<Rightarrow> onSequenceDelimitation f p
      | ItemPart i l be b \<Rightarrow> onItem f p
      | ItemDelimitationPart i be b \<Rightarrow> onItemDelimitation f p
      | DeflatedChunk be b \<Rightarrow> onDeflatedChunk f p)"

text \<open>\<^verbatim>\<open>create(flow)\<close>: the stream stage of a flow object, started in a given state.\<close>

definition create :: "'s flow \<Rightarrow> 's \<Rightarrow> part list \<Rightarrow> part list" where
  "create f s ps = emitted (handlePart f) s (baseFlow f ps)"

section \<open>Fragment tracking\<close>

definition InFragments ::
  "(part \<Rightarrow> bool) \<Rightarrow> ('a flow_state_scheme) flow \<Rightarrow> ('a flow_state_scheme) flow" where
  "InFragments fr super = super\<lparr>
     onHeader := (\<lambda>p s. onHeader super p (if fr p then s\<lparr>inFragments := True\<rparr> else s)),
     onSequenceDelimitation :=
       (\<lambda>p s. onSequenceDelimitation super p (s\<lparr>inFragments := False\<rparr>))\<rparr>"

section \<open>Group length warnings\<close>

definition warnGroupLength :: "part \<Rightarrow> 'a flow_state_scheme \<Rightarrow> 'a flow_state_scheme" where
  "warnGroupLength p s =
     (if \<not> silent s \<and> isGroupLength (tag p) \<and> \<not> isFileMetaInformation (tag p)
      then s\<lparr>warned := warned s @ [tag p]\<rparr> else s)"

definition GroupLengthWarnings ::
  "('a flow_state_scheme) flow \<Rightarrow> ('a flow_state_scheme) flow" where
  "GroupLengthWarnings super = super\<lparr>
     onHeader := (\<lambda>p s. onHeader super p (warnGroupLength p s)),
     onSequence := (\<lambda>p s. onSequence super p (warnGroupLength p s))\<rparr>"

section \<open>Guaranteed value events\<close>

definition emptyValueChunk :: part where
  "emptyValueChunk = ValueChunk [] True"

definition needsValue :: "part \<Rightarrow> bool" where
  "needsValue p \<longleftrightarrow> isHeaderPart p \<and> plength p = 0"

fun guaranteedValue :: "part list \<Rightarrow> part list" where
  "guaranteedValue [] = []"
| "guaranteedValue [p] = (if needsValue p then [p, emptyValueChunk] else [p])"
| "guaranteedValue (p # q # ps) =
     (if needsValue p \<and> \<not> isValueChunk q then p # emptyValueChunk # guaranteedValue (q # ps)
      else p # guaranteedValue (q # ps))"

definition GuaranteedValueEvent :: "'s flow \<Rightarrow> 's flow" where
  "GuaranteedValueEvent super = super\<lparr>baseFlow := baseFlow super \<circ> guaranteedValue\<rparr>"

section \<open>Guaranteed delimitation events\<close>

definition subtractLength :: "part \<Rightarrow> (part \<times> int) list \<Rightarrow> (part \<times> int) list" where
  "subtractLength p st = map (\<lambda>(q, n). (q, n - int (length (bytes p)))) st"

definition delimitationMarker :: "part \<Rightarrow> part" where
  "delimitationMarker q =
     (if isItemPart q then ItemDelimitationPart (index q) (bigEndian q) []
      else SequenceDelimitationPart (bigEndian q) [])"

definition exhausted :: "(part \<times> int) list \<Rightarrow> part list" where
  "exhausted st = map fst (filter (\<lambda>(q, n). n \<le> 0) st)"

definition remaining :: "(part \<times> int) list \<Rightarrow> (part \<times> int) list" where
  "remaining st = filter (\<lambda>(q, n). 0 < n) st"

definition maybeDelimit ::
  "(part, part, 'a flow_state_scheme) handler \<Rightarrow> 'a flow_state_scheme
     \<Rightarrow> part list \<times> 'a flow_state_scheme" where
  "maybeDelimit self s =
     run self (s\<lparr>partStack := remaining (partStack s)\<rparr>)
       (map delimitationMarker (exhausted (partStack s)))"

definition subtractAndEmit ::
  "(part, part, 'a flow_state_scheme) handler \<Rightarrow> (part, part, 'a flow_state_scheme) handler
     \<Rightarrow> (part, part, 'a flow_state_scheme) handler" where
  "subtractAndEmit self handle p s =
     (case handle p (s\<lparr>partStack := subtractLength p (partStack s)\<rparr>) of
        (out, s') \<Rightarrow> (case maybeDelimit self s' of (dl, s'') \<Rightarrow> (out @ dl, s'')))"

definition openScope :: "part \<Rightarrow> 'a flow_state_scheme \<Rightarrow> 'a flow_state_scheme" where
  "openScope p s = s\<lparr>partStack := (p, uint (plength p)) # subtractLength p (partStack s)\<rparr>"

definition opened ::
  "(part, part, 'a flow_state_scheme) handler \<Rightarrow> (part, part, 'a flow_state_scheme) handler
     \<Rightarrow> (part, part, 'a flow_state_scheme) handler" where
  "opened self handle p s =
     (case handle p (openScope p s) of
        (out, s') \<Rightarrow> (case maybeDelimit self s' of (dl, s'') \<Rightarrow> (out @ dl, s'')))"

definition closeScope ::
  "(part \<Rightarrow> bool) \<Rightarrow> part \<Rightarrow> 'a flow_state_scheme \<Rightarrow> 'a flow_state_scheme" where
  "closeScope kind p s =
     (case partStack s of
        (q, n) # st \<Rightarrow> if \<not> isMarker p \<and> kind q then s\<lparr>partStack := st\<rparr> else s
      | [] \<Rightarrow> s)"

definition unmarked ::
  "(part, part, 's) handler \<Rightarrow> (part, part, 's) handler" where
  "unmarked handle p s = (case handle p s of (out, s') \<Rightarrow> (filter (\<lambda>d. \<not> isMarker d) out, s'))"

definition GuaranteedDelimitationEvents ::
  "(part, part, 'a flow_state_scheme) handler \<Rightarrow> ('a flow_state_scheme) flow
     \<Rightarrow> ('a flow_state_scheme) flow" where
  "GuaranteedDelimitationEvents self super = super\<lparr>
     onHeader := subtractAndEmit self (onHeader super),
     onValueChunk := subtractAndEmit self (onValueChunk super),
     onDeflatedChunk := subtractAndEmit self (onDeflatedChunk super),
     onSequence := (\<lambda>p s.
        if \<not> indeterminate p then opened self (onSequence super) p s
        else subtractAndEmit self (onSequence super) p s),
     onItem := (\<lambda>p s.
        if \<not> inFragments s \<and> \<not> indeterminate p then opened self (onItem super) p s
        else subtractAndEmit self (onItem super) p s),
     onSequenceDelimitation := (\<lambda>p s.
        subtractAndEmit self (unmarked (onSequenceDelimitation super)) p
          (closeScope isSequencePart p s)),
     onItemDelimitation := (\<lambda>p s.
        subtractAndEmit self (unmarked (onItemDelimitation super)) p
          (closeScope isItemPart p s))\<rparr>"

text \<open>Tying a stage to its own delimitation handler.\<close>

definition tie :: "((part, part, 's) handler \<Rightarrow> 's flow) \<Rightarrow> 's flow" where
  "tie F = F (handlePart (F discard))"

section \<open>Tag path tracking\<close>

definition TagPathTracking ::
  "('a flow_state_scheme) flow \<Rightarrow> ('a flow_state_scheme) flow" where
  "TagPathTracking super = super\<lparr>
     onHeader := (\<lambda>p s. onHeader super p (s\<lparr>tagPath := thenTag (tagPath s) (tag p)\<rparr>)),
     onSequence := (\<lambda>p s. onSequence super p (s\<lparr>tagPath := thenTag (tagPath s) (tag p)\<rparr>)),
     onItem := (\<lambda>p s. onItem super p
        (if inFragments s then s else s\<lparr>tagPath := thenItem (tagPath s) (index p)\<rparr>)),
     onItemDelimitation := (\<lambda>p s. onItemDelimitation super p
        (if inFragments s then s else s\<lparr>tagPath := itemEnd (tagPath s)\<rparr>)),
     onSequenceDelimitation := (\<lambda>p s. onSequenceDelimitation super p
        (if inFragments s then s else s\<lparr>tagPath := sequenceEnd (tagPath s)\<rparr>))\<rparr>"

section \<open>What the layers do to the state\<close>

text \<open>
  The three tracking layers change the state and then call the handler they wrap; the
  delimitation layer in addition delimits after it. The functions below name these state
  changes, one per layer, by kind of part; the lemmas \<open>handlePart_InFragments\<close> to
  \<open>handlePart_GuaranteedDelimitationEvents\<close> say that a layered flow object handles a
  part by exactly these changes.
\<close>

fun trackFragments ::
  "(part \<Rightarrow> bool) \<Rightarrow> part \<Rightarrow> 'a flow_state_scheme \<Rightarrow> 'a flow_state_scheme" where
  "trackFragments fr (HeaderPart t v l be ex fmi b) s =
     (if fr (HeaderPart t v l be ex fmi b) then s\<lparr>inFragments := True\<rparr> else s)"
| "trackFragments fr (SequenceDelimitationPart be b) s = s\<lparr>inFragments := False\<rparr>"
| "trackFragments fr p s = s"

fun trackWarn :: "part \<Rightarrow> 'a flow_state_scheme \<Rightarrow> 'a flow_state_scheme" where
  "trackWarn (HeaderPart t v l be ex fmi b) s = warnGroupLength (HeaderPart t v l be ex fmi b) s"
| "trackWarn (SequencePart t l be ex b) s = warnGroupLength (SequencePart t l be ex b) s"
| "trackWarn p s = s"

fun trackStack :: "part \<Rightarrow> 'a flow_state_scheme \<Rightarrow> 'a flow_state_scheme" where
  "trackStack (SequencePart t l be ex b) s =
     (if l \<noteq> indeterminateLength then openScope (SequencePart t l be ex b) s
      else s\<lparr>partStack := subtractLength (SequencePart t l be ex b) (partStack s)\<rparr>)"
| "trackStack (ItemPart i l be b) s =
     (if \<not> inFragments s \<and> l \<noteq> indeterminateLength then openScope (ItemPart i l be b) s
      else s\<lparr>partStack := subtractLength (ItemPart i l be b) (partStack s)\<rparr>)"
| "trackStack (SequenceDelimitationPart be b) s =
     (let s' = closeScope isSequencePart (SequenceDelimitationPart be b) s
      in s'\<lparr>partStack := subtractLength (SequenceDelimitationPart be b) (partStack s')\<rparr>)"
| "trackStack (ItemDelimitationPart i be b) s =
     (let s' = closeScope isItemPart (ItemDelimitationPart i be b) s
      in s'\<lparr>partStack := subtractLength (ItemDelimitationPart i be b) (partStack s')\<rparr>)"
| "trackStack p s = s\<lparr>partStack := subtractLength p (partStack s)\<rparr>"

fun trackPath :: "part \<Rightarrow> 'a flow_state_scheme \<Rightarrow> 'a flow_state_scheme" where
  "trackPath (HeaderPart t v l be ex fmi b) s = s\<lparr>tagPath := thenTag (tagPath s) t\<rparr>"
| "trackPath (SequencePart t l be ex b) s = s\<lparr>tagPath := thenTag (tagPath s) t\<rparr>"
| "trackPath (ItemPart i l be b) s =
     (if inFragments s then s else s\<lparr>tagPath := thenItem (tagPath s) i\<rparr>)"
| "trackPath (ItemDelimitationPart i be b) s =
     (if inFragments s then s else s\<lparr>tagPath := itemEnd (tagPath s)\<rparr>)"
| "trackPath (SequenceDelimitationPart be b) s =
     (if inFragments s then s else s\<lparr>tagPath := sequenceEnd (tagPath s)\<rparr>)"
| "trackPath p s = s"

text \<open>A handler followed by the delimitation of the scopes it exhausted.\<close>

definition delimited ::
  "(part, part, 'a flow_state_scheme) handler \<Rightarrow> (part, part, 'a flow_state_scheme) handler
     \<Rightarrow> (part, part, 'a flow_state_scheme) handler" where
  "delimited self core p s =
     (case core p s of
        (out, s') \<Rightarrow> (case maybeDelimit self s' of (dl, s'') \<Rightarrow> (out @ dl, s'')))"

text \<open>A handler whose result the stage finishes: the last word of an override.\<close>

definition finished ::
  "(part \<Rightarrow> part list \<times> 's \<Rightarrow> part list \<times> 's) \<Rightarrow> (part, part, 's) handler
     \<Rightarrow> (part, part, 's) handler" where
  "finished finish core p s = finish p (core p s)"

text \<open>The delimitation layer without its last step: count, call, drop empty delimiters.\<close>

definition counted ::
  "(part, part, 'a flow_state_scheme) handler \<Rightarrow> (part, part, 'a flow_state_scheme) handler" where
  "counted handle p s =
     (if isDelimitation p then unmarked handle p (trackStack p s) else handle p (trackStack p s))"

lemmas base_defs = IdentityFlow_def DeferToPartFlow_def emit_def discard_def
lemmas layer_defs = InFragments_def GroupLengthWarnings_def GuaranteedValueEvent_def
  GuaranteedDelimitationEvents_def TagPathTracking_def
lemmas gde_defs = subtractAndEmit_def opened_def openScope_def closeScope_def unmarked_def
  maybeDelimit_def subtractLength_def exhausted_def remaining_def delimitationMarker_def

declare base_defs [flow_defs] layer_defs [flow_defs] gde_defs [flow_defs] tie_def [flow_defs]

section \<open>Dispatch\<close>

lemma handlePart_simps [simp]:
  "handlePart f (HeaderPart t v l be ex fmi b) = onHeader f (HeaderPart t v l be ex fmi b)"
  "handlePart f (ValueChunk b la) = onValueChunk f (ValueChunk b la)"
  "handlePart f (SequencePart t l be ex b) = onSequence f (SequencePart t l be ex b)"
  "handlePart f (SequenceDelimitationPart be b) =
     onSequenceDelimitation f (SequenceDelimitationPart be b)"
  "handlePart f (ItemPart i l be b) = onItem f (ItemPart i l be b)"
  "handlePart f (ItemDelimitationPart i be b) = onItemDelimitation f (ItemDelimitationPart i be b)"
  "handlePart f (DeflatedChunk be b) = onDeflatedChunk f (DeflatedChunk be b)"
  by (simp_all add: handlePart_def)

lemma handlePart_IdentityFlow [simp]: "handlePart IdentityFlow = emit"
  by (rule ext) (simp add: handlePart_def IdentityFlow_def split: part.splits)

lemma handlePart_DeferToPartFlow [simp]: "handlePart (DeferToPartFlow onPart) = onPart"
  by (rule ext) (simp add: handlePart_def DeferToPartFlow_def split: part.splits)

lemma emitted_emit [simp]: "emitted emit s ps = ps"
  by (induction ps arbitrary: s) (simp_all add: emit_def)

lemma final_emit [simp]: "final emit s ps = s"
  by (induction ps arbitrary: s) (simp_all add: emit_def)

lemma create_IdentityFlow: "create IdentityFlow s ps = ps"
  by (simp add: create_def) (simp add: IdentityFlow_def)

section \<open>Guaranteed values\<close>

lemma guaranteedValue_Cons:
  "guaranteedValue (p # ps) =
     (if needsValue p \<and> (ps = [] \<or> \<not> isValueChunk (hd ps))
      then p # emptyValueChunk # guaranteedValue ps else p # guaranteedValue ps)"
  by (cases ps) simp_all

lemma needsValue_emptyValueChunk [simp]: "\<not> needsValue emptyValueChunk"
  by (simp add: needsValue_def emptyValueChunk_def)

lemma bytes_emptyValueChunk [simp]: "bytes emptyValueChunk = []"
  by (simp add: emptyValueChunk_def)

lemma isValueChunk_emptyValueChunk [simp]: "isValueChunk emptyValueChunk"
  by (simp add: emptyValueChunk_def)

lemma subseq_guaranteedValue: "subseq ps (guaranteedValue ps)"
  by (induction ps rule: guaranteedValue.induct) auto

lemma set_guaranteedValue: "set (guaranteedValue ps) \<subseteq> insert emptyValueChunk (set ps)"
  by (induction ps rule: guaranteedValue.induct) auto

text \<open>The inserted chunks carry no bytes: the byte stream is the one that came in.\<close>

lemma concat_bytes_guaranteedValue:
  "concat (map bytes (guaranteedValue ps)) = concat (map bytes ps)"
  by (induction ps rule: guaranteedValue.induct) auto

text \<open>After the layer every header of length zero is followed by a value chunk.\<close>

fun valueFollows :: "part list \<Rightarrow> bool" where
  "valueFollows [] \<longleftrightarrow> True"
| "valueFollows [p] \<longleftrightarrow> \<not> needsValue p"
| "valueFollows (p # q # ps) \<longleftrightarrow> (needsValue p \<longrightarrow> isValueChunk q) \<and> valueFollows (q # ps)"

lemma valueFollows_Cons:
  "valueFollows (p # ps) \<longleftrightarrow>
     (needsValue p \<longrightarrow> ps \<noteq> [] \<and> isValueChunk (hd ps)) \<and> valueFollows ps"
  by (cases ps) auto

lemma hd_guaranteedValue [simp]: "hd (guaranteedValue (p # ps)) = p"
  by (cases ps) simp_all

lemma guaranteedValue_Nil_iff [simp]: "guaranteedValue ps = [] \<longleftrightarrow> ps = []"
  by (cases ps rule: guaranteedValue.cases) simp_all

lemma valueFollows_guaranteedValue: "valueFollows (guaranteedValue ps)"
  by (induction ps rule: guaranteedValue.induct) (simp_all add: valueFollows_Cons)

lemma guaranteedValue_id: "valueFollows ps \<Longrightarrow> guaranteedValue ps = ps"
  by (induction ps rule: guaranteedValue.induct) auto

lemma guaranteedValue_idem: "guaranteedValue (guaranteedValue ps) = guaranteedValue ps"
  by (simp add: guaranteedValue_id valueFollows_guaranteedValue)

section \<open>The delimitation stack\<close>

lemma subtractLength_Nil [simp]: "subtractLength p [] = []"
  by (simp add: subtractLength_def)

lemma subtractLength_no_bytes [simp]: "bytes p = [] \<Longrightarrow> subtractLength p st = st"
  by (induction st) (auto simp: subtractLength_def)

lemma exhausted_remaining [simp]: "exhausted (remaining st) = []"
  by (induction st) (auto simp: exhausted_def remaining_def)

lemma remaining_idem [simp]: "remaining (remaining st) = remaining st"
  by (simp add: remaining_def)

lemma exhausted_Nil_iff: "exhausted st = [] \<longleftrightarrow> (\<forall>(q, n) \<in> set st. 0 < n)"
  by (induction st) (auto simp: exhausted_def)

lemma remaining_id: "exhausted st = [] \<Longrightarrow> remaining st = st"
  by (induction st) (auto simp: exhausted_def remaining_def split: if_splits)

lemma isMarker_delimitationMarker [simp]: "isMarker (delimitationMarker q)"
  by (simp add: delimitationMarker_def)

lemma bytes_delimitationMarker [simp]: "bytes (delimitationMarker q) = []"
  by (simp add: delimitationMarker_def)

text \<open>
  With no exhausted scope nothing is delimited and \<open>self\<close> is not called: this is why a
  stage handling a synthesized part needs no further \<open>self\<close>.
\<close>

lemma maybeDelimit_none:
  "exhausted (partStack s) = [] \<Longrightarrow> maybeDelimit self s = ([], s)"
  by (simp add: maybeDelimit_def remaining_id)

lemma subtractAndEmit_none:
  "exhausted (partStack (snd (handle p (s\<lparr>partStack := subtractLength p (partStack s)\<rparr>)))) = []
   \<Longrightarrow> subtractAndEmit self handle p s
       = handle p (s\<lparr>partStack := subtractLength p (partStack s)\<rparr>)"
  by (cases "handle p (s\<lparr>partStack := subtractLength p (partStack s)\<rparr>)")
    (simp add: subtractAndEmit_def maybeDelimit_none)

lemma maybeDelimit_state:
  "partStack s = partStack t \<Longrightarrow> maybeDelimit self s
     = run self (s\<lparr>partStack := remaining (partStack t)\<rparr>)
         (map delimitationMarker (exhausted (partStack t)))"
  by (simp add: maybeDelimit_def)

lemma unmarked_emits_no_marker:
  "q \<in> set (fst (unmarked handle p s)) \<Longrightarrow> \<not> isMarker q"
  by (auto simp: unmarked_def split: prod.splits)

section \<open>Layered flow objects handle a part by tracking and calling\<close>

lemma handlePart_InFragments:
  "handlePart (InFragments fr super) = (\<lambda>p s. handlePart super p (trackFragments fr p s))"
proof (intro ext)
  fix p s
  show "handlePart (InFragments fr super) p s = handlePart super p (trackFragments fr p s)"
    by (cases p) (simp_all add: InFragments_def)
qed

lemma handlePart_GroupLengthWarnings:
  "handlePart (GroupLengthWarnings super) = (\<lambda>p s. handlePart super p (trackWarn p s))"
proof (intro ext)
  fix p s
  show "handlePart (GroupLengthWarnings super) p s = handlePart super p (trackWarn p s)"
    by (cases p) (simp_all add: GroupLengthWarnings_def)
qed

lemma handlePart_GuaranteedValueEvent:
  "handlePart (GuaranteedValueEvent super) = handlePart super"
  by (rule ext) (simp add: handlePart_def GuaranteedValueEvent_def split: part.splits)

lemma handlePart_TagPathTracking:
  "handlePart (TagPathTracking super) = (\<lambda>p s. handlePart super p (trackPath p s))"
proof (intro ext)
  fix p s
  show "handlePart (TagPathTracking super) p s = handlePart super p (trackPath p s)"
    by (cases p) (simp_all add: TagPathTracking_def)
qed

lemma handlePart_GuaranteedDelimitationEvents:
  "handlePart (GuaranteedDelimitationEvents self super)
     = delimited self (counted (handlePart super))"
proof (intro ext)
  fix p s
  show "handlePart (GuaranteedDelimitationEvents self super) p s
     = delimited self (counted (handlePart super)) p s"
    by (cases p)
      (simp_all add: GuaranteedDelimitationEvents_def delimited_def counted_def
        subtractAndEmit_def opened_def unmarked_def Let_def)
qed

text \<open>The same by handler, for a stage that overrides handlers of the layer.\<close>

lemma on_GuaranteedDelimitationEvents:
  "onSequence (GuaranteedDelimitationEvents self super) (SequencePart t l be ex b)
     = delimited self (counted (handlePart super)) (SequencePart t l be ex b)"
  "onSequenceDelimitation (GuaranteedDelimitationEvents self super) (SequenceDelimitationPart be b)
     = delimited self (counted (handlePart super)) (SequenceDelimitationPart be b)"
  "onItem (GuaranteedDelimitationEvents self super) (ItemPart i l be b)
     = delimited self (counted (handlePart super)) (ItemPart i l be b)"
  "onItemDelimitation (GuaranteedDelimitationEvents self super) (ItemDelimitationPart i be b)
     = delimited self (counted (handlePart super)) (ItemDelimitationPart i be b)"
  "onHeader (GuaranteedDelimitationEvents self super) (HeaderPart t v l be ex fmi b)
     = delimited self (counted (handlePart super)) (HeaderPart t v l be ex fmi b)"
  "onValueChunk (GuaranteedDelimitationEvents self super) (ValueChunk b la)
     = delimited self (counted (handlePart super)) (ValueChunk b la)"
  "onDeflatedChunk (GuaranteedDelimitationEvents self super) (DeflatedChunk be b)
     = delimited self (counted (handlePart super)) (DeflatedChunk be b)"
  by (simp_all flip: handlePart_GuaranteedDelimitationEvents)

lemmas handlePart_layers = handlePart_InFragments handlePart_GroupLengthWarnings
  handlePart_GuaranteedValueEvent handlePart_TagPathTracking
  handlePart_GuaranteedDelimitationEvents

lemma baseFlow_layers [simp]:
  "baseFlow (InFragments fr super) = baseFlow super"
  "baseFlow (GroupLengthWarnings super) = baseFlow super"
  "baseFlow (GuaranteedValueEvent super) = baseFlow super \<circ> guaranteedValue"
  "baseFlow (GuaranteedDelimitationEvents self super) = baseFlow super"
  "baseFlow (TagPathTracking super) = baseFlow super"
  "baseFlow IdentityFlow = id"
  "baseFlow (DeferToPartFlow onPart) = id"
  by (simp_all add: layer_defs base_defs)

section \<open>A synthesized part changes no count\<close>

lemma trackStack_marker [simp]: "isMarker m \<Longrightarrow> trackStack m s = s"
  by (cases m) (auto simp: closeScope_def split: list.splits)

lemma partStack_track [simp]:
  "partStack (trackFragments fr p s) = partStack s"
  "partStack (trackWarn p s) = partStack s"
  "partStack (trackPath p s) = partStack s"
  by (cases p; simp add: warnGroupLength_def)+

lemma inFragments_track [simp]:
  "inFragments (trackWarn p s) = inFragments s"
  "inFragments (trackPath p s) = inFragments s"
  "inFragments (trackStack p s) = inFragments s"
  by (cases p; simp add: warnGroupLength_def openScope_def closeScope_def Let_def
      split: list.splits)+

lemma tagPath_track [simp]:
  "tagPath (trackWarn p s) = tagPath s"
  "tagPath (trackFragments fr p s) = tagPath s"
  "tagPath (trackStack p s) = tagPath s"
  by (cases p; simp add: warnGroupLength_def openScope_def closeScope_def Let_def
      split: list.splits)+

lemma silent_track [simp]:
  "silent (trackWarn p s) = silent s"
  "silent (trackFragments fr p s) = silent s"
  "silent (trackStack p s) = silent s"
  "silent (trackPath p s) = silent s"
  by (cases p; simp add: warnGroupLength_def openScope_def closeScope_def Let_def
      split: list.splits)+

lemma warned_track [simp]:
  "warned (trackFragments fr p s) = warned s"
  "warned (trackStack p s) = warned s"
  "warned (trackPath p s) = warned s"
  by (cases p; simp add: openScope_def closeScope_def Let_def split: list.splits)+

lemma warned_trackWarn_silent [simp]: "silent s \<Longrightarrow> warned (trackWarn p s) = warned s"
  by (cases p) (simp_all add: warnGroupLength_def)

lemma snd_delimited:
  "snd (delimited self core p s) = snd (maybeDelimit self (snd (core p s)))"
  by (simp add: delimited_def split: prod.splits)

lemma wfPath_trackPath: "wfPath (tagPath s) \<Longrightarrow> wfPath (tagPath (trackPath p s))"
  by (cases p) (simp_all add: wfPath_moves)

section \<open>Tying the knot\<close>

text \<open>
  A stage above the delimitation layer handles a part by the core of the layers
  (\<open>core\<close>), the delimitation of the scopes the part exhausted, and a last word of its
  own on what was emitted (\<open>finish\<close>, the identity for a stage that overrides nothing).
  While the scopes that a part exhausted are delimited, the handler sees synthesized
  parts only, and they exhaust nothing. So if the stage leaves the count alone on a
  synthesized part, delimiting with the whole stage is delimiting with its core and its
  last word, whatever the stage itself delimits with.
\<close>

lemma maybeDelimit_finished:
  assumes core: "\<And>m s. isMarker m \<Longrightarrow> partStack (snd (core m s)) = partStack s"
    and finish: "\<And>m x. isMarker m \<Longrightarrow> partStack (snd (finish m x)) = partStack (snd x)"
  shows "maybeDelimit (finished finish (delimited self core)) s
     = maybeDelimit (finished finish core) s"
  unfolding maybeDelimit_def
proof (rule run_cong_invariant [where I = "\<lambda>s. exhausted (partStack s) = []"])
  fix m and t :: "'a flow_state_scheme"
  assume "m \<in> set (map delimitationMarker (exhausted (partStack s)))"
  then have m: "isMarker m" by auto
  assume t: "exhausted (partStack t) = []"
  with core [OF m, of t] have "exhausted (partStack (snd (core m t))) = []"
    by simp
  then have "delimited self core m t = core m t"
    by (cases "core m t") (simp add: delimited_def maybeDelimit_none)
  then show eq: "finished finish (delimited self core) m t = finished finish core m t"
    by (simp add: finished_def)
  from core [OF m, of t] finish [OF m, of "core m t"] t
  show "exhausted (partStack (snd (finished finish (delimited self core) m t))) = []"
    by (simp add: eq) (simp add: finished_def)
qed simp

lemma handlePart_tie_finished:
  assumes step: "\<And>self. handlePart (F self) = finished finish (delimited self core)"
    and core: "\<And>m s. isMarker m \<Longrightarrow> partStack (snd (core m s)) = partStack s"
    and finish: "\<And>m x. isMarker m \<Longrightarrow> partStack (snd (finish m x)) = partStack (snd x)"
  shows "handlePart (tie F) = finished finish (delimited (finished finish core) core)"
proof -
  have "delimited (finished finish (delimited discard core)) core
      = delimited (finished finish core) core"
    by (intro ext) (simp add: delimited_def maybeDelimit_finished [OF core finish])
  then show ?thesis
    by (simp add: tie_def step)
qed

text \<open>
  The tied object is the fixed point the class expression asks for: the stage built with
  the tied object as its \<open>self\<close> handles every part as the tied object does.
\<close>

lemma tie_fixed_point_finished:
  assumes step: "\<And>self. handlePart (F self) = finished finish (delimited self core)"
    and core: "\<And>m s. isMarker m \<Longrightarrow> partStack (snd (core m s)) = partStack s"
    and finish: "\<And>m x. isMarker m \<Longrightarrow> partStack (snd (finish m x)) = partStack (snd x)"
  shows "handlePart (F (handlePart (tie F))) = handlePart (tie F)"
proof -
  have "delimited (finished finish (delimited (finished finish core) core)) core
      = delimited (finished finish core) core"
    by (intro ext) (simp add: delimited_def maybeDelimit_finished [OF core finish])
  then show ?thesis
    by (simp add: step handlePart_tie_finished [OF step core finish])
qed

text \<open>The same for a stage that has no last word.\<close>

lemma finished_id [simp]: "finished (\<lambda>p x. x) core = core"
  by (intro ext) (simp add: finished_def)

lemma handlePart_tie:
  assumes step: "\<And>self. handlePart (F self) = delimited self core"
    and core: "\<And>m s. isMarker m \<Longrightarrow> partStack (snd (core m s)) = partStack s"
  shows "handlePart (tie F) = delimited core core"
  using handlePart_tie_finished [of F "\<lambda>p x. x" core] step core by simp

lemma tie_fixed_point:
  assumes step: "\<And>self. handlePart (F self) = delimited self core"
    and core: "\<And>m s. isMarker m \<Longrightarrow> partStack (snd (core m s)) = partStack s"
  shows "handlePart (F (handlePart (tie F))) = handlePart (tie F)"
  using tie_fixed_point_finished [of F "\<lambda>p x. x" core] step core by simp

end
