(* ===== verification/Tag_Filters.thy ===== *)
theory Tag_Filters
  imports Dicom_Flow
begin

text \<open>
  The tag filters of \<^verbatim>\<open>src/src/dicom-flows.js\<close> (lines 26-57): \<^verbatim>\<open>tagFilter\<close> and the four
  filters built on it. The keep conditions are the arrow functions the source passes to
  \<^verbatim>\<open>tagFilter\<close>; \<open>tagFilter_onPart\<close> is the \<^verbatim>\<open>onPart\<close> of the anonymous class, \<open>tagFilter_init\<close>
  its constructor, \<open>tagFilter_flow\<close> its class expression and \<open>tagFilter\<close> the function
  itself, with its optional arguments as options. The source compares the current path
  with the object \<^verbatim>\<open>emptyTagPath\<close> by identity; here a path is its list of steps and the
  empty path is the empty list.
\<close>

section \<open>Keep conditions\<close>

definition whitelist_keep :: "tagPath list \<Rightarrow> tagPath \<Rightarrow> bool" where
  "whitelist_keep whitelist currentPath \<longleftrightarrow>
     some (\<lambda>t. hasTrunk t currentPath \<or> isTrunkOf t currentPath) whitelist"

definition blacklist_keep :: "tagPath list \<Rightarrow> tagPath \<Rightarrow> bool" where
  "blacklist_keep blacklist currentPath \<longleftrightarrow>
     \<not> some (\<lambda>t. isTrunkOf t currentPath) blacklist"

text \<open>
  The next two ask for \<^verbatim>\<open>tagPath.tag()\<close>. \<open>tagFilter_onPart\<close> calls a keep condition on
  a path that is not the empty path only, so their value
  on the empty path, which has no tag, is never looked at.
\<close>

definition groupLength_keep :: "tagPath \<Rightarrow> bool" where
  "groupLength_keep path =
     (case pathTag path of
        Some t \<Rightarrow> \<not> isGroupLength t \<or> isFileMetaInformation t
      | None \<Rightarrow> False)"

definition fmi_keep :: "tagPath \<Rightarrow> bool" where
  "fmi_keep path =
     (case pathTag path of
        Some t \<Rightarrow> \<not> isFileMetaInformation t
      | None \<Rightarrow> False)"

declare whitelist_keep_def [keep_defs] blacklist_keep_def [keep_defs]
  groupLength_keep_def [keep_defs] fmi_keep_def [keep_defs]

section \<open>The filter stage\<close>

record tagFilter_state = flow_state +
  keeping :: bool

definition tagFilter_init :: "bool \<Rightarrow> tagFilter_state" where
  "tagFilter_init warnings = \<lparr>inFragments = False, silent = \<not> warnings, warned = [],
     partStack = [], tagPath = emptyTagPath, keeping = False\<rparr>"

definition tagFilter_onPart ::
  "(tagPath \<Rightarrow> bool) \<Rightarrow> (part \<Rightarrow> bool) \<Rightarrow> (part, part, tagFilter_state) handler" where
  "tagFilter_onPart keepCondition defCond part s =
     (let s' = s\<lparr>keeping :=
                  (if tagPath s = emptyTagPath then defCond part else keepCondition (tagPath s))\<rparr>
      in (if keeping s' then [part] else [], s'))"

definition tagFilter_class ::
  "(part \<Rightarrow> bool) \<Rightarrow> (tagPath \<Rightarrow> bool) \<Rightarrow> (part \<Rightarrow> bool)
     \<Rightarrow> (part, part, tagFilter_state) handler \<Rightarrow> tagFilter_state flow" where
  "tagFilter_class fr keepCondition defCond self =
     TagPathTracking (GuaranteedDelimitationEvents self (GuaranteedValueEvent
       (GroupLengthWarnings (InFragments fr
         (DeferToPartFlow (tagFilter_onPart keepCondition defCond))))))"

definition tagFilter_flow ::
  "(part \<Rightarrow> bool) \<Rightarrow> (tagPath \<Rightarrow> bool) \<Rightarrow> (part \<Rightarrow> bool) \<Rightarrow> tagFilter_state flow" where
  "tagFilter_flow fr keepCondition defCond = tie (tagFilter_class fr keepCondition defCond)"

definition tagFilter ::
  "(part \<Rightarrow> bool) \<Rightarrow> (tagPath \<Rightarrow> bool) \<Rightarrow> (part \<Rightarrow> bool) option \<Rightarrow> bool option
     \<Rightarrow> part list \<Rightarrow> part list" where
  "tagFilter fr keepCondition defaultCondition logGroupLengthWarnings =
     (let warnings = (case logGroupLengthWarnings of None \<Rightarrow> False | Some w \<Rightarrow> w);
          defCond = (case defaultCondition of None \<Rightarrow> (\<lambda>_. True) | Some d \<Rightarrow> d)
      in create (tagFilter_flow fr keepCondition defCond) (tagFilter_init warnings))"

definition whitelistFilter :: "(part \<Rightarrow> bool) \<Rightarrow> tagPath list \<Rightarrow> part list \<Rightarrow> part list" where
  "whitelistFilter fr whitelist = tagFilter fr (whitelist_keep whitelist) (Some (\<lambda>_. False)) None"

definition blacklistFilter :: "(part \<Rightarrow> bool) \<Rightarrow> tagPath list \<Rightarrow> part list \<Rightarrow> part list" where
  "blacklistFilter fr blacklist = tagFilter fr (blacklist_keep blacklist) None None"

definition groupLengthDiscardFilter :: "(part \<Rightarrow> bool) \<Rightarrow> part list \<Rightarrow> part list" where
  "groupLengthDiscardFilter fr = tagFilter fr groupLength_keep None None"

definition fmiDiscardFilter :: "(part \<Rightarrow> bool) \<Rightarrow> part list \<Rightarrow> part list" where
  "fmiDiscardFilter fr = tagFilter fr fmi_keep (Some (\<lambda>_. False)) None"

lemmas tagFilter_defs = tagFilter_def tagFilter_flow_def tagFilter_class_def
  tagFilter_init_def tagFilter_onPart_def
lemmas filter_defs = whitelistFilter_def blacklistFilter_def groupLengthDiscardFilter_def
  fmiDiscardFilter_def


section \<open>The handler of the stage\<close>

text \<open>
  The state in which \<^verbatim>\<open>onPart\<close> finds the stage when the layers have seen the part, and
  the decision it takes there.
\<close>

definition tracked ::
  "(part \<Rightarrow> bool) \<Rightarrow> part \<Rightarrow> 'a flow_state_scheme \<Rightarrow> 'a flow_state_scheme" where
  "tracked fr p s = trackFragments fr p (trackWarn p (trackStack p (trackPath p s)))"

definition keepNow ::
  "(tagPath \<Rightarrow> bool) \<Rightarrow> (part \<Rightarrow> bool) \<Rightarrow> part \<Rightarrow> 'a flow_state_scheme \<Rightarrow> bool" where
  "keepNow keepCondition defCond p s =
     (if tagPath (trackPath p s) = emptyTagPath then defCond p
      else keepCondition (tagPath (trackPath p s)))"

definition tagFilter_core ::
  "(part \<Rightarrow> bool) \<Rightarrow> (tagPath \<Rightarrow> bool) \<Rightarrow> (part \<Rightarrow> bool)
     \<Rightarrow> (part, part, tagFilter_state) handler" where
  "tagFilter_core fr k d p s =
     counted (\<lambda>p s. tagFilter_onPart k d p (trackFragments fr p (trackWarn p s))) p
       (trackPath p s)"

lemma tagPath_tracked [simp]: "tagPath (tracked fr p s) = tagPath (trackPath p s)"
  by (simp add: tracked_def)

lemma partStack_tracked_marker [simp]:
  "isMarker m \<Longrightarrow> partStack (tracked fr m s) = partStack s"
  by (simp add: tracked_def)

lemma tagFilter_core_eq:
  "tagFilter_core fr k d p s =
     (if keepNow k d p s \<and> \<not> isMarker p then [p] else [],
      (tracked fr p s)\<lparr>keeping := keepNow k d p s\<rparr>)"
  by (auto simp: tagFilter_core_def counted_def unmarked_def tagFilter_onPart_def
      keepNow_def tracked_def Let_def isMarker_def)

lemma tagFilter_class_step:
  "handlePart (tagFilter_class fr k d self) = delimited self (tagFilter_core fr k d)"
  by (intro ext)
    (simp add: tagFilter_class_def handlePart_layers tagFilter_core_def delimited_def)

lemma tagFilter_core_frame:
  "isMarker m \<Longrightarrow> partStack (snd (tagFilter_core fr k d m s)) = partStack s"
  by (simp add: tagFilter_core_eq)

lemma tagFilter_step:
  "handlePart (tagFilter_flow fr k d)
     = delimited (tagFilter_core fr k d) (tagFilter_core fr k d)"
  unfolding tagFilter_flow_def
  by (rule handlePart_tie [OF tagFilter_class_step tagFilter_core_frame])

text \<open>The object that delimits with itself is the object of the class expression.\<close>

lemma tagFilter_flow_fixed_point:
  "handlePart (tagFilter_class fr k d (handlePart (tagFilter_flow fr k d)))
     = handlePart (tagFilter_flow fr k d)"
  unfolding tagFilter_flow_def
  by (rule tie_fixed_point [OF tagFilter_class_step tagFilter_core_frame])

lemma tagFilter_delimit_silent:
  "fst (maybeDelimit (tagFilter_core fr k d) s) = []"
  unfolding maybeDelimit_def emitted_def [symmetric]
  by (rule emitted_Nil_iff) (auto simp: tagFilter_core_eq)

lemma tagFilter_step_out:
  "fst (handlePart (tagFilter_flow fr k d) p s)
     = (if keepNow k d p s \<and> \<not> isMarker p then [p] else [])"
  by (cases "maybeDelimit (tagFilter_core fr k d)
        ((tracked fr p s)\<lparr>keeping := keepNow k d p s\<rparr>)")
    (use tagFilter_delimit_silent
        [of fr k d "(tracked fr p s)\<lparr>keeping := keepNow k d p s\<rparr>"]
      in \<open>simp add: tagFilter_step delimited_def tagFilter_core_eq\<close>)

lemma baseFlow_tagFilter_flow [simp]:
  "baseFlow (tagFilter_flow fr k d) = guaranteedValue"
  by (simp add: tagFilter_flow_def tie_def tagFilter_class_def)


section \<open>Properties of the keep conditions\<close>

lemma whitelist_keep_iff:
  "whitelist_keep W p \<longleftrightarrow> (\<exists>w \<in> set W. isTrunkOf p w \<or> isTrunkOf w p)"
  by (auto simp: whitelist_keep_def list_ex_iff hasTrunk_iff)

lemma blacklist_keep_iff:
  "blacklist_keep B p \<longleftrightarrow> (\<forall>b \<in> set B. \<not> isTrunkOf b p)"
  by (auto simp: blacklist_keep_def list_ex_iff)

lemma whitelist_keep_Nil [simp]: "\<not> whitelist_keep [] p"
  by (simp add: whitelist_keep_def)

lemma blacklist_keep_Nil [simp]: "blacklist_keep [] p"
  by (simp add: blacklist_keep_def)

text \<open>
  C19. The white list keeps the way to what it lists: when it keeps a path it keeps every
  trunk of that path, so the sequences and items that lead to a kept element are kept
  with it.
\<close>

theorem whitelist_keep_trunk:
  assumes "whitelist_keep W q" and "isTrunkOf p q"
  shows "whitelist_keep W p"
proof -
  from assms(1) obtain w where w: "w \<in> set W" and "isTrunkOf q w \<or> isTrunkOf w q"
    by (auto simp: whitelist_keep_iff)
  then have "isTrunkOf p w \<or> isTrunkOf w p"
    using assms(2) by (auto intro: isTrunkOf_trans dest: trunks_comparable)
  with w show ?thesis by (auto simp: whitelist_keep_iff)
qed

theorem whitelist_keep_trunk_witness:
  "whitelist_keep [[ItemStep DerivationCodeSequence 1, TagStep PatientName]]
      [ItemStep DerivationCodeSequence 1, TagStep PatientName]
   \<and> isTrunkOf [ItemStep DerivationCodeSequence 1]
      [ItemStep DerivationCodeSequence 1, TagStep PatientName]
   \<and> whitelist_keep [[ItemStep DerivationCodeSequence 1, TagStep PatientName]]
      [ItemStep DerivationCodeSequence 1]"
  using whitelist_keep_trunk
    [of "[[ItemStep DerivationCodeSequence 1, TagStep PatientName]]"
        "[ItemStep DerivationCodeSequence 1, TagStep PatientName]"
        "[ItemStep DerivationCodeSequence 1]"]
  by (simp add: whitelist_keep_def path_defs)

text \<open>
  C8. The black list drops whole subtrees: a path it drops has no kept path below it, so
  dropping a sequence or an item drops everything addressed through it.
\<close>

theorem blacklist_drops_subtree:
  assumes "\<not> blacklist_keep B p" and "isTrunkOf p q"
  shows "\<not> blacklist_keep B q"
  using assms by (auto simp: blacklist_keep_iff intro: isTrunkOf_trans)

theorem blacklist_drops_subtree_witness:
  "\<not> blacklist_keep [[ItemStep DerivationCodeSequence 1]] [ItemStep DerivationCodeSequence 1]
   \<and> isTrunkOf [ItemStep DerivationCodeSequence 1]
      [ItemStep DerivationCodeSequence 1, TagStep PatientName]
   \<and> \<not> blacklist_keep [[ItemStep DerivationCodeSequence 1]]
      [ItemStep DerivationCodeSequence 1, TagStep PatientName]"
  using blacklist_drops_subtree
    [of "[[ItemStep DerivationCodeSequence 1]]" "[ItemStep DerivationCodeSequence 1]"
        "[ItemStep DerivationCodeSequence 1, TagStep PatientName]"]
  by (simp add: blacklist_keep_def path_defs)

text \<open>
  C20. The white list and the black list of the same paths are not complementary: both
  keep exactly the paths that lead to a listed path without reaching one, that is the
  proper trunks of listed paths that have no listed trunk themselves.
\<close>

theorem whitelist_blacklist_overlap:
  "whitelist_keep W p \<and> blacklist_keep W p \<longleftrightarrow>
     (\<exists>w \<in> set W. isTrunkOf p w) \<and> (\<forall>w \<in> set W. \<not> isTrunkOf w p)"
  by (auto simp: whitelist_keep_iff blacklist_keep_iff)

theorem whitelist_blacklist_overlap_witness:
  "whitelist_keep [[ItemStep DerivationCodeSequence 1, TagStep PatientName]]
      [ItemStep DerivationCodeSequence 1]
   \<and> blacklist_keep [[ItemStep DerivationCodeSequence 1, TagStep PatientName]]
      [ItemStep DerivationCodeSequence 1]"
  using whitelist_blacklist_overlap
    [of "[[ItemStep DerivationCodeSequence 1, TagStep PatientName]]"
        "[ItemStep DerivationCodeSequence 1]"]
  by (simp add: path_defs)

text \<open>
  C25. The group length filter judges an element by the two halves of its tag, at any
  depth of nesting: the element \<open>(g,e)\<close> is kept unless \<open>e\<close> is zero and \<open>g\<close> is not the
  file meta information group \<open>0002\<close>; the file meta information filter keeps it
  unless \<open>g\<close> is \<open>0002\<close>.
\<close>

theorem keep_by_group_and_element:
  "(groupLength_keep (thenTag p (tagOf g e)) \<longleftrightarrow> \<not> (e = 0 \<and> g \<noteq> 2))
   \<and> (fmi_keep (thenTag p (tagOf g e)) \<longleftrightarrow> g \<noteq> 2)"
  by (simp add: groupLength_keep_def fmi_keep_def)

section \<open>Properties of the stage\<close>

text \<open>
  C1. One step of a tag filter emits the incoming part or nothing: the part is forwarded
  exactly when the keep decision taken at its tag path (the default condition on the
  empty path, the keep condition elsewhere) is to keep, and it carries bytes or is no
  delimitation. The scopes the part exhausts are delimited silently.
\<close>

theorem tagFilter_step_emits:
  "fst (handlePart (tagFilter_flow fr k d) p s)
     = (if keepNow k d p s \<and> \<not> isMarker p then [p] else [])"
  by (rule tagFilter_step_out)

lemma tagFilter_step_subseq: "subseq (fst (handlePart (tagFilter_flow fr k d) p s)) [p]"
  by (simp add: tagFilter_step_out)

text \<open>
  C7. A tag filter only drops: what it emits is a subsequence of what its handlers
  received, which is the input with the guaranteed empty value chunks. No part is
  invented, duplicated or reordered.
\<close>

theorem tagFilter_subseq:
  "subseq (tagFilter fr k dc w ps) (guaranteedValue ps)"
  unfolding tagFilter_def Let_def create_def baseFlow_tagFilter_flow
  by (rule emitted_subseq [where I = "\<lambda>_. True"]) (simp_all add: tagFilter_step_subseq)

text \<open>
  C24. The filter depends on its keep condition on the paths other than the empty path
  only: two keep conditions that agree there give the same filter. In particular the
  value of \<open>groupLength_keep\<close> and \<open>fmi_keep\<close> on the empty path, where \<^verbatim>\<open>tagPath.tag()\<close> has no
  tag to give, is never used.
\<close>

theorem tagFilter_cong:
  assumes "\<And>p. p \<noteq> emptyTagPath \<Longrightarrow> k p = k' p"
  shows "tagFilter fr k dc w = tagFilter fr k' dc w"
proof -
  have "tagFilter_onPart k d = tagFilter_onPart k' d" for d
    by (intro ext) (simp add: tagFilter_onPart_def assms)
  then have "tagFilter_class fr k d = tagFilter_class fr k' d" for d
    by (intro ext) (simp add: tagFilter_class_def)
  then show ?thesis
    by (simp add: tagFilter_def tagFilter_flow_def)
qed

theorem tagFilter_cong_witness:
  "tagFilter (\<lambda>p. False) groupLength_keep None None
     = tagFilter (\<lambda>p. False) (\<lambda>p. p = emptyTagPath \<or> groupLength_keep p) None None"
  by (rule tagFilter_cong) simp

text \<open>Facts for the stages that follow a tag filter.\<close>

lemma keepNow_header:
  "isHeaderPart p \<Longrightarrow> keepNow k d p s = k (thenTag (tagPath s) (tag p))"
  by (cases p) (simp_all add: keepNow_def thenTag_def emptyTagPath_def)

lemma tagFilter_emitted_headers:
  "filter (\<lambda>p. isHeaderPart p \<and> \<not> k' (tag p)) (emitted (handlePart (tagFilter_flow fr k d)) s ps) = []"
  if "\<And>path t. k (thenTag path t) \<Longrightarrow> k' t"
  by (rule filter_emitted_Nil) (auto simp: tagFilter_step_out keepNow_header dest: that)

lemma fmiDiscardFilter_no_fmi:
  "filter (\<lambda>p. isHeaderPart p \<and> isFileMetaInformation (tag p)) (fmiDiscardFilter fr ps) = []"
  unfolding fmiDiscardFilter_def tagFilter_def Let_def create_def
  using tagFilter_emitted_headers [where k = fmi_keep and k' = "\<lambda>t. \<not> isFileMetaInformation t"]
  by (simp add: fmi_keep_def)

lemma set_tagFilter: "set (tagFilter fr k dc w ps) \<subseteq> insert emptyValueChunk (set ps)"
proof -
  have "subseq (tagFilter fr k dc w ps) (guaranteedValue ps)"
    unfolding tagFilter_def Let_def create_def baseFlow_tagFilter_flow
    by (rule emitted_subseq [where I = "\<lambda>_. True"]) (simp_all add: tagFilter_step_subseq)
  then have "set (tagFilter fr k dc w ps) \<subseteq> set (guaranteedValue ps)"
    by (auto dest: list_emb_set)
  with set_guaranteedValue show ?thesis by blast
qed

lemma emitted_blacklist_Nil:
  "emitted (handlePart (tagFilter_flow fr (blacklist_keep []) (\<lambda>_. True))) s qs
     = filter (\<lambda>q. \<not> isMarker q) qs"
  by (induction qs arbitrary: s) (simp_all add: tagFilter_step_out keepNow_def)

text \<open>
  C21. The white list filter with no path listed keeps nothing at all: its keep
  condition holds of no path and its default condition of no part.
\<close>

theorem whitelistFilter_Nil: "whitelistFilter fr [] ps = []"
  unfolding whitelistFilter_def tagFilter_def Let_def create_def emitted_def [symmetric]
  by (rule emitted_Nil_iff) (simp add: tagFilter_step_out keepNow_def)

text \<open>
  C22. The black list filter with no path listed forwards every part its handlers
  receive, except delimitation parts without bytes: its output is the input with the
  guaranteed empty value chunks and without empty delimiters.
\<close>

theorem blacklistFilter_Nil:
  "blacklistFilter fr [] ps = filter (\<lambda>q. \<not> isMarker q) (guaranteedValue ps)"
  by (simp add: blacklistFilter_def tagFilter_def create_def emitted_blacklist_Nil)

lemma tagFilter_core_wfPath:
  "wfPath (tagPath s) \<Longrightarrow> wfPath (tagPath (snd (tagFilter_core fr k d p s)))"
  by (simp add: tagFilter_core_eq wfPath_trackPath)

lemma tagFilter_step_wfPath:
  assumes "wfPath (tagPath s)"
  shows "wfPath (tagPath (snd (handlePart (tagFilter_flow fr k d) p s)))"
proof -
  have "wfPath (tagPath (snd (maybeDelimit (tagFilter_core fr k d) t)))" if "wfPath (tagPath t)" for t
    unfolding maybeDelimit_def run_eq snd_conv
    by (rule final_invariant [where I = "\<lambda>s. wfPath (tagPath s)"])
      (simp_all add: tagFilter_core_wfPath that)
  from this [OF tagFilter_core_wfPath [OF assms]] show ?thesis
    by (simp add: tagFilter_step snd_delimited)
qed

text \<open>
  C34. The tag path that a tag filter maintains is well formed after every input: all
  its steps but the last are steps into an item of a sequence, whatever the stream, also
  one that is not correctly framed.
\<close>

theorem tagFilter_wfPath:
  "wfPath (tagPath (final (handlePart (tagFilter_flow fr k d)) (tagFilter_init w) ps))"
  by (rule final_invariant [where I = "\<lambda>s. wfPath (tagPath s)"])
    (simp_all add: tagFilter_step_wfPath tagFilter_init_def)

end
