(* ===== verification/Header_Filter.thy ===== *)
theory Header_Filter
  imports Dicom_Flow
begin

text \<open>
  The header filter of \<^verbatim>\<open>src/src/dicom-flows.js\<close> (lines 59-79): a filter that judges each
  element by its header alone. \<open>headerFilter_onPart\<close> is the \<^verbatim>\<open>onPart\<close> of the anonymous
  class, \<open>headerFilter_init\<close> its constructor, \<open>headerFilter_class\<close> its class expression and
  \<open>headerFilter\<close> the function itself.

  The stage is specified without state by \<open>dropRejected\<close>: every header that the keep
  condition rejects is removed together with the run of value chunks that follows it.
  The theorems show that the stage computes \<open>dropRejected\<close>, and what follows from that.
\<close>

section \<open>The stage\<close>

record headerFilter_state = flow_state +
  keeping :: bool

definition headerFilter_init :: "bool \<Rightarrow> headerFilter_state" where
  "headerFilter_init warnings = \<lparr>inFragments = False, silent = \<not> warnings, warned = [],
     partStack = [], tagPath = emptyTagPath, keeping = True\<rparr>"

definition headerFilter_onPart ::
  "(part \<Rightarrow> bool) \<Rightarrow> (part, part, headerFilter_state) handler" where
  "headerFilter_onPart keepCondition part s =
     (if isHeaderPart part then
        (let s' = s\<lparr>keeping := keepCondition part\<rparr>
         in (if keeping s' then [part] else [], s'))
      else if isValueChunk part then (if keeping s then [part] else [], s)
      else ([part], s\<lparr>keeping := True\<rparr>))"

definition headerFilter_class ::
  "(part \<Rightarrow> bool) \<Rightarrow> (part \<Rightarrow> bool) \<Rightarrow> headerFilter_state flow" where
  "headerFilter_class fr keepCondition =
     GroupLengthWarnings (InFragments fr (DeferToPartFlow (headerFilter_onPart keepCondition)))"

definition headerFilter ::
  "(part \<Rightarrow> bool) \<Rightarrow> (part \<Rightarrow> bool) \<Rightarrow> bool option \<Rightarrow> part list \<Rightarrow> part list" where
  "headerFilter fr keepCondition logGroupLengthWarnings =
     (let warnings = (case logGroupLengthWarnings of None \<Rightarrow> False | Some w \<Rightarrow> w)
      in create (headerFilter_class fr keepCondition) (headerFilter_init warnings))"

lemmas headerFilter_defs = headerFilter_def headerFilter_class_def headerFilter_init_def
  headerFilter_onPart_def

section \<open>The specification\<close>

function dropRejected :: "(part \<Rightarrow> bool) \<Rightarrow> part list \<Rightarrow> part list" where
  "dropRejected keep [] = []"
| "dropRejected keep (p # ps) =
     (if isHeaderPart p \<and> \<not> keep p then dropRejected keep (dropWhile isValueChunk ps)
      else p # dropRejected keep ps)"
  by pat_completeness auto
termination
  by (relation "measure (\<lambda>(keep, ps). length ps)")
    (auto simp: less_Suc_eq_le length_dropWhile_le)

text \<open>The advisory log: the group length tags, outside the file meta information, of
  the headers and sequence starts of a stream.\<close>

definition groupLengthUse :: "part \<Rightarrow> bool" where
  "groupLengthUse p \<longleftrightarrow>
     (isHeaderPart p \<or> isSequencePart p) \<and> isGroupLength (tag p)
       \<and> \<not> isFileMetaInformation (tag p)"

section \<open>The handler of the stage\<close>

lemma headerFilter_step:
  "handlePart (headerFilter_class fr keep) p s
     = headerFilter_onPart keep p (trackFragments fr p (trackWarn p s))"
  by (simp add: headerFilter_class_def handlePart_layers)

lemma baseFlow_headerFilter_class [simp]: "baseFlow (headerFilter_class fr keep) = id"
  by (simp add: headerFilter_class_def)

lemma keeping_track [simp]:
  "keeping (trackFragments fr p s) = keeping s"
  "keeping (trackWarn p s) = keeping s"
  by (cases p; simp add: warnGroupLength_def)+

lemma headerFilter_step_out:
  "fst (handlePart (headerFilter_class fr keep) p s) =
     (if isHeaderPart p then (if keep p then [p] else [])
      else if isValueChunk p then (if keeping s then [p] else [])
      else [p])"
  by (simp add: headerFilter_step headerFilter_onPart_def Let_def)

lemma headerFilter_step_keeping:
  "keeping (snd (handlePart (headerFilter_class fr keep) p s)) =
     (if isHeaderPart p then keep p else if isValueChunk p then keeping s else True)"
  by (simp add: headerFilter_step headerFilter_onPart_def Let_def)

lemma headerFilter_step_warned:
  "warned (snd (handlePart (headerFilter_class fr keep) p s)) =
     (if \<not> silent s \<and> groupLengthUse p then warned s @ [tag p] else warned s)"
  unfolding headerFilter_step
  by (cases p) (simp_all add: headerFilter_onPart_def Let_def groupLengthUse_def
      warnGroupLength_def)

lemma headerFilter_step_silent [simp]:
  "silent (snd (handlePart (headerFilter_class fr keep) p s)) = silent s"
  by (simp add: headerFilter_step headerFilter_onPart_def Let_def)

lemma headerFilter_step_frame [simp]:
  "partStack (snd (handlePart (headerFilter_class fr keep) p s)) = partStack s"
  "tagPath (snd (handlePart (headerFilter_class fr keep) p s)) = tagPath s"
  by (simp_all add: headerFilter_step headerFilter_onPart_def Let_def)

section \<open>Facts about the specification\<close>

lemma dropRejected_chunk [simp]:
  "isValueChunk p \<Longrightarrow> dropRejected keep (p # ps) = p # dropRejected keep ps"
  by (cases p) simp_all

lemma dropRejected_append_kept:
  "list_all (\<lambda>p. isHeaderPart p \<longrightarrow> keep p) ps
     \<Longrightarrow> dropRejected keep (ps @ qs) = ps @ dropRejected keep qs"
  by (induction ps) auto

lemma dropRejected_kept: "list_all (\<lambda>p. isHeaderPart p \<longrightarrow> keep p) ps \<Longrightarrow> dropRejected keep ps = ps"
  using dropRejected_append_kept [of keep ps "[]"] by simp

lemma headers_dropRejected: "list_all (\<lambda>p. isHeaderPart p \<longrightarrow> keep p) (dropRejected keep ps)"
  by (induction keep ps rule: dropRejected.induct) auto

lemma subseq_dropWhile: "subseq (dropWhile P xs) xs"
  by (induction xs) auto

lemma subseq_dropRejected: "subseq (dropRejected keep ps) ps"
proof (induction keep ps rule: dropRejected.induct)
  case (1 keep)
  then show ?case by simp
next
  case (2 keep p ps)
  show ?case
  proof (cases "isHeaderPart p \<and> \<not> keep p")
    case True
    with "2.IH"(1) have "subseq (dropRejected keep (dropWhile isValueChunk ps)) (dropWhile isValueChunk ps)"
      by simp
    then have "subseq (dropRejected keep (dropWhile isValueChunk ps)) ps"
      using subseq_dropWhile subseq_order.trans by blast
    with True show ?thesis by (simp add: list_emb_Cons)
  next
    case False
    with "2.IH"(2) show ?thesis by auto
  qed
qed

lemma filter_dropWhile_disjoint:
  "\<forall>x. Q x \<longrightarrow> \<not> P x \<Longrightarrow> filter Q (dropWhile P xs) = filter Q xs"
  by (induction xs) auto

lemma filter_after_chunks [simp]:
  "filter (\<lambda>p. \<not> isHeaderPart p \<and> \<not> isValueChunk p) (dropWhile isValueChunk ps)
     = filter (\<lambda>p. \<not> isHeaderPart p \<and> \<not> isValueChunk p) ps"
  "filter (\<lambda>p. isHeaderPart p \<and> Q p) (dropWhile isValueChunk ps)
     = filter (\<lambda>p. isHeaderPart p \<and> Q p) ps"
  by (rule filter_dropWhile_disjoint; auto simp: part.disc_eq_case split: part.splits)+

section \<open>Properties of the stage\<close>

lemma headerFilter_emitted:
  "emitted (handlePart (headerFilter_class fr keep)) s ps =
     (if keeping s then dropRejected keep ps
      else dropRejected keep (dropWhile isValueChunk ps))"
proof (induction ps arbitrary: s)
  case Nil
  then show ?case by simp
next
  case (Cons p ps)
  show ?case
    by (auto simp: Cons.IH headerFilter_step_out headerFilter_step_keeping)
qed

lemma headerFilter_dropRejected:
  "headerFilter fr keep w ps = dropRejected keep ps"
  by (simp add: headerFilter_def create_def headerFilter_emitted headerFilter_init_def)

text \<open>
  C2. The header filter computes its specification: its output is the input without
  the headers that the keep condition rejects and without the value chunks that follow
  such a header up to the next part that is no value chunk; every other part is
  forwarded in place.
\<close>

theorem headerFilter_refines:
  "headerFilter fr keep w ps = dropRejected keep ps"
  by (rule headerFilter_dropRejected)

lemma filter_dropRejected:
  "filter (\<lambda>p. \<not> isHeaderPart p \<and> \<not> isValueChunk p) (dropRejected keep ps)
     = filter (\<lambda>p. \<not> isHeaderPart p \<and> \<not> isValueChunk p) ps"
  "filter isHeaderPart (dropRejected keep ps) = filter (\<lambda>p. isHeaderPart p \<and> keep p) ps"
  by (induction keep ps rule: dropRejected.induct) auto

text \<open>
  C12. The header filter only drops headers and value chunks: the parts that open or
  close a sequence or an item and the deflated chunks leave it exactly as they entered,
  in the same order.
\<close>

theorem headerFilter_structure:
  "filter (\<lambda>p. \<not> isHeaderPart p \<and> \<not> isValueChunk p) (headerFilter fr keep w ps)
     = filter (\<lambda>p. \<not> isHeaderPart p \<and> \<not> isValueChunk p) ps"
  by (simp add: headerFilter_dropRejected filter_dropRejected)

text \<open>
  C13. The headers that leave the header filter are the headers of the input that the
  keep condition accepts, in their order.
\<close>

theorem headerFilter_headers:
  "filter isHeaderPart (headerFilter fr keep w ps) = filter (\<lambda>p. isHeaderPart p \<and> keep p) ps"
  by (simp add: headerFilter_dropRejected filter_dropRejected)

text \<open>
  C36. Filtering twice with the same condition is filtering once: the header filter is
  idempotent, whatever the warning flags of the two passes.
\<close>

theorem headerFilter_idem:
  "headerFilter fr keep w (headerFilter fr keep w' ps) = headerFilter fr keep w' ps"
  by (simp add: headerFilter_dropRejected dropRejected_kept headers_dropRejected)

text \<open>
  C37. The output of the header filter is a subsequence of its input, and with a keep
  condition that accepts every header it is the input itself.
\<close>

theorem headerFilter_subseq:
  "subseq (headerFilter fr keep w ps) ps \<and> headerFilter fr (\<lambda>p. True) w ps = ps"
  by (simp add: headerFilter_dropRejected subseq_dropRejected dropRejected_kept list_all_iff)

lemma headerFilter_final_warned:
  "warned (final (handlePart (headerFilter_class fr keep)) s ps) =
     (if silent s then warned s else warned s @ map tag (filter groupLengthUse ps))"
  by (induction ps arbitrary: s) (simp_all add: headerFilter_step_warned)

text \<open>
  C38. The advisory log of the header filter: constructed with warnings it records, in
  order, the tag of every header and sequence start of the input that uses a group
  length outside the file meta information, whether the part is kept or not;
  constructed without, it records nothing.
\<close>

theorem headerFilter_warnings:
  "warned (final (handlePart (headerFilter_class fr keep)) (headerFilter_init warnings) ps)
     = (if warnings then map tag (filter groupLengthUse ps) else [])"
  by (simp add: headerFilter_final_warned headerFilter_init_def)

text \<open>
  The layers the header filter does not use stay as the constructor left them.
\<close>

lemma headerFilter_final_frame:
  "partStack (final (handlePart (headerFilter_class fr keep)) s ps) = partStack s"
  "tagPath (final (handlePart (headerFilter_class fr keep)) s ps) = tagPath s"
  by (induction ps arbitrary: s) simp_all

end
