(* ===== verification/Indeterminate_Length.thy ===== *)
theory Indeterminate_Length
  imports Dicom_Flow
begin

text \<open>
  The rewriter \<^verbatim>\<open>toIndeterminateLengthSequences\<close> of \<^verbatim>\<open>src/src/dicom-flows.js\<close> (lines
  81-129): every sequence and item that states its length is turned into one of
  indeterminate length, closed by an explicit delimitation. The four handlers that the
  anonymous class overrides are \<open>toIndeterminate_onSequence\<close>, \<open>toIndeterminate_onItem\<close>,
  \<open>toIndeterminate_onSequenceDelimitation\<close> and \<open>toIndeterminate_onItemDelimitation\<close>; each
  takes the flow object it overrides (\<^verbatim>\<open>super\<close>). The parts they construct are
  \<open>toIndeterminate_sequence\<close>, \<open>toIndeterminate_item\<close>, \<open>sequenceDelimitationPart\<close> and
  \<open>itemDelimitationPart\<close>.

  The lemmas first reduce the tied stage to a function of the part and the state
  (\<open>toIndeterminate_step\<close>), then show what leaves the stage, what the rewritten bytes
  are, what the stage emits for a sequence of one item, and that a second pass changes
  nothing.
\<close>

section \<open>The stage\<close>

record toIndeterminate_state = flow_state +
  indeterminateBytes :: buffer

definition toIndeterminate_init :: toIndeterminate_state where
  "toIndeterminate_init = \<lparr>inFragments = False, silent = False, warned = [], partStack = [],
     tagPath = emptyTagPath, indeterminateBytes = [0xFF, 0xFF, 0xFF, 0xFF]\<rparr>"

definition toIndeterminate_sequence :: "buffer \<Rightarrow> part \<Rightarrow> part" where
  "toIndeterminate_sequence ib part =
     SequencePart (tag part) indeterminateLength (bigEndian part) (explicitVR part)
       (slice0 (bytes part) (int (length (bytes part)) - 4) @ ib)"

definition toIndeterminate_item :: "buffer \<Rightarrow> part \<Rightarrow> part" where
  "toIndeterminate_item ib part =
     ItemPart (index part) indeterminateLength (bigEndian part)
       (slice0 (bytes part) (int (length (bytes part)) - 4) @ ib)"

definition sequenceDelimitationPart :: "part \<Rightarrow> part" where
  "sequenceDelimitationPart part =
     SequenceDelimitationPart (bigEndian part) (sequenceDelimitation (bigEndian part))"

definition itemDelimitationPart :: "part \<Rightarrow> part" where
  "itemDelimitationPart part =
     ItemDelimitationPart (index part) (bigEndian part) (itemDelimitation (bigEndian part))"

definition toIndeterminate_onSequence ::
  "toIndeterminate_state flow \<Rightarrow> (part, part, toIndeterminate_state) handler" where
  "toIndeterminate_onSequence super part s =
     (case onSequence super part s of
        (out, s') \<Rightarrow>
          (map (\<lambda>p. if isSequencePart p \<and> \<not> indeterminate p
                    then toIndeterminate_sequence (indeterminateBytes s') part else p) out,
           s'))"

definition toIndeterminate_onSequenceDelimitation ::
  "toIndeterminate_state flow \<Rightarrow> (part, part, toIndeterminate_state) handler" where
  "toIndeterminate_onSequenceDelimitation super part s =
     (case onSequenceDelimitation super part s of
        (out, s') \<Rightarrow>
          (if int (length (bytes part)) \<le> 0 then out @ [sequenceDelimitationPart part] else out,
           s'))"

definition toIndeterminate_onItem ::
  "toIndeterminate_state flow \<Rightarrow> (part, part, toIndeterminate_state) handler" where
  "toIndeterminate_onItem super part s =
     (case onItem super part s of
        (out, s') \<Rightarrow>
          (map (\<lambda>p. if isItemPart p \<and> \<not> inFragments s' \<and> \<not> indeterminate p
                    then toIndeterminate_item (indeterminateBytes s') part else p) out,
           s'))"

definition toIndeterminate_onItemDelimitation ::
  "toIndeterminate_state flow \<Rightarrow> (part, part, toIndeterminate_state) handler" where
  "toIndeterminate_onItemDelimitation super part s =
     (case onItemDelimitation super part s of
        (out, s') \<Rightarrow>
          (if int (length (bytes part)) \<le> 0 then out @ [itemDelimitationPart part] else out,
           s'))"

definition toIndeterminate_class ::
  "(part \<Rightarrow> bool) \<Rightarrow> (part, part, toIndeterminate_state) handler
     \<Rightarrow> toIndeterminate_state flow" where
  "toIndeterminate_class fr self =
     (let super = GuaranteedDelimitationEvents self (InFragments fr IdentityFlow)
      in super\<lparr>
        onSequence := toIndeterminate_onSequence super,
        onSequenceDelimitation := toIndeterminate_onSequenceDelimitation super,
        onItem := toIndeterminate_onItem super,
        onItemDelimitation := toIndeterminate_onItemDelimitation super\<rparr>)"

definition toIndeterminate_flow :: "(part \<Rightarrow> bool) \<Rightarrow> toIndeterminate_state flow" where
  "toIndeterminate_flow fr = tie (toIndeterminate_class fr)"

definition toIndeterminateLengthSequences :: "(part \<Rightarrow> bool) \<Rightarrow> part list \<Rightarrow> part list" where
  "toIndeterminateLengthSequences fr = create (toIndeterminate_flow fr) toIndeterminate_init"

lemmas toIndeterminate_handlers = toIndeterminate_onSequence_def
  toIndeterminate_onSequenceDelimitation_def toIndeterminate_onItem_def
  toIndeterminate_onItemDelimitation_def

lemmas toIndeterminate_parts = toIndeterminate_sequence_def toIndeterminate_item_def
  sequenceDelimitationPart_def itemDelimitationPart_def

section \<open>The stage as a function of the part and the state\<close>

text \<open>
  What the stage emits for a part is what the layers below emit, finished by the
  override of the handler for the kind of the part: \<open>rewritten\<close> is the part as the stage
  forwards it, \<open>closer\<close> the delimitation it emits for a scope that ran out.
\<close>

definition closer :: "part \<Rightarrow> part" where
  "closer q = (if isItemPart q then itemDelimitationPart q else sequenceDelimitationPart q)"

definition rewritten :: "part \<Rightarrow> toIndeterminate_state \<Rightarrow> part list" where
  "rewritten p s =
     (if isSequencePart p \<and> \<not> indeterminate p
      then [toIndeterminate_sequence (indeterminateBytes s) p]
      else if isItemPart p \<and> \<not> inFragments s \<and> \<not> indeterminate p
      then [toIndeterminate_item (indeterminateBytes s) p]
      else if isMarker p then [] else [p])"

definition ended :: "part \<Rightarrow> part list" where
  "ended p = (if isSequenceDelimitationPart p \<and> bytes p = [] then [sequenceDelimitationPart p]
     else if isItemDelimitationPart p \<and> bytes p = [] then [itemDelimitationPart p] else [])"

text \<open>The state after the layers have tracked a part, and after the scopes that ran out
  have been closed.\<close>

definition toIndeterminate_tracked :: "(part \<Rightarrow> bool) \<Rightarrow> part \<Rightarrow> toIndeterminate_state \<Rightarrow> toIndeterminate_state" where
  "toIndeterminate_tracked fr p s = trackFragments fr p (trackStack p s)"

definition closed :: "toIndeterminate_state \<Rightarrow> toIndeterminate_state" where
  "closed s = s\<lparr>partStack := remaining (partStack s),
     inFragments := inFragments s \<and> list_all isItemPart (exhausted (partStack s))\<rparr>"

definition toIndeterminate_core ::
  "(part \<Rightarrow> bool) \<Rightarrow> (part, part, toIndeterminate_state) handler" where
  "toIndeterminate_core fr = counted (handlePart (InFragments fr IdentityFlow))"

definition toIndeterminate_finish ::
  "part \<Rightarrow> part list \<times> toIndeterminate_state \<Rightarrow> part list \<times> toIndeterminate_state" where
  "toIndeterminate_finish part x =
     (case x of (out, s') \<Rightarrow>
        (if isSequencePart part then
           map (\<lambda>p. if isSequencePart p \<and> \<not> indeterminate p
                    then toIndeterminate_sequence (indeterminateBytes s') part else p) out
         else if isItemPart part then
           map (\<lambda>p. if isItemPart p \<and> \<not> inFragments s' \<and> \<not> indeterminate p
                    then toIndeterminate_item (indeterminateBytes s') part else p) out
         else out @ ended part, s'))"

section \<open>What the stage promises\<close>

text \<open>A sequence start as it leaves the stage.\<close>

definition sequenceRewritten :: "part \<Rightarrow> part" where
  "sequenceRewritten p =
     (if indeterminate p then p else toIndeterminate_sequence [0xFF, 0xFF, 0xFF, 0xFF] p)"

text \<open>
  A part is settled in a state when the stage has nothing to do to it: it is no
  delimitation without bytes, no sequence that states its length, and no item that
  states its length outside fragments.
\<close>

definition settled :: "toIndeterminate_state \<Rightarrow> part \<Rightarrow> bool" where
  "settled s q \<longleftrightarrow> \<not> isMarker q \<and> \<not> (isSequencePart q \<and> \<not> indeterminate q)
     \<and> \<not> (isItemPart q \<and> \<not> inFragments s \<and> \<not> indeterminate q)"

text \<open>
  The elements of a scope are headers, value chunks and deflated chunks; \<open>byteLength\<close> is
  the number of bytes of a list of parts, and \<open>spend\<close> is the stack of open scopes after
  that many bytes have been counted against each of them.
\<close>

definition isElement :: "part \<Rightarrow> bool" where
  "isElement p \<longleftrightarrow> isHeaderPart p \<or> isValueChunk p \<or> isDeflatedChunk p"

definition byteLength :: "part list \<Rightarrow> int" where
  "byteLength ps = int (length (concat (map bytes ps)))"

definition spend :: "int \<Rightarrow> (part \<times> int) list \<Rightarrow> (part \<times> int) list" where
  "spend n st = map (\<lambda>(q, c). (q, c - n)) st"

section \<open>One step of the stage\<close>

lemma toIndeterminate_class_step:
  "handlePart (toIndeterminate_class fr self)
     = finished toIndeterminate_finish (delimited self (toIndeterminate_core fr))"
proof (intro ext)
  fix p s
  show "handlePart (toIndeterminate_class fr self) p s
     = finished toIndeterminate_finish (delimited self (toIndeterminate_core fr)) p s"
    by (cases p)
      (simp_all add: toIndeterminate_class_def toIndeterminate_core_def finished_def
        toIndeterminate_finish_def toIndeterminate_handlers ended_def
        on_GuaranteedDelimitationEvents Let_def split: prod.splits)
qed

lemma toIndeterminate_core_eq:
  "toIndeterminate_core fr p s
     = (if isMarker p then [] else [p], toIndeterminate_tracked fr p s)"
  by (auto simp: toIndeterminate_core_def counted_def unmarked_def handlePart_layers emit_def
      toIndeterminate_tracked_def isMarker_def)

lemma toIndeterminate_marker:
  "isMarker m \<Longrightarrow> finished toIndeterminate_finish (toIndeterminate_core fr) m s
     = (ended m, trackFragments fr m s)"
proof -
  assume m: "isMarker m"
  then have "\<not> isSequencePart m" "\<not> isItemPart m"
    by (cases m; simp)+
  with m show ?thesis
    by (simp add: finished_def toIndeterminate_finish_def toIndeterminate_core_eq
        toIndeterminate_tracked_def)
qed

lemma trackFragments_delimitationMarker [simp]:
  "trackFragments fr (delimitationMarker q) s
     = (if isItemPart q then s else s\<lparr>inFragments := False\<rparr>)"
  by (simp add: delimitationMarker_def)

lemma ended_delimitationMarker [simp]: "ended (delimitationMarker q) = [closer q]"
  by (simp add: ended_def delimitationMarker_def closer_def toIndeterminate_parts)

lemma run_closers:
  "run (finished toIndeterminate_finish (toIndeterminate_core fr)) s (map delimitationMarker qs)
     = (map closer qs, s\<lparr>inFragments := inFragments s \<and> list_all isItemPart qs\<rparr>)"
proof (induction qs arbitrary: s)
  case Nil
  then show ?case by simp
next
  case (Cons q qs)
  then show ?case
    by (simp add: toIndeterminate_marker)
qed

lemma toIndeterminate_delimit:
  "maybeDelimit (finished toIndeterminate_finish (toIndeterminate_core fr)) s
     = (map closer (exhausted (partStack s)), closed s)"
  by (simp add: maybeDelimit_def run_closers closed_def)


lemma closer_kind [simp]:
  "\<not> isSequencePart (closer q)" "\<not> isItemPart (closer q)" "isDelimitation (closer q)"
  "\<not> isMarker (closer q)" "bytes (closer q) \<noteq> []"
  "\<not> isHeaderPart (closer q)" "\<not> isValueChunk (closer q)" "\<not> isDeflatedChunk (closer q)"
  by (simp_all add: closer_def toIndeterminate_parts isMarker_def
      sequenceDelimitation_def itemDelimitation_def)

lemma map_closers [simp]:
  "map (\<lambda>p. if isSequencePart p \<and> P p then f p else p) (map closer qs) = map closer qs"
  "map (\<lambda>p. if isItemPart p \<and> P p then f p else p) (map closer qs) = map closer qs"
  by simp_all

lemma toIndeterminate_flow_step:
  "handlePart (toIndeterminate_flow fr)
     = finished toIndeterminate_finish
         (delimited (finished toIndeterminate_finish (toIndeterminate_core fr))
           (toIndeterminate_core fr))"
  unfolding toIndeterminate_flow_def
  by (rule handlePart_tie_finished [OF toIndeterminate_class_step])
    (simp_all add: toIndeterminate_core_eq toIndeterminate_tracked_def
      toIndeterminate_finish_def split: prod.splits)

lemma toIndeterminate_step:
  "handlePart (toIndeterminate_flow fr) p s =
     (let s1 = toIndeterminate_tracked fr p s; s2 = closed s1
      in (rewritten p s2 @ map closer (exhausted (partStack s1)) @ ended p, s2))"
  by (cases p)
    (simp_all add: toIndeterminate_flow_step finished_def delimited_def toIndeterminate_core_eq
      toIndeterminate_delimit toIndeterminate_finish_def rewritten_def ended_def isMarker_def
      Let_def)

lemma baseFlow_toIndeterminate_flow [simp]: "baseFlow (toIndeterminate_flow fr) = id"
  by (simp add: toIndeterminate_flow_def tie_def toIndeterminate_class_def Let_def)

lemma filter_closers [simp]:
  "filter isMarker (map closer qs) = []"
  "filter (\<lambda>p. isSequencePart p \<and> P p) (map closer qs) = []"
  "filter (\<lambda>p. isItemPart p \<and> P p) (map closer qs) = []"
  "filter isSequencePart (map closer qs) = []"
  "filter (\<lambda>p. isHeaderPart p \<or> isValueChunk p \<or> isDeflatedChunk p) (map closer qs) = []"
  by (simp_all add: filter_empty_conv)

lemma ended_kind [simp]:
  "filter isMarker (ended p) = []"
  "filter (\<lambda>p. isSequencePart p \<and> P p) (ended p) = []"
  "filter (\<lambda>p. isItemPart p \<and> P p) (ended p) = []"
  "filter isSequencePart (ended p) = []"
  "filter (\<lambda>p. isHeaderPart p \<or> isValueChunk p \<or> isDeflatedChunk p) (ended p) = []"
  by (simp_all add: ended_def toIndeterminate_parts sequenceDelimitation_def
      itemDelimitation_def)

lemma filter_rewritten:
  "filter (\<lambda>p. isHeaderPart p \<or> isValueChunk p \<or> isDeflatedChunk p) (rewritten p s)
     = (if isHeaderPart p \<or> isValueChunk p \<or> isDeflatedChunk p then [p] else [])"
  "filter isSequencePart (rewritten p s)
     = (if isSequencePart p
        then [if indeterminate p then p else toIndeterminate_sequence (indeterminateBytes s) p]
        else [])"
  "filter (\<lambda>p. isSequencePart p \<and> \<not> indeterminate p) (rewritten p s) = []"
  "filter isMarker (rewritten p s) = []"
  by (cases p; simp add: rewritten_def toIndeterminate_parts)+

lemma toIndeterminate_step_out:
  "fst (handlePart (toIndeterminate_flow fr) p s) =
     rewritten p (closed (toIndeterminate_tracked fr p s))
       @ map closer (exhausted (partStack (toIndeterminate_tracked fr p s))) @ ended p"
  by (simp add: toIndeterminate_step Let_def)

lemma toIndeterminate_step_state:
  "snd (handlePart (toIndeterminate_flow fr) p s) = closed (toIndeterminate_tracked fr p s)"
  by (simp add: toIndeterminate_step Let_def)

lemma closed_frame [simp]:
  "indeterminateBytes (closed s) = indeterminateBytes s"
  "partStack (closed s) = remaining (partStack s)"
  by (simp_all add: closed_def)

lemma inFragments_closed:
  "inFragments (closed s) \<longleftrightarrow> inFragments s \<and> list_all isItemPart (exhausted (partStack s))"
  by (simp add: closed_def)

lemma tracked_frame [simp]:
  "indeterminateBytes (toIndeterminate_tracked fr p s) = indeterminateBytes s"
  "partStack (toIndeterminate_tracked fr p s) = partStack (trackStack p s)"
  by (cases p; simp add: toIndeterminate_tracked_def openScope_def closeScope_def Let_def
      split: list.splits)+

lemma inFragments_trackFragments:
  "inFragments (trackFragments fr p s) \<longleftrightarrow>
     (if isHeaderPart p \<and> fr p then True
      else if isSequenceDelimitationPart p then False else inFragments s)"
  by (cases p) simp_all

lemma inFragments_tracked:
  "inFragments (toIndeterminate_tracked fr p s) \<longleftrightarrow>
     (if isHeaderPart p \<and> fr p then True
      else if isSequenceDelimitationPart p then False else inFragments s)"
  by (simp add: toIndeterminate_tracked_def inFragments_trackFragments)

text \<open>
  C10. A header, a value chunk or a deflated chunk passes the rewriter unchanged and is
  followed by one delimitation, with the bytes of a delimitation, for every open scope
  whose stated length its bytes used up, the innermost scope first.
\<close>

theorem toIndeterminate_element_step:
  assumes "isHeaderPart p \<or> isValueChunk p \<or> isDeflatedChunk p"
  shows "fst (handlePart (toIndeterminate_flow fr) p s)
     = p # map closer (exhausted (subtractLength p (partStack s)))"
  unfolding toIndeterminate_step_out
  using assms by (cases p) (simp_all add: rewritten_def ended_def)

theorem toIndeterminate_element_step_witness:
  "fst (handlePart (toIndeterminate_flow (\<lambda>p. False)) (ValueChunk [1, 2] True)
      (toIndeterminate_init\<lparr>partStack :=
         [(ItemPart 1 10 False [], 2), (SequencePart DerivationCodeSequence 30 False True [], 12)]\<rparr>))
   = [ValueChunk [1, 2] True, ItemDelimitationPart 1 False (itemDelimitation False)]"
  using toIndeterminate_element_step [where p = "ValueChunk [1, 2] True"
      and fr = "\<lambda>p. False"
      and s = "toIndeterminate_init\<lparr>partStack :=
         [(ItemPart 1 10 False [], 2), (SequencePart DerivationCodeSequence 30 False True [], 12)]\<rparr>"]
  by (simp add: exhausted_def subtractLength_def closer_def itemDelimitationPart_def)

text \<open>
  C3. A sequence that states its length, and an item that states its length outside
  fragments, leaves the rewriter with the indeterminate length, the tag or index, the
  byte order and the bytes of the part that came in except that the sentinel replaces
  the length field; the scope is counted from its stated length, and the delimitations
  of the scopes that are used up, the new one included when it states length zero,
  follow at once.
\<close>

theorem toIndeterminate_opens:
  assumes "isSequencePart p \<or> isItemPart p \<and> \<not> inFragments s" and "\<not> indeterminate p"
  shows "fst (handlePart (toIndeterminate_flow fr) p s)
     = (if isSequencePart p then toIndeterminate_sequence (indeterminateBytes s) p
        else toIndeterminate_item (indeterminateBytes s) p)
       # map closer (exhausted ((p, uint (plength p)) # subtractLength p (partStack s)))"
  unfolding toIndeterminate_step_out
  using assms
  by (cases p)
    (simp_all add: rewritten_def ended_def openScope_def inFragments_closed
      inFragments_tracked)

theorem toIndeterminate_opens_witness:
  "fst (handlePart (toIndeterminate_flow (\<lambda>p. False))
      (SequencePart DerivationCodeSequence 0 False True
         [0x08, 0x00, 0x15, 0x92, 0x53, 0x51, 0, 0, 0, 0, 0, 0]) toIndeterminate_init)
   = [SequencePart DerivationCodeSequence indeterminateLength False True
         [0x08, 0x00, 0x15, 0x92, 0x53, 0x51, 0, 0, 0xFF, 0xFF, 0xFF, 0xFF],
      SequenceDelimitationPart False (sequenceDelimitation False)]"
  using toIndeterminate_opens [where fr = "\<lambda>p. False" and s = toIndeterminate_init
      and p = "SequencePart DerivationCodeSequence 0 False True
         [0x08, 0x00, 0x15, 0x92, 0x53, 0x51, 0, 0, 0, 0, 0, 0]"]
  by (simp add: exhausted_def closer_def toIndeterminate_parts toIndeterminate_init_def
      slice0_def indeterminateLength_def)

text \<open>
  C26. A delimitation without bytes, whether the delimitation layer synthesized it or it
  came in, leaves the rewriter as a delimitation of the same kind, index and byte order
  with the eight bytes of the delimitation item.
\<close>

theorem toIndeterminate_closes:
  assumes "isMarker p" and "exhausted (partStack s) = []"
  shows "fst (handlePart (toIndeterminate_flow fr) p s)
     = [if isItemDelimitationPart p then itemDelimitationPart p else sequenceDelimitationPart p]"
  unfolding toIndeterminate_step_out
  using assms by (simp add: rewritten_def ended_def) (cases p; simp)

theorem toIndeterminate_closes_witness:
  "fst (handlePart (toIndeterminate_flow (\<lambda>p. False)) (ItemDelimitationPart 3 True [])
      toIndeterminate_init)
   = [ItemDelimitationPart 3 True (itemDelimitation True)]"
  using toIndeterminate_closes [where fr = "\<lambda>p. False" and s = toIndeterminate_init
      and p = "ItemDelimitationPart 3 True []"]
  by (simp add: exhausted_def toIndeterminate_parts toIndeterminate_init_def)

section \<open>The rewritten bytes\<close>

lemma toIndeterminate_consistent [simp]:
  "consistent (toIndeterminate_sequence [0xFF, 0xFF, 0xFF, 0xFF] p)"
  "consistent (toIndeterminate_item [0xFF, 0xFF, 0xFF, 0xFF] p)"
  by (simp_all add: consistent_def toIndeterminate_parts lengthField_sentinel)

text \<open>
  C11. The bytes of a rewritten sequence or item header of at least four bytes: the
  length and every byte before the length field are those of the header that came in,
  the length field decodes to the indeterminate length in the byte order of the part,
  and the part states the length that its bytes encode.
\<close>

theorem toIndeterminate_length_field:
  assumes "4 \<le> length (bytes p)" and "q = toIndeterminate_sequence [0xFF, 0xFF, 0xFF, 0xFF] p
    \<or> q = toIndeterminate_item [0xFF, 0xFF, 0xFF, 0xFF] p"
  shows "length (bytes q) = length (bytes p)
    \<and> take (length (bytes p) - 4) (bytes q) = take (length (bytes p) - 4) (bytes p)
    \<and> lengthField (bytes q) (bigEndian q) = indeterminateLength
    \<and> indeterminate q \<and> consistent q \<and> bigEndian q = bigEndian p"
  using assms
  by (auto simp: toIndeterminate_parts slice0_drop_last4 lengthField_sentinel consistent_def)

theorem toIndeterminate_length_field_witness:
  "lengthField (bytes (toIndeterminate_item [0xFF, 0xFF, 0xFF, 0xFF]
       (ItemPart 1 8 False [0xFE, 0xFF, 0x00, 0xE0, 8, 0, 0, 0]))) False = indeterminateLength
   \<and> take 4 (bytes (toIndeterminate_item [0xFF, 0xFF, 0xFF, 0xFF]
       (ItemPart 1 8 False [0xFE, 0xFF, 0x00, 0xE0, 8, 0, 0, 0]))) = [0xFE, 0xFF, 0x00, 0xE0]"
  using toIndeterminate_length_field [where p = "ItemPart 1 8 False [0xFE, 0xFF, 0x00, 0xE0, 8, 0, 0, 0]"
      and q = "toIndeterminate_item [0xFF, 0xFF, 0xFF, 0xFF]
        (ItemPart 1 8 False [0xFE, 0xFF, 0x00, 0xE0, 8, 0, 0, 0])"]
  by (simp add: toIndeterminate_item_def slice0_def)

section \<open>The whole stream\<close>

text \<open>
  C9. No sequence that states its length and no delimitation without bytes leaves the
  rewriter, whatever the input.
\<close>

theorem toIndeterminate_output:
  "filter (\<lambda>p. isSequencePart p \<and> \<not> indeterminate p) (toIndeterminateLengthSequences fr ps) = []
   \<and> filter isMarker (toIndeterminateLengthSequences fr ps) = []"
  unfolding toIndeterminateLengthSequences_def create_def
  by (auto intro!: filter_emitted_Nil simp: toIndeterminate_step_out filter_rewritten)

text \<open>
  C35. Without fragments in the stream no item that states its length leaves the
  rewriter either.
\<close>

theorem toIndeterminate_items:
  "filter (\<lambda>p. isItemPart p \<and> \<not> indeterminate p)
     (toIndeterminateLengthSequences (\<lambda>p. False) ps) = []"
proof -
  have "filter (\<lambda>p. isItemPart p \<and> \<not> indeterminate p)
      (emitted (handlePart (toIndeterminate_flow (\<lambda>p. False))) toIndeterminate_init ps)
    = map id (filter (\<lambda>p. False) ps)"
  proof (rule filter_emitted_map [where I = "\<lambda>s. \<not> inFragments s"])
    fix p and s :: toIndeterminate_state
    assume s: "\<not> inFragments s"
    then show "\<not> inFragments (snd (handlePart (toIndeterminate_flow (\<lambda>p. False)) p s))"
      by (simp add: toIndeterminate_step_state inFragments_closed inFragments_tracked)
    from s have "\<not> inFragments (closed (toIndeterminate_tracked (\<lambda>p. False) p s))"
      by (simp add: inFragments_closed inFragments_tracked)
    then show "filter (\<lambda>p. isItemPart p \<and> \<not> indeterminate p)
        (fst (handlePart (toIndeterminate_flow (\<lambda>p. False)) p s)) = (if False then [id p] else [])"
      unfolding toIndeterminate_step_out
      by (cases p) (simp_all add: rewritten_def toIndeterminate_parts)
  qed (simp add: toIndeterminate_init_def)
  then show ?thesis
    by (simp add: toIndeterminateLengthSequences_def create_def)
qed

lemma filter_toIndeterminate:
  assumes "\<And>p. Q p \<Longrightarrow> isHeaderPart p \<or> isValueChunk p \<or> isDeflatedChunk p"
  shows "filter Q (toIndeterminateLengthSequences fr ps) = filter Q ps"
proof -
  let ?E = "\<lambda>p. isHeaderPart p \<or> isValueChunk p \<or> isDeflatedChunk p"
  have Q: "filter Q xs = filter Q (filter ?E xs)" for xs
    using assms by (induction xs) auto
  have "filter ?E (toIndeterminateLengthSequences fr ps) = filter ?E ps"
    unfolding toIndeterminateLengthSequences_def create_def
    using filter_emitted_map [where I = "\<lambda>s. True" and f = "\<lambda>p. p"
      and h = "handlePart (toIndeterminate_flow fr)" and Q = ?E and P = ?E]
    by (simp add: toIndeterminate_step_out filter_rewritten)
  then show ?thesis
    using Q [of "toIndeterminateLengthSequences fr ps"] Q [of ps] by simp
qed

text \<open>
  C27. The headers, value chunks and deflated chunks that leave the rewriter are those
  that came in, unchanged and in their order.
\<close>

theorem toIndeterminate_elements:
  "filter (\<lambda>p. isHeaderPart p \<or> isValueChunk p \<or> isDeflatedChunk p)
       (toIndeterminateLengthSequences fr ps)
     = filter (\<lambda>p. isHeaderPart p \<or> isValueChunk p \<or> isDeflatedChunk p) ps"
  by (rule filter_toIndeterminate) simp

text \<open>
  C28. The sequence starts that leave the rewriter are those that came in, in their
  order, each with the indeterminate length: the rewriter adds and drops no sequence.
\<close>

theorem toIndeterminate_sequences:
  "filter isSequencePart (toIndeterminateLengthSequences fr ps)
     = map sequenceRewritten (filter isSequencePart ps)"
  unfolding toIndeterminateLengthSequences_def create_def
  by (simp, rule filter_emitted_map [where I = "\<lambda>s. indeterminateBytes s = [0xFF, 0xFF, 0xFF, 0xFF]"])
    (simp_all add: toIndeterminate_step_out filter_rewritten toIndeterminate_step_state
      sequenceRewritten_def toIndeterminate_init_def)

section \<open>A sequence with one item\<close>

text \<open>
  A run of elements inside open scopes: as long as no scope runs out before the last
  element, the elements pass and the delimitations of the scopes that the run used up
  follow it.
\<close>

lemma byteLength_simps [simp]:
  "byteLength [] = 0"
  "byteLength (p # ps) = int (length (bytes p)) + byteLength ps"
  by (simp_all add: byteLength_def)

lemma spend_simps [simp]:
  "spend n [] = []"
  "spend n ((q, c) # st) = (q, c - n) # spend n st"
  "spend 0 st = st"
  "spend m (spend n st) = spend (n + m) st"
  by (simp_all add: spend_def comp_def case_prod_unfold)

lemma subtractLength_spend: "subtractLength p st = spend (int (length (bytes p))) st"
  by (simp add: subtractLength_def spend_def)

lemma toIndeterminate_element_out:
  assumes "isElement p"
  shows "fst (handlePart (toIndeterminate_flow fr) p s)
      = p # map closer (exhausted (subtractLength p (partStack s)))"
    and "partStack (snd (handlePart (toIndeterminate_flow fr) p s))
      = remaining (subtractLength p (partStack s))"
proof -
  from assms show "fst (handlePart (toIndeterminate_flow fr) p s)
      = p # map closer (exhausted (subtractLength p (partStack s)))"
    unfolding toIndeterminate_step_out
    by (cases p) (simp_all add: rewritten_def ended_def isElement_def)
  from assms show "partStack (snd (handlePart (toIndeterminate_flow fr) p s))
      = remaining (subtractLength p (partStack s))"
    unfolding toIndeterminate_step_state
    by (cases p) (simp_all add: isElement_def)
qed

lemma butlast_prefixes_Cons:
  "es \<noteq> [] \<Longrightarrow> butlast (prefixes (e # es)) = [] # map ((#) e) (butlast (prefixes es))"
  by (cases es) (simp_all add: map_butlast)

lemma toIndeterminate_elements_run:
  assumes "list_all isElement es" and "es \<noteq> []" and "partStack s = st"
    and "list_all (\<lambda>xs. exhausted (spend (byteLength xs) st) = []) (butlast (prefixes es))"
  shows "emitted (handlePart (toIndeterminate_flow fr)) s es
     = es @ map closer (exhausted (spend (byteLength es) st))"
  using assms
proof (induction es arbitrary: s st)
  case Nil
  then show ?case by simp
next
  case (Cons e es)
  note out = toIndeterminate_element_out [of e fr s]
  show ?case
  proof (cases "es = []")
    case True
    with Cons.prems show ?thesis
      by (simp add: out subtractLength_spend)
  next
    case False
    from False have first: "[] \<in> set (butlast (prefixes es))"
      by (cases es) simp_all
    from Cons.prems(4) have every: "\<forall>xs\<in>set (butlast (prefixes es)).
        exhausted (spend (byteLength (e # xs)) st) = []"
      by (simp only: butlast_prefixes_Cons [OF False]) (simp add: list_all_iff)
    from every first have quiet: "exhausted (spend (int (length (bytes e))) st) = []"
      by fastforce
    from every
    have rest: "list_all (\<lambda>xs. exhausted (spend (byteLength xs) (spend (int (length (bytes e))) st)) = [])
        (butlast (prefixes es))"
      by (simp add: list_all_iff)
    from Cons.prems(1,3) quiet
    have "partStack (snd (handlePart (toIndeterminate_flow fr) e s))
        = spend (int (length (bytes e))) st"
      by (simp add: out subtractLength_spend remaining_id)
    from Cons.IH [OF _ False this rest] Cons.prems(1,3) quiet show ?thesis
      by (simp add: out subtractLength_spend)
  qed
qed


lemma toIndeterminate_scope_step:
  assumes "isSequencePart p \<or> isItemPart p" and "\<not> inFragments s" and "\<not> indeterminate p"
  shows "fst (handlePart (toIndeterminate_flow fr) p s)
      = (if isSequencePart p then toIndeterminate_sequence (indeterminateBytes s) p
         else toIndeterminate_item (indeterminateBytes s) p)
        # map closer (exhausted ((p, uint (plength p)) # subtractLength p (partStack s)))"
    and "partStack (snd (handlePart (toIndeterminate_flow fr) p s))
      = remaining ((p, uint (plength p)) # subtractLength p (partStack s))"
    and "\<not> inFragments (snd (handlePart (toIndeterminate_flow fr) p s))"
    and "indeterminateBytes (snd (handlePart (toIndeterminate_flow fr) p s)) = indeterminateBytes s"
proof -
  from assms show "fst (handlePart (toIndeterminate_flow fr) p s)
      = (if isSequencePart p then toIndeterminate_sequence (indeterminateBytes s) p
         else toIndeterminate_item (indeterminateBytes s) p)
        # map closer (exhausted ((p, uint (plength p)) # subtractLength p (partStack s)))"
    unfolding toIndeterminate_step_out
    by (cases p)
      (simp_all add: rewritten_def ended_def openScope_def inFragments_closed inFragments_tracked)
  from assms show "partStack (snd (handlePart (toIndeterminate_flow fr) p s))
      = remaining ((p, uint (plength p)) # subtractLength p (partStack s))"
    unfolding toIndeterminate_step_state
    by (cases p) (simp_all add: openScope_def)
  from assms show "\<not> inFragments (snd (handlePart (toIndeterminate_flow fr) p s))"
    unfolding toIndeterminate_step_state
    by (cases p) (simp_all add: inFragments_closed inFragments_tracked)
  show "indeterminateBytes (snd (handlePart (toIndeterminate_flow fr) p s)) = indeterminateBytes s"
    unfolding toIndeterminate_step_state by simp
qed

lemma stack_simps:
  "exhausted [] = []"
  "exhausted ((q, n) # st) = (if n \<le> 0 then q # exhausted st else exhausted st)"
  "remaining [] = []"
  "remaining ((q, n) # st) = (if 0 < n then (q, n) # remaining st else remaining st)"
  by (simp_all add: exhausted_def remaining_def)

lemma toIndeterminate_starts:
  assumes "isSequencePart sq" and "\<not> indeterminate sq"
    and "isItemPart it" and "\<not> indeterminate it" and "bytes it \<noteq> []"
    and "uint (plength sq) = int (length (bytes it)) + uint (plength it)"
  shows "emitted (handlePart (toIndeterminate_flow fr)) toIndeterminate_init [sq, it]
      = toIndeterminate_sequence [0xFF, 0xFF, 0xFF, 0xFF] sq
        # toIndeterminate_item [0xFF, 0xFF, 0xFF, 0xFF] it
        # map closer (exhausted [(it, uint (plength it)), (sq, uint (plength it))])"
    and "partStack (final (handlePart (toIndeterminate_flow fr)) toIndeterminate_init [sq, it])
      = remaining [(it, uint (plength it)), (sq, uint (plength it))]"
proof -
  let ?h = "handlePart (toIndeterminate_flow fr)"
  let ?s1 = "snd (?h sq toIndeterminate_init)"
  let ?m = "uint (plength it)"
  note sq = toIndeterminate_scope_step [of sq toIndeterminate_init fr]
  note it = toIndeterminate_scope_step [of it ?s1 fr]
  from assms(3) have kind: "\<not> isSequencePart it"
    by (cases it) simp_all
  have "0 \<le> uint (plength it)" "0 < length (bytes it)"
    using assms(5) by simp_all
  with assms(6) have pos: "0 < uint (plength sq)"
    by linarith
  have init: "\<not> inFragments toIndeterminate_init" "partStack toIndeterminate_init = []"
    "indeterminateBytes toIndeterminate_init = [0xFF, 0xFF, 0xFF, 0xFF]"
    by (simp_all add: toIndeterminate_init_def)
  from assms(1,2) pos init have first: "fst (?h sq toIndeterminate_init)
      = [toIndeterminate_sequence [0xFF, 0xFF, 0xFF, 0xFF] sq]"
    "partStack ?s1 = [(sq, uint (plength sq))]" "\<not> inFragments ?s1"
    "indeterminateBytes ?s1 = [0xFF, 0xFF, 0xFF, 0xFF]"
    by (simp_all add: sq subtractLength_spend stack_simps)
  from assms(3,4,6) kind first have second: "fst (?h it ?s1)
      = toIndeterminate_item [0xFF, 0xFF, 0xFF, 0xFF] it # map closer (exhausted [(it, ?m), (sq, ?m)])"
    "partStack (snd (?h it ?s1)) = remaining [(it, ?m), (sq, ?m)]"
    by (simp_all add: it subtractLength_spend)
  from first second
  show "emitted ?h toIndeterminate_init [sq, it]
      = toIndeterminate_sequence [0xFF, 0xFF, 0xFF, 0xFF] sq
        # toIndeterminate_item [0xFF, 0xFF, 0xFF, 0xFF] it
        # map closer (exhausted [(it, ?m), (sq, ?m)])"
    and "partStack (final ?h toIndeterminate_init [sq, it]) = remaining [(it, ?m), (sq, ?m)]"
    by simp_all
qed

text \<open>
  C16. A sequence that states its length and holds one item that states its length, with
  elements that fill the item exactly: the rewriter emits both starts with the
  indeterminate length, the elements unchanged, and then, after the last element and
  not before, the delimitation of the item followed by the delimitation of the
  sequence, each with the bytes of a delimitation item.
\<close>

theorem toIndeterminate_nested:
  assumes "isSequencePart sq" and "\<not> indeterminate sq"
    and "isItemPart it" and "\<not> indeterminate it" and "bytes it \<noteq> []"
    and "uint (plength sq) = int (length (bytes it)) + uint (plength it)"
    and "list_all isElement es" and "byteLength es = uint (plength it)"
    and "list_all (\<lambda>xs. byteLength xs < uint (plength it)) (butlast (prefixes es))"
  shows "toIndeterminateLengthSequences fr (sq # it # es)
     = toIndeterminate_sequence [0xFF, 0xFF, 0xFF, 0xFF] sq
       # toIndeterminate_item [0xFF, 0xFF, 0xFF, 0xFF] it
       # es @ [itemDelimitationPart it, sequenceDelimitationPart sq]"
proof -
  let ?h = "handlePart (toIndeterminate_flow fr)"
  let ?s = "final ?h toIndeterminate_init [sq, it]"
  let ?m = "uint (plength it)"
  note starts = toIndeterminate_starts [OF assms(1-6), of fr]
  from assms(1,3) have "\<not> isItemPart sq"
    by (cases sq) simp_all
  with assms(3) have closers: "closer it = itemDelimitationPart it"
    "closer sq = sequenceDelimitationPart sq"
    by (simp_all add: closer_def)
  have split: "toIndeterminateLengthSequences fr (sq # it # es)
      = emitted ?h toIndeterminate_init [sq, it] @ emitted ?h ?s es"
    by (simp add: toIndeterminateLengthSequences_def create_def)
  show ?thesis
  proof (cases "es = []")
    case True
    with assms(8) closers show ?thesis
      unfolding split starts by (simp add: stack_simps)
  next
    case False
    then have "[] \<in> set (butlast (prefixes es))"
      by (cases es) simp_all
    with assms(9) have m: "0 < ?m"
      by (auto simp: list_all_iff)
    with starts(2) have stack: "partStack ?s = [(it, ?m), (sq, ?m)]"
      by (simp add: stack_simps)
    from assms(9) have "list_all (\<lambda>xs. exhausted (spend (byteLength xs) [(it, ?m), (sq, ?m)]) = [])
        (butlast (prefixes es))"
      by (fastforce simp: list_all_iff stack_simps)
    from toIndeterminate_elements_run [OF assms(7) False stack this, of fr] assms(8) m closers
    show ?thesis
      unfolding split starts(1) by (simp add: stack_simps)
  qed
qed

theorem toIndeterminate_nested_witness:
  "toIndeterminateLengthSequences (\<lambda>p. False)
     [SequencePart DerivationCodeSequence 24 False True
        [0x08, 0x00, 0x15, 0x92, 0x53, 0x51, 0, 0, 24, 0, 0, 0],
      ItemPart 1 16 False [0xFE, 0xFF, 0x00, 0xE0, 16, 0, 0, 0],
      HeaderPart PatientName ''PN'' 8 False True False [0x10, 0x00, 0x10, 0x00, 0x50, 0x4E, 8, 0],
      ValueChunk [0x44, 0x6F, 0x65, 0x5E, 0x4A, 0x6F, 0x65, 0x20] True]
   = [SequencePart DerivationCodeSequence indeterminateLength False True
        [0x08, 0x00, 0x15, 0x92, 0x53, 0x51, 0, 0, 0xFF, 0xFF, 0xFF, 0xFF],
      ItemPart 1 indeterminateLength False [0xFE, 0xFF, 0x00, 0xE0, 0xFF, 0xFF, 0xFF, 0xFF],
      HeaderPart PatientName ''PN'' 8 False True False [0x10, 0x00, 0x10, 0x00, 0x50, 0x4E, 8, 0],
      ValueChunk [0x44, 0x6F, 0x65, 0x5E, 0x4A, 0x6F, 0x65, 0x20] True,
      ItemDelimitationPart 1 False (itemDelimitation False),
      SequenceDelimitationPart False (sequenceDelimitation False)]"
  using toIndeterminate_nested [where fr = "\<lambda>p. False"
      and sq = "SequencePart DerivationCodeSequence 24 False True
        [0x08, 0x00, 0x15, 0x92, 0x53, 0x51, 0, 0, 24, 0, 0, 0]"
      and it = "ItemPart 1 16 False [0xFE, 0xFF, 0x00, 0xE0, 16, 0, 0, 0]"
      and es = "[HeaderPart PatientName ''PN'' 8 False True False
          [0x10, 0x00, 0x10, 0x00, 0x50, 0x4E, 8, 0],
        ValueChunk [0x44, 0x6F, 0x65, 0x5E, 0x4A, 0x6F, 0x65, 0x20] True]"]
  by (simp add: isElement_def toIndeterminate_parts slice0_def indeterminateLength_def)

section \<open>A second pass changes nothing\<close>

lemma trackStack_settled:
  "partStack s = [] \<Longrightarrow> settled s q \<Longrightarrow> trackStack q s = s"
  by (cases q) (simp_all add: settled_def closeScope_def, blast)

lemma closed_Nil: "partStack s = [] \<Longrightarrow> closed s = s"
  by (simp add: closed_def remaining_def exhausted_def)

lemma ended_settled: "settled s q \<Longrightarrow> ended q = []"
  by (cases q; simp add: settled_def ended_def)

lemma rewritten_settled:
  "settled s q \<Longrightarrow> (isItemPart q \<Longrightarrow> inFragments t = inFragments s) \<Longrightarrow> rewritten q t = [q]"
  by (cases q) (simp_all add: settled_def rewritten_def, blast)

lemma step_settled:
  assumes "partStack s = []" and "settled s q"
  shows "handlePart (toIndeterminate_flow fr) q s = ([q], trackFragments fr q s)"
proof -
  from assms have "toIndeterminate_tracked fr q s = trackFragments fr q s"
    by (simp add: toIndeterminate_tracked_def trackStack_settled)
  moreover from assms have "closed (trackFragments fr q s) = trackFragments fr q s"
    by (simp add: closed_Nil)
  moreover have "rewritten q (trackFragments fr q s) = [q]"
    using assms(2) by (rule rewritten_settled) (cases q; simp)
  ultimately show ?thesis
    using assms by (simp add: toIndeterminate_step Let_def exhausted_def ended_settled)
qed

lemma settled_delimitation [simp]:
  "settled s (sequenceDelimitationPart p)" "settled s (itemDelimitationPart p)"
  "settled s (closer q)"
  by (simp_all add: settled_def closer_def toIndeterminate_parts sequenceDelimitation_def
      itemDelimitation_def)

lemma trackFragments_delimitation [simp]:
  "trackFragments fr (sequenceDelimitationPart p) s = s\<lparr>inFragments := False\<rparr>"
  "trackFragments fr (itemDelimitationPart p) s = s"
  "trackFragments fr (closer q) s = (if isItemPart q then s else s\<lparr>inFragments := False\<rparr>)"
  by (simp_all add: closer_def toIndeterminate_parts)

lemma second_pass_closers:
  "partStack t = [] \<Longrightarrow> run (handlePart (toIndeterminate_flow fr)) t (map closer qs)
     = (map closer qs, t\<lparr>inFragments := inFragments t \<and> list_all isItemPart qs\<rparr>)"
  by (induction qs arbitrary: t) (simp_all add: step_settled)

lemma second_pass_ended:
  "partStack t = [] \<Longrightarrow> run (handlePart (toIndeterminate_flow fr)) t (ended p)
     = (ended p, if isSequenceDelimitationPart p \<and> bytes p = [] then t\<lparr>inFragments := False\<rparr> else t)"
  by (simp add: ended_def step_settled)

lemma settled_rewritten [simp]:
  "settled t (toIndeterminate_sequence ib p)" "settled t (toIndeterminate_item ib p)"
  by (simp_all add: settled_def toIndeterminate_parts)

lemma trackFragments_rewritten [simp]:
  "trackFragments fr (toIndeterminate_sequence ib p) t = t"
  "trackFragments fr (toIndeterminate_item ib p) t = t"
  by (simp_all add: toIndeterminate_parts)

lemma trackFragments_scope [simp]:
  "isSequencePart p \<or> isItemPart p \<Longrightarrow> trackFragments fr p t = t"
  by (cases p) simp_all

lemma second_pass_rewritten:
  assumes t: "partStack t = []" "inFragments t = inFragments s"
  shows "run (handlePart (toIndeterminate_flow fr)) t
           (rewritten p (closed (toIndeterminate_tracked fr p s)))
     = (rewritten p (closed (toIndeterminate_tracked fr p s)),
        if isMarker p then t else trackFragments fr p t)"
proof -
  let ?s = "closed (toIndeterminate_tracked fr p s)"
  consider (seq) "isSequencePart p" "\<not> indeterminate p"
    | (item) "isItemPart p" "\<not> inFragments ?s" "\<not> indeterminate p"
    | (marker) "isMarker p"
    | (other) "settled ?s p"
    by (auto simp: settled_def)
  then show ?thesis
  proof cases
    case other
    then have "settled t p"
      using t(2)
      by (cases p) (simp_all add: settled_def inFragments_closed inFragments_tracked, blast)
    moreover from other have "rewritten p ?s = [p]" "\<not> isMarker p"
      by (simp_all add: rewritten_settled) (simp add: settled_def)
    ultimately show ?thesis
      using t(1) by (simp add: step_settled)
  qed (use t in \<open>simp_all add: rewritten_def step_settled\<close>)
qed

lemma second_pass_step:
  assumes t: "partStack t = []" "inFragments t = inFragments s"
  shows "\<exists>t'. run (handlePart (toIndeterminate_flow fr)) t
             (fst (handlePart (toIndeterminate_flow fr) p s))
           = (fst (handlePart (toIndeterminate_flow fr) p s), t')
         \<and> partStack t' = []
         \<and> inFragments t' = inFragments (snd (handlePart (toIndeterminate_flow fr) p s))"
  unfolding toIndeterminate_step_out toIndeterminate_step_state
  by (simp add: run_append_run second_pass_rewritten [OF t] second_pass_closers
      second_pass_ended t inFragments_closed inFragments_tracked inFragments_trackFragments)
    (cases p; simp)

lemma second_pass:
  "partStack t = [] \<Longrightarrow> inFragments t = inFragments s \<Longrightarrow>
     emitted (handlePart (toIndeterminate_flow fr)) t
       (emitted (handlePart (toIndeterminate_flow fr)) s ps)
     = emitted (handlePart (toIndeterminate_flow fr)) s ps"
proof (induction ps arbitrary: s t)
  case Nil
  then show ?case by simp
next
  case (Cons p ps)
  let ?h = "handlePart (toIndeterminate_flow fr)"
  from second_pass_step [OF Cons.prems, of fr p]
  obtain t' where t': "run ?h t (fst (?h p s)) = (fst (?h p s), t')" "partStack t' = []"
    "inFragments t' = inFragments (snd (?h p s))"
    by blast
  then have "emitted ?h t (fst (?h p s)) = fst (?h p s)" "final ?h t (fst (?h p s)) = t'"
    by (simp_all add: run_eq)
  with Cons.IH [OF t'(2,3)] show ?case
    by simp
qed

text \<open>
  C4. The rewriter is idempotent: its output passes a second rewriter unchanged.
\<close>

theorem toIndeterminate_idem:
  "toIndeterminateLengthSequences fr (toIndeterminateLengthSequences fr ps)
     = toIndeterminateLengthSequences fr ps"
  by (simp add: toIndeterminateLengthSequences_def create_def second_pass
      toIndeterminate_init_def)

end
