(* ===== verification/Deflate_Detour.thy ===== *)
theory Deflate_Detour
  imports Parts
begin

text \<open>
  The dataset compression detour of \<^verbatim>\<open>src/src/dicom-flows.js\<close>: \<open>toBytesFlow\<close> (lines
  16-24), the class \<^verbatim>\<open>DeflateDatasetFlow\<close> with its constructor \<open>DeflateDatasetFlow_init\<close> and
  its method \<open>DeflateDatasetFlow_process\<close> (lines 131-163), the transform \<open>toDeflatedChunk\<close>
  that \<^verbatim>\<open>process\<close> builds (lines 145-151), and \<open>deflateDatasetFlow\<close> (lines 165-167).

  The base class \<^verbatim>\<open>Detour\<close> is not among the sources; it is modelled from the
  specification (section 4.5 and 9) as a stage of two modes: while \<open>detour\<close> is off every
  part goes to \<^verbatim>\<open>process\<close>; once it is on every part is written to the detour flow, whose
  output is what the stage emits from then on. A stream is a list, so a flow that
  transforms a stream is a function on lists, and the detour flow is applied to all
  that was written to it when the stream ends.

  Two things are parameters of the model:
  \<^item> the raw deflate compressor of the runtime (\<^verbatim>\<open>zlib.createDeflateRaw()\<close>), a function
    \<open>deflateRaw\<close> from the chunks written to the chunks read;
  \<^item> the binding of the identifier \<^verbatim>\<open>Tag\<close> that \<^verbatim>\<open>process\<close> reads (line 141). The module
    does not import it (lines 1-14), so it is looked up in the global scope when the line
    is executed: \<open>Unbound\<close> is a scope without it, and reading it throws; \<open>Bound t\<close> is a
    scope in which \<^verbatim>\<open>Tag.TransferSyntaxUID\<close> evaluates to \<open>t\<close>, \<open>None\<close> for \<^verbatim>\<open>undefined\<close>.
\<close>

section \<open>Errors and the global scope\<close>

datatype error = ReferenceError string

datatype global = Unbound | Bound "tag option"

section \<open>The detour base class\<close>

record detour_state =
  detour :: bool
  detourFlow :: "(part list \<Rightarrow> part list) option"
  detoured :: "part list"

definition setDetourFlow ::
  "(part list \<Rightarrow> part list) \<Rightarrow> 'a detour_state_scheme \<Rightarrow> 'a detour_state_scheme" where
  "setDetourFlow flow s = s\<lparr>detourFlow := Some flow\<rparr>"

definition setDetour ::
  "bool \<Rightarrow> part \<Rightarrow> 'a detour_state_scheme \<Rightarrow> 'a detour_state_scheme" where
  "setDetour on initialChunk s =
     (if on then s\<lparr>detour := True, detoured := detoured s @ [initialChunk]\<rparr>
      else s\<lparr>detour := False\<rparr>)"

definition Detour_transform ::
  "(part, part, 'a detour_state_scheme, error) thrower
     \<Rightarrow> (part, part, 'a detour_state_scheme, error) thrower" where
  "Detour_transform process chunk s =
     (if detour s then Inr ([], s\<lparr>detoured := detoured s @ [chunk]\<rparr>) else process chunk s)"

definition Detour_flush :: "'a detour_state_scheme \<Rightarrow> part list" where
  "Detour_flush s =
     (if detour s then (case detourFlow s of Some flow \<Rightarrow> flow (detoured s) | None \<Rightarrow> [])
      else [])"

text \<open>The end of the stream: the error that stopped the stage, or the output of the
  detour flow after what the stage emitted itself.\<close>

definition Detour_end ::
  "part list \<times> (error + 'a detour_state_scheme) \<Rightarrow> part list \<times> error option" where
  "Detour_end r =
     (case r of
        (out, Inl e) \<Rightarrow> (out, Some e)
      | (out, Inr s) \<Rightarrow> (out @ Detour_flush s, None))"

text \<open>\<^verbatim>\<open>pipe(a, b, c)\<close> of three flows.\<close>

definition pipe :: "('a \<Rightarrow> 'b) \<Rightarrow> ('b \<Rightarrow> 'c) \<Rightarrow> ('c \<Rightarrow> 'd) \<Rightarrow> 'a \<Rightarrow> 'd" where
  "pipe a b c = c \<circ> b \<circ> a"

section \<open>The stage\<close>

definition toBytesFlow :: "part list \<Rightarrow> buffer list" where
  "toBytesFlow = map bytes"

definition toDeflatedChunk :: "buffer list \<Rightarrow> part list" where
  "toDeflatedChunk = map (\<lambda>chunk. DeflatedChunk False chunk)"

record deflate_state = detour_state +
  collectingTs :: bool
  tsBytes :: buffer

definition DeflateDatasetFlow_init :: deflate_state where
  "DeflateDatasetFlow_init = \<lparr>detour = False, detourFlow = None, detoured = [],
     collectingTs = False, tsBytes = []\<rparr>"

definition DeflateDatasetFlow_process ::
  "global \<Rightarrow> (buffer list \<Rightarrow> buffer list) \<Rightarrow> (part, part, deflate_state, error) thrower" where
  "DeflateDatasetFlow_process Tag deflateRaw part s =
     (if isHeaderPart part then
        (if isFmi part then
           (case Tag of
              Unbound \<Rightarrow> Inl (ReferenceError ''Tag'')
            | Bound ts \<Rightarrow> Inr ([part], s\<lparr>collectingTs := (Some (tag part) = ts)\<rparr>))
         else if trim (tsBytes s) = DeflatedExplicitVRLittleEndian then
           Inr ([], setDetour True part
                  (setDetourFlow (pipe toBytesFlow deflateRaw toDeflatedChunk) s))
         else Inr ([part], s))
      else if isValueChunk part \<and> collectingTs s then
        Inr ([part], s\<lparr>tsBytes := tsBytes s @ bytes part\<rparr>)
      else Inr ([part], s))"

text \<open>
  The stage on a whole stream: what it emitted, and the error that stopped it if one
  did. When the stream ends in detour mode the output of the detour flow follows.
\<close>

definition deflateDatasetFlow ::
  "global \<Rightarrow> (buffer list \<Rightarrow> buffer list) \<Rightarrow> part list \<Rightarrow> part list \<times> error option" where
  "deflateDatasetFlow Tag deflateRaw ps =
     Detour_end (runE (Detour_transform (DeflateDatasetFlow_process Tag deflateRaw))
       DeflateDatasetFlow_init ps)"

lemmas detour_defs = setDetourFlow_def setDetour_def Detour_transform_def Detour_flush_def
  Detour_end_def pipe_def toBytesFlow_def toDeflatedChunk_def

section \<open>The specification\<close>

text \<open>
  Where the detour starts, if it does: the position of the first header of the dataset
  that arrives when the bytes collected so far, trimmed, are the deflated transfer
  syntax. \<open>c\<close> says whether value chunks are being collected and \<open>b\<close> is what has been
  collected; \<open>ts\<close> is the tag whose value is collected.
\<close>

fun detourAt :: "tag option \<Rightarrow> bool \<Rightarrow> buffer \<Rightarrow> part list \<Rightarrow> nat option" where
  "detourAt ts c b [] = None"
| "detourAt ts c b (p # ps) =
     (if isHeaderPart p \<and> isFmi p then map_option Suc (detourAt ts (Some (tag p) = ts) b ps)
      else if isHeaderPart p \<and> trim b = DeflatedExplicitVRLittleEndian then Some 0
      else if isValueChunk p \<and> c then map_option Suc (detourAt ts c (b @ bytes p) ps)
      else map_option Suc (detourAt ts c b ps))"

text \<open>The headers of the file meta information, and among them the one whose value is
  collected.\<close>

definition fmiHeader :: "part \<Rightarrow> bool" where
  "fmiHeader p \<longleftrightarrow> isHeaderPart p \<and> isFmi p"

definition tsHeader :: "tag option \<Rightarrow> part \<Rightarrow> bool" where
  "tsHeader ts p \<longleftrightarrow> fmiHeader p \<and> Some (tag p) = ts"

text \<open>
  The bytes of the value chunks of a stretch of the stream, which is what the stage has
  collected when it collects all through it; and a stretch at none of whose headers the
  bytes collected before it are the deflated transfer syntax.
\<close>

definition collected :: "part list \<Rightarrow> buffer" where
  "collected ps = concat (map bytes (filter isValueChunk ps))"

definition undecided :: "part list \<Rightarrow> bool" where
  "undecided mid \<longleftrightarrow>
     list_all (\<lambda>(xs, p). \<not> (isHeaderPart p \<and> trim (collected xs) = DeflatedExplicitVRLittleEndian))
       (zip (prefixes mid) mid)"

text \<open>The states the stage can be in.\<close>

inductive reachable ::
  "global \<Rightarrow> (buffer list \<Rightarrow> buffer list) \<Rightarrow> deflate_state \<Rightarrow> bool"
  for Tag deflateRaw where
  init: "reachable Tag deflateRaw DeflateDatasetFlow_init"
| step: "reachable Tag deflateRaw s
     \<Longrightarrow> Detour_transform (DeflateDatasetFlow_process Tag deflateRaw) p s = Inr (out, s')
     \<Longrightarrow> reachable Tag deflateRaw s'"

text \<open>
  What holds in every such state: in detour mode the detour flow is set, the part that
  started the detour is the first written to it and is a header of the dataset, and the
  collected transfer syntax is the deflated one; otherwise nothing was written.
\<close>

definition detour_inv :: "deflate_state \<Rightarrow> bool" where
  "detour_inv s \<longleftrightarrow>
     (if detour s then detourFlow s \<noteq> None \<and> detoured s \<noteq> []
        \<and> isHeaderPart (hd (detoured s)) \<and> \<not> isFmi (hd (detoured s))
        \<and> trim (tsBytes s) = DeflatedExplicitVRLittleEndian
      else detourFlow s = None \<and> detoured s = [])"

section \<open>One step and one run\<close>

lemma Detour_end_emitted:
  "Detour_end (case r of (out, x) \<Rightarrow> (pre @ out, x))
     = (case Detour_end r of (out, e) \<Rightarrow> (pre @ out, e))"
  by (auto simp: Detour_end_def split: prod.splits sum.splits)

lemma runE_detoured:
  "detour s \<Longrightarrow> runE (Detour_transform process) s ps
     = ([], Inr (s\<lparr>detoured := detoured s @ ps\<rparr>))"
  by (induction ps arbitrary: s) (simp_all add: Detour_transform_def)

lemma DeflatedExplicitVRLittleEndian_nonempty [simp]:
  "DeflatedExplicitVRLittleEndian \<noteq> []" "[] \<noteq> DeflatedExplicitVRLittleEndian"
  by (simp_all add: DeflatedExplicitVRLittleEndian_def)

lemma step_bound:
  "\<not> detour s \<Longrightarrow> Detour_transform (DeflateDatasetFlow_process (Bound ts) z) p s =
     (if isHeaderPart p \<and> isFmi p then Inr ([p], s\<lparr>collectingTs := (Some (tag p) = ts)\<rparr>)
      else if isHeaderPart p \<and> trim (tsBytes s) = DeflatedExplicitVRLittleEndian then
        Inr ([], s\<lparr>detourFlow := Some (toDeflatedChunk \<circ> z \<circ> toBytesFlow), detour := True,
          detoured := detoured s @ [p]\<rparr>)
      else if isValueChunk p \<and> collectingTs s then Inr ([p], s\<lparr>tsBytes := tsBytes s @ bytes p\<rparr>)
      else Inr ([p], s))"
  by (cases p)
    (simp_all add: Detour_transform_def DeflateDatasetFlow_process_def setDetour_def
      setDetourFlow_def pipe_def)

lemma step_unbound:
  "\<not> detour s \<Longrightarrow> Detour_transform (DeflateDatasetFlow_process Unbound z) p s =
     (if isHeaderPart p \<and> isFmi p then Inl (ReferenceError ''Tag'')
      else if isHeaderPart p \<and> trim (tsBytes s) = DeflatedExplicitVRLittleEndian then
        Inr ([], s\<lparr>detourFlow := Some (toDeflatedChunk \<circ> z \<circ> toBytesFlow), detour := True,
          detoured := detoured s @ [p]\<rparr>)
      else if isValueChunk p \<and> collectingTs s then Inr ([p], s\<lparr>tsBytes := tsBytes s @ bytes p\<rparr>)
      else Inr ([p], s))"
  by (cases p)
    (simp_all add: Detour_transform_def DeflateDatasetFlow_process_def setDetour_def
      setDetourFlow_def pipe_def)

lemma run_bound:
  "\<not> detour s \<Longrightarrow>
     Detour_end (runE (Detour_transform (DeflateDatasetFlow_process (Bound ts) z)) s ps) =
       (case detourAt ts (collectingTs s) (tsBytes s) ps of
          None \<Rightarrow> (ps, None)
        | Some n \<Rightarrow>
            (take n ps @ toDeflatedChunk (z (toBytesFlow (detoured s @ drop n ps))), None))"
proof (induction ps arbitrary: s)
  case Nil
  then show ?case by (simp add: Detour_end_def Detour_flush_def)
next
  case (Cons p ps)
  then show ?case
    by (simp add: step_bound runE_detoured Detour_end_emitted [where pre = "[p]", simplified]
        split: option.splits)
      (simp add: Detour_end_def Detour_flush_def)
qed

lemma run_unbound:
  "\<not> detour s \<Longrightarrow> \<not> collectingTs s \<Longrightarrow> trim (tsBytes s) \<noteq> DeflatedExplicitVRLittleEndian \<Longrightarrow>
     Detour_end (runE (Detour_transform (DeflateDatasetFlow_process Unbound z)) s ps) =
       (takeWhile (\<lambda>p. \<not> fmiHeader p) ps,
        if list_ex fmiHeader ps then Some (ReferenceError ''Tag'') else None)"
proof (induction ps arbitrary: s)
  case Nil
  then show ?case by (simp add: Detour_end_def Detour_flush_def)
next
  case (Cons p ps)
  then show ?case
    by (simp add: step_unbound fmiHeader_def Detour_end_emitted [where pre = "[p]", simplified])
      (simp add: Detour_end_def)
qed

lemma DeflateDatasetFlow_init_simps [simp]:
  "\<not> detour DeflateDatasetFlow_init" "detourFlow DeflateDatasetFlow_init = None"
  "detoured DeflateDatasetFlow_init = []" "\<not> collectingTs DeflateDatasetFlow_init"
  "tsBytes DeflateDatasetFlow_init = []"
  by (simp_all add: DeflateDatasetFlow_init_def)

lemma detourAt_never:
  "\<not> c \<Longrightarrow> trim b \<noteq> DeflatedExplicitVRLittleEndian \<Longrightarrow> \<not> list_ex (tsHeader ts) ps
     \<Longrightarrow> detourAt ts c b ps = None"
  by (induction ps arbitrary: c) (auto simp: tsHeader_def fmiHeader_def)

lemma detourAt_le: "detourAt ts c b ps = Some n \<Longrightarrow> n < length ps"
  by (induction ps arbitrary: c b n) (auto split: if_splits)

lemma detourAt_header:
  "detourAt ts c b ps = Some n \<Longrightarrow> isHeaderPart (ps ! n) \<and> \<not> isFmi (ps ! n)"
  by (induction ps arbitrary: c b n) (auto split: if_splits)

lemma toBytesFlow_toDeflatedChunk [simp]: "toBytesFlow (toDeflatedChunk bs) = bs"
  by (simp add: toBytesFlow_def toDeflatedChunk_def comp_def)

lemma trim_DeflatedExplicitVRLittleEndian [simp]:
  "trim DeflatedExplicitVRLittleEndian = DeflatedExplicitVRLittleEndian"
  "trim (DeflatedExplicitVRLittleEndian @ [0x20]) = DeflatedExplicitVRLittleEndian"
  "trim (take 19 DeflatedExplicitVRLittleEndian) \<noteq> DeflatedExplicitVRLittleEndian"
  by (simp_all add: trim_def DeflatedExplicitVRLittleEndian_def isWhiteSpace_def)

lemma deflateDatasetFlow_bound:
  "deflateDatasetFlow (Bound ts) z ps =
     (case detourAt ts False [] ps of
        None \<Rightarrow> (ps, None)
      | Some n \<Rightarrow> (take n ps @ toDeflatedChunk (z (toBytesFlow (drop n ps))), None))"
  by (simp add: deflateDatasetFlow_def run_bound split: option.splits)

lemma detourAt_before:
  "\<not> list_ex (tsHeader ts) pre \<Longrightarrow> trim b \<noteq> DeflatedExplicitVRLittleEndian \<Longrightarrow>
     detourAt ts False b (pre @ qs)
       = (case detourAt ts False b qs of None \<Rightarrow> None | Some n \<Rightarrow> Some (length pre + n))"
  by (induction pre) (auto simp: tsHeader_def fmiHeader_def split: option.splits)

lemma detourAt_chunks:
  "list_all isValueChunk vs \<Longrightarrow>
     detourAt ts True b (vs @ qs)
       = (case detourAt ts True (b @ concat (map bytes vs)) qs of
            None \<Rightarrow> None | Some n \<Rightarrow> Some (length vs + n))"
  by (induction vs arbitrary: b) (auto split: option.splits)

lemma detourAt_fmi:
  "list_all (\<lambda>p. \<not> isHeaderPart p \<or> isFmi p) fmi \<Longrightarrow> \<not> list_ex (tsHeader ts) fmi \<Longrightarrow>
     isHeaderPart d \<Longrightarrow> \<not> isFmi d \<Longrightarrow> trim b = DeflatedExplicitVRLittleEndian \<Longrightarrow>
     detourAt ts False b (fmi @ d # ds) = Some (length fmi)"
  by (induction fmi) (auto simp: tsHeader_def fmiHeader_def)

lemma collected_simps [simp]:
  "collected [] = []"
  "collected (p # ps) = (if isValueChunk p then bytes p @ collected ps else collected ps)"
  by (simp_all add: collected_def)

lemma in_zip_prefixes: "(xs, p) \<in> set (zip (prefixes (xs @ p # ys)) (xs @ p # ys))"
  by (induction xs) (auto simp: zip_map1)

lemma undecidedD:
  "undecided mid \<Longrightarrow> mid = xs @ p # ys \<Longrightarrow> isHeaderPart p
     \<Longrightarrow> trim (collected xs) \<noteq> DeflatedExplicitVRLittleEndian"
  using in_zip_prefixes [of xs p ys] by (auto simp: undecided_def list_all_iff)

lemma detourAt_collecting:
  assumes "\<not> list_ex fmiHeader mid" and "isHeaderPart d" and "\<not> isFmi d"
    and "trim (b @ collected mid) = DeflatedExplicitVRLittleEndian"
    and "\<forall>xs p ys. mid = xs @ p # ys \<and> isHeaderPart p
           \<longrightarrow> trim (b @ collected xs) \<noteq> DeflatedExplicitVRLittleEndian"
  shows "detourAt ts True b (mid @ d # rest) = Some (length mid)"
  using assms
proof (induction mid arbitrary: b)
  case Nil
  then show ?case by simp
next
  case (Cons p mid)
  from Cons.prems(5) have head: "isHeaderPart p \<Longrightarrow> trim b \<noteq> DeflatedExplicitVRLittleEndian"
    by (auto dest: spec [where x = "[]"])
  have tail: "trim ((if isValueChunk p then b @ bytes p else b) @ collected xs)
      \<noteq> DeflatedExplicitVRLittleEndian"
    if "mid = xs @ q # ys" "isHeaderPart q" for xs q ys
    using Cons.prems(5) [rule_format, of "p # xs" q ys] that by (simp split: if_splits)
  have "detourAt ts True (if isValueChunk p then b @ bytes p else b) (mid @ d # rest)
      = Some (length mid)"
    using Cons.prems(1-4) tail by (intro Cons.IH) (auto simp: fmiHeader_def)
  with Cons.prems(1) head show ?case
    by (cases p) (auto simp: fmiHeader_def)
qed

lemma deflateDatasetFlow_unbound_eq:
  "deflateDatasetFlow Unbound z ps =
     (takeWhile (\<lambda>p. \<not> fmiHeader p) ps,
      if list_ex fmiHeader ps then Some (ReferenceError ''Tag'') else None)"
  by (simp add: deflateDatasetFlow_def run_unbound)

section \<open>The stage as a whole\<close>

text \<open>
  C6. With the identifier \<^verbatim>\<open>Tag\<close> unbound, as the module leaves it, the stage forwards the
  parts in front of the first header of the file meta information and then throws a
  reference error; a stream without such a header passes unchanged. In particular no
  stream with file meta information is ever compressed.
\<close>

theorem deflateDatasetFlow_unbound:
  "deflateDatasetFlow Unbound z ps =
     (takeWhile (\<lambda>p. \<not> fmiHeader p) ps,
      if list_ex fmiHeader ps then Some (ReferenceError ''Tag'') else None)"
  by (rule deflateDatasetFlow_unbound_eq)

text \<open>
  C5. With \<^verbatim>\<open>Tag\<close> bound the stage never throws and computes its specification: the parts
  in front of the header at which the detour starts pass unchanged; that header and
  everything after it is turned into bytes, compressed, and emitted as deflated chunks
  flagged little endian; without such a header the stream passes unchanged.
\<close>

theorem deflateDatasetFlow_refines:
  "deflateDatasetFlow (Bound ts) z ps =
     (case detourAt ts False [] ps of
        None \<Rightarrow> (ps, None)
      | Some n \<Rightarrow> (take n ps @ toDeflatedChunk (z (toBytesFlow (drop n ps))), None))"
  by (rule deflateDatasetFlow_bound)

lemma detour_inv_step:
  assumes "detour_inv s"
    and "Detour_transform (DeflateDatasetFlow_process Tag z) p s = Inr (out, s')"
  shows "detour_inv s'"
  using assms
  by (cases p; cases Tag)
    (auto simp: detour_inv_def Detour_transform_def DeflateDatasetFlow_process_def
      setDetour_def setDetourFlow_def split: if_splits)

text \<open>
  C17. In every state the stage can reach, the detour mode, the detour flow and what
  was written to it agree: in detour mode the flow is set, the first part written to it
  is the header of the dataset that started the detour, and the collected transfer
  syntax is the deflated one; in passthrough mode no flow is set and nothing was
  written.
\<close>

theorem reachable_detour_inv:
  "reachable Tag z s \<Longrightarrow> detour_inv s"
  by (induction rule: reachable.induct)
    (simp_all add: detour_inv_step, simp add: detour_inv_def)

theorem reachable_detour_inv_witness:
  "detour_inv \<lparr>detour = True, detourFlow = Some (pipe toBytesFlow id toDeflatedChunk),
     detoured = [HeaderPart PatientName ''PN'' 2 False True False [1, 2]],
     collectingTs = True, tsBytes = DeflatedExplicitVRLittleEndian\<rparr>"
proof -
  let ?G = "Bound (Some TransferSyntaxUID)"
  let ?h = "Detour_transform (DeflateDatasetFlow_process ?G id)"
  have "reachable ?G id (DeflateDatasetFlow_init\<lparr>collectingTs := True\<rparr>)"
    by (rule reachable.step [OF reachable.init,
          where p = "HeaderPart TransferSyntaxUID ''UI'' 22 False True True []"])
      (simp add: step_bound)
  then have "reachable ?G id
      (DeflateDatasetFlow_init\<lparr>collectingTs := True, tsBytes := DeflatedExplicitVRLittleEndian\<rparr>)"
    by (rule reachable.step [where p = "ValueChunk DeflatedExplicitVRLittleEndian True"])
      (simp add: step_bound)
  then have "reachable ?G id \<lparr>detour = True,
      detourFlow = Some (pipe toBytesFlow id toDeflatedChunk),
      detoured = [HeaderPart PatientName ''PN'' 2 False True False [1, 2]],
      collectingTs = True, tsBytes = DeflatedExplicitVRLittleEndian\<rparr>"
    by (rule reachable.step
          [where p = "HeaderPart PatientName ''PN'' 2 False True False [1, 2]"])
      (simp add: step_bound DeflateDatasetFlow_init_def pipe_def)
  then show ?thesis
    by (rule reachable_detour_inv)
qed

text \<open>
  C30. A stream without the transfer syntax element in its file meta information
  passes the stage unchanged, and no deflated chunk is produced.
\<close>

theorem deflateDatasetFlow_no_transfer_syntax:
  assumes "\<not> list_ex (tsHeader ts) ps"
  shows "deflateDatasetFlow (Bound ts) z ps = (ps, None)"
  using assms by (simp add: deflateDatasetFlow_bound detourAt_never)

theorem deflateDatasetFlow_no_transfer_syntax_witness:
  "deflateDatasetFlow (Bound (Some TransferSyntaxUID)) (\<lambda>bs. bs)
     [HeaderPart PatientName ''PN'' 2 False True False [], ValueChunk [0x41, 0x42] True]
   = ([HeaderPart PatientName ''PN'' 2 False True False [], ValueChunk [0x41, 0x42] True], None)"
  using deflateDatasetFlow_no_transfer_syntax [where ts = "Some TransferSyntaxUID"
      and z = "\<lambda>bs. bs"
      and ps = "[HeaderPart PatientName ''PN'' 2 False True False [], ValueChunk [0x41, 0x42] True]"]
  by (simp add: tsHeader_def fmiHeader_def)

text \<open>
  C18. When the detour starts at position \<open>n\<close> and the compressor has an inverse, the
  stream of bytes is preserved: the first \<open>n\<close> parts are those that came in, the rest
  are deflated chunks flagged little endian, and their payload decompresses to the bytes
  of the parts from position \<open>n\<close> on.
\<close>

theorem deflateDatasetFlow_bytes:
  assumes "\<And>bs. inflateRaw (z bs) = concat bs"
    and "detourAt ts False [] ps = Some n"
  shows "take n (fst (deflateDatasetFlow (Bound ts) z ps)) = take n ps
    \<and> inflateRaw (toBytesFlow (drop n (fst (deflateDatasetFlow (Bound ts) z ps))))
        = concat (toBytesFlow (drop n ps))
    \<and> list_all (\<lambda>p. isDeflatedChunk p \<and> \<not> bigEndian p)
          (drop n (fst (deflateDatasetFlow (Bound ts) z ps)))"
  using assms detourAt_le [OF assms(2)]
  by (simp add: deflateDatasetFlow_bound) (simp add: toDeflatedChunk_def list_all_iff)

theorem deflateDatasetFlow_bytes_witness:
  "concat (toBytesFlow (drop 2 (fst (deflateDatasetFlow (Bound (Some TransferSyntaxUID)) (\<lambda>bs. bs)
      [HeaderPart TransferSyntaxUID ''UI'' 22 False True True [],
       ValueChunk DeflatedExplicitVRLittleEndian True,
       HeaderPart PatientName ''PN'' 2 False True False [1, 2], ValueChunk [3] True]))))
   = [1, 2, 3]"
  using deflateDatasetFlow_bytes [where inflateRaw = concat and z = "\<lambda>bs. bs"
      and ts = "Some TransferSyntaxUID" and n = 2
      and ps = "[HeaderPart TransferSyntaxUID ''UI'' 22 False True True [],
       ValueChunk DeflatedExplicitVRLittleEndian True,
       HeaderPart PatientName ''PN'' 2 False True False [1, 2], ValueChunk [3] True]"]
  by (simp add: toBytesFlow_def tag_defs)

section \<open>Scenarios\<close>

text \<open>
  C15. A file whose transfer syntax element holds the deflated transfer syntax, in any
  number of value chunks and with padding, and is followed by another element of the
  file meta information: the file meta information passes unchanged, and the first
  header of the dataset and all that follows it are compressed.
\<close>

theorem deflateDatasetFlow_deflated_syntax:
  assumes "\<not> list_ex (tsHeader ts) pre" and "tsHeader ts h" and "list_all isValueChunk vs"
    and "fmiHeader h'" and "\<not> list_ex (tsHeader ts) (h' # fmi)"
    and "list_all (\<lambda>p. \<not> isHeaderPart p \<or> isFmi p) fmi"
    and "isHeaderPart d" and "\<not> isFmi d"
    and "trim (concat (map bytes vs)) = DeflatedExplicitVRLittleEndian"
  shows "deflateDatasetFlow (Bound ts) z (pre @ h # vs @ h' # fmi @ d # ds)
     = (pre @ h # vs @ h' # fmi @ toDeflatedChunk (z (toBytesFlow (d # ds))), None)"
proof -
  from assms(4-9) have "detourAt ts True (concat (map bytes vs)) (h' # fmi @ d # ds)
      = Some (Suc (length fmi))"
    by (simp add: detourAt_fmi fmiHeader_def tsHeader_def)
  with assms(1-3) have "detourAt ts False [] (pre @ h # vs @ h' # fmi @ d # ds)
      = Some (length (pre @ h # vs @ h' # fmi))"
    by (simp add: detourAt_before detourAt_chunks tsHeader_def fmiHeader_def)
  then show ?thesis
    by (simp add: deflateDatasetFlow_bound del: length_append)
      (simp add: append_eq_conv_conj)
qed

theorem deflateDatasetFlow_deflated_syntax_witness:
  "deflateDatasetFlow (Bound (Some TransferSyntaxUID)) (\<lambda>bs. bs)
     [HeaderPart TransferSyntaxUID ''UI'' 22 False True True [],
      ValueChunk DeflatedExplicitVRLittleEndian False, ValueChunk [0x20] True,
      HeaderPart 0x00020012 ''UI'' 0 False True True [],
      HeaderPart PatientName ''PN'' 2 False True False [1, 2], ValueChunk [3] True]
   = ([HeaderPart TransferSyntaxUID ''UI'' 22 False True True [],
       ValueChunk DeflatedExplicitVRLittleEndian False, ValueChunk [0x20] True,
       HeaderPart 0x00020012 ''UI'' 0 False True True [],
       DeflatedChunk False [1, 2], DeflatedChunk False [3]], None)"
  using deflateDatasetFlow_deflated_syntax [where ts = "Some TransferSyntaxUID"
      and z = "\<lambda>bs. bs" and pre = "[]" and fmi = "[]"
      and h = "HeaderPart TransferSyntaxUID ''UI'' 22 False True True []"
      and vs = "[ValueChunk DeflatedExplicitVRLittleEndian False, ValueChunk [0x20] True]"
      and h' = "HeaderPart 0x00020012 ''UI'' 0 False True True []"
      and d = "HeaderPart PatientName ''PN'' 2 False True False [1, 2]"
      and ds = "[ValueChunk [3] True]"]
  by (simp add: tsHeader_def fmiHeader_def tag_defs toDeflatedChunk_def toBytesFlow_def)

text \<open>
  C14. A file whose transfer syntax element holds another value than the deflated
  transfer syntax and is followed by another element of the file meta information
  passes the stage unchanged, and no deflated chunk is produced.
\<close>

theorem deflateDatasetFlow_other_syntax:
  assumes "\<not> list_ex (tsHeader ts) pre" and "tsHeader ts h" and "list_all isValueChunk vs"
    and "fmiHeader h'" and "\<not> list_ex (tsHeader ts) (h' # rest)"
    and "trim (concat (map bytes vs)) \<noteq> DeflatedExplicitVRLittleEndian"
  shows "deflateDatasetFlow (Bound ts) z (pre @ h # vs @ h' # rest)
     = (pre @ h # vs @ h' # rest, None)"
proof -
  from assms(4-6) have "detourAt ts True (concat (map bytes vs)) (h' # rest) = None"
    by (simp add: detourAt_never fmiHeader_def tsHeader_def)
  with assms(1-3) have "detourAt ts False [] (pre @ h # vs @ h' # rest) = None"
    by (simp add: detourAt_before detourAt_chunks tsHeader_def fmiHeader_def)
  then show ?thesis
    by (simp add: deflateDatasetFlow_bound)
qed

theorem deflateDatasetFlow_other_syntax_witness:
  "deflateDatasetFlow (Bound (Some TransferSyntaxUID)) (\<lambda>bs. bs)
     [HeaderPart TransferSyntaxUID ''UI'' 20 False True True [],
      ValueChunk (take 19 DeflatedExplicitVRLittleEndian) True,
      HeaderPart 0x00020012 ''UI'' 0 False True True [],
      HeaderPart PatientName ''PN'' 2 False True False [1, 2], ValueChunk [3] True]
   = ([HeaderPart TransferSyntaxUID ''UI'' 20 False True True [],
       ValueChunk (take 19 DeflatedExplicitVRLittleEndian) True,
       HeaderPart 0x00020012 ''UI'' 0 False True True [],
       HeaderPart PatientName ''PN'' 2 False True False [1, 2], ValueChunk [3] True], None)"
  using deflateDatasetFlow_other_syntax [where ts = "Some TransferSyntaxUID"
      and z = "\<lambda>bs. bs" and pre = "[]"
      and h = "HeaderPart TransferSyntaxUID ''UI'' 20 False True True []"
      and vs = "[ValueChunk (take 19 DeflatedExplicitVRLittleEndian) True]"
      and h' = "HeaderPart 0x00020012 ''UI'' 0 False True True []"
      and rest = "[HeaderPart PatientName ''PN'' 2 False True False [1, 2], ValueChunk [3] True]"]
  by (simp add: tsHeader_def fmiHeader_def tag_defs)

text \<open>
  C29. The decision is taken at every header of the dataset, and the collecting does
  not stop where the file meta information ends. When the transfer syntax element is the
  last element of the file meta information, the value chunks of the dataset are
  collected with its value, and the detour starts at the first header of the dataset at
  which all the bytes collected so far, trimmed, are the deflated transfer syntax,
  however many headers of the dataset have passed before.
\<close>

theorem deflateDatasetFlow_decides_late:
  assumes "\<not> list_ex (tsHeader ts) pre" and "tsHeader ts h"
    and "\<not> list_ex fmiHeader mid" and "isHeaderPart d" and "\<not> isFmi d"
    and "trim (collected mid) = DeflatedExplicitVRLittleEndian"
    and "undecided mid"
  shows "deflateDatasetFlow (Bound ts) z (pre @ h # mid @ d # rest)
     = (pre @ h # mid @ toDeflatedChunk (z (toBytesFlow (d # rest))), None)"
proof -
  from assms(3-6) have "detourAt ts True [] (mid @ d # rest) = Some (length mid)"
    by (intro detourAt_collecting) (auto dest: undecidedD [OF assms(7)])
  with assms(1,2) have "detourAt ts False [] (pre @ h # mid @ d # rest)
      = Some (length (pre @ h # mid))"
    by (simp add: detourAt_before tsHeader_def fmiHeader_def)
  then show ?thesis
    by (simp add: deflateDatasetFlow_bound del: length_append)
      (simp add: append_eq_conv_conj)
qed

theorem deflateDatasetFlow_decides_late_witness:
  "deflateDatasetFlow (Bound (Some TransferSyntaxUID)) (\<lambda>bs. bs)
     [HeaderPart TransferSyntaxUID ''UI'' 20 False True True [],
      ValueChunk (take 19 DeflatedExplicitVRLittleEndian) True,
      HeaderPart PatientName ''PN'' 4 False True False [1],
      ValueChunk (drop 19 DeflatedExplicitVRLittleEndian) True,
      HeaderPart StudyDate ''DA'' 0 False True False [2]]
   = ([HeaderPart TransferSyntaxUID ''UI'' 20 False True True [],
       ValueChunk (take 19 DeflatedExplicitVRLittleEndian) True,
       HeaderPart PatientName ''PN'' 4 False True False [1],
       ValueChunk (drop 19 DeflatedExplicitVRLittleEndian) True,
       DeflatedChunk False [2]], None)"
  using deflateDatasetFlow_decides_late [where ts = "Some TransferSyntaxUID"
      and z = "\<lambda>bs. bs" and pre = "[]" and rest = "[]"
      and h = "HeaderPart TransferSyntaxUID ''UI'' 20 False True True []"
      and mid = "[ValueChunk (take 19 DeflatedExplicitVRLittleEndian) True,
        HeaderPart PatientName ''PN'' 4 False True False [1],
        ValueChunk (drop 19 DeflatedExplicitVRLittleEndian) True]"
      and d = "HeaderPart StudyDate ''DA'' 0 False True False [2]"]
  by (simp add: tsHeader_def fmiHeader_def toDeflatedChunk_def toBytesFlow_def
      undecided_def)

end
