(* ===== verification/Spec2Isabelle.thy ===== *)
theory Spec2Isabelle
  imports Tag_Filters Header_Filter Indeterminate_Length Deflate_Detour
begin

text \<open>
  \<^bold>\<open>The program.\<close> \<^verbatim>\<open>src/src/dicom-flows.js\<close> is the stage library of a streaming DICOM
  toolkit. A tokenizer, which is not part of it, turns the bytes of a DICOM file into a
  stream of parts: headers and value chunks of elements, the starts and delimitations of
  sequences and items, deflated chunks. Every stage of the library consumes such a
  stream and produces one. The module exports nine functions: \<^verbatim>\<open>toBytesFlow\<close>, the tag
  filters \<^verbatim>\<open>tagFilter\<close>, \<^verbatim>\<open>whitelistFilter\<close>, \<^verbatim>\<open>blacklistFilter\<close>, \<^verbatim>\<open>groupLengthDiscardFilter\<close>
  and \<^verbatim>\<open>fmiDiscardFilter\<close>, the header filter \<^verbatim>\<open>headerFilter\<close>, the rewriter
  \<^verbatim>\<open>toIndeterminateLengthSequences\<close> and the compression detour \<^verbatim>\<open>deflateDatasetFlow\<close>. The
  stages are anonymous classes built from capability layers (mixins) that the module
  imports from \<^verbatim>\<open>./dicom-flow\<close>; parts, tag paths, byte helpers and the detour base class
  come from \<^verbatim>\<open>./parts\<close>, \<^verbatim>\<open>./tag-path\<close>, \<^verbatim>\<open>./base\<close> and \<^verbatim>\<open>./detour\<close>. None of these
  modules is among the sources; they are modelled from the specification.

  \<^bold>\<open>The theories.\<close>
  \<^item> \<open>Flow_Prelude\<close>: bytes and buffers, \<^verbatim>\<open>Buffer.slice\<close> (\<open>slice0\<close>), \<^verbatim>\<open>String.trim\<close>
    (\<open>trim\<close>), and the way a stage is run: a handler maps a part and a state to the
    parts emitted and the new state, \<open>run\<close>, \<open>emitted\<close> and \<open>final\<close> feed it a list; \<open>runE\<close>
    does the same for a handler that can throw. Its lemmas (append, invariants,
    filters of the output, subsequences, congruence, simulation) carry the proofs of the
    stages.
  \<^item> \<open>Parts\<close>: the seven kinds of part as the datatype \<open>part\<close>, tags and lengths as
    32-bit words, the predicates and byte constants of \<^verbatim>\<open>base.js\<close>, and \<open>lengthField\<close>, the
    length that the last four bytes of a header encode.
  \<^item> \<open>Tag_Path\<close>: tag paths as lists of steps, \<open>isTrunkOf\<close> as the prefix order, and the
    moves of the current path.
  \<^item> \<open>Dicom_Flow\<close>: the stage contract. A flow object is a record of one handler per kind
    of part and \<open>handlePart\<close> dispatches on the kind; \<open>IdentityFlow\<close> and \<open>DeferToPartFlow\<close> are
    the base classes; \<open>InFragments\<close>, \<open>GroupLengthWarnings\<close>, \<open>GuaranteedValueEvent\<close>,
    \<open>GuaranteedDelimitationEvents\<close> and \<open>TagPathTracking\<close> are the layers, each a function
    from the flow object it wraps to the one it yields, so that a class expression of
    the source is the same expression here. The fields that the layers mix in are the
    fields of the record \<open>flow_state\<close>; a stage extends it with its own. \<open>create\<close> runs a
    flow object from an initial state. The delimitation layer calls the handlers of the
    object it is part of (\<^verbatim>\<open>this\<close>); here it takes that handler as a parameter, and \<open>tie\<close>
    closes the loop. The lemmas \<open>handlePart_tie_finished\<close> and \<open>tie_fixed_point_finished\<close> show
    that the tied object is the fixed point the class expression denotes.
  \<^item> \<open>Tag_Filters\<close> (lines 26-57): \<open>tagFilter\<close> with its constructor \<open>tagFilter_init\<close>, its
    \<^verbatim>\<open>onPart\<close> \<open>tagFilter_onPart\<close> and its class expression \<open>tagFilter_class\<close>; the keep
    conditions \<open>whitelist_keep\<close>, \<open>blacklist_keep\<close>, \<open>groupLength_keep\<close>, \<open>fmi_keep\<close> and the
    four filters built from them. Shown: what one step emits, that a filter only drops
    parts, that the black list drops subtrees and the white list keeps trunks, what the
    two lists keep in common, the filters of the empty list, and that the tag path the
    stage maintains stays well formed.
  \<^item> \<open>Header_Filter\<close> (lines 59-79): \<open>headerFilter\<close> with \<open>headerFilter_init\<close>,
    \<open>headerFilter_onPart\<close> and \<open>headerFilter_class\<close>. Shown: the stage computes the stateless
    function \<open>dropRejected\<close>; it changes neither the structure parts nor the order; it is
    idempotent; what it logs.
  \<^item> \<open>Indeterminate_Length\<close> (lines 81-129): \<open>toIndeterminateLengthSequences\<close> with its
    constructor \<open>toIndeterminate_init\<close>, its four overridden handlers, the parts they
    construct and its class expression \<open>toIndeterminate_class\<close>. Shown: what one step emits
    for each kind of part; that no sequence with a stated length and no delimitation
    without bytes is emitted; what the rewritten bytes are; that elements pass
    unchanged; the whole output for a sequence of one item whose elements fill it
    (over the lemma \<open>toIndeterminate_elements_run\<close> on a run of elements inside open
    scopes); that a second pass changes nothing.
  \<^item> \<open>Deflate_Detour\<close> (lines 16-24 and 131-167): \<open>toBytesFlow\<close>, the class
    \<^verbatim>\<open>DeflateDatasetFlow\<close> with \<open>DeflateDatasetFlow_init\<close> and \<open>DeflateDatasetFlow_process\<close>, and
    \<open>deflateDatasetFlow\<close>, over a model of the base class \<^verbatim>\<open>Detour\<close>. Shown: the stage
    computes the split of the stream at the point \<open>detourAt\<close>; an invariant of the
    reachable states (\<open>reachable\<close>, by rule induction); preservation of the bytes under a
    compressor with an inverse; that the decision is taken at whatever header of the
    dataset is the first at which the collected bytes are the deflated transfer syntax
    (\<open>collected\<close>, \<open>undecided\<close>); and that the stage throws when the identifier \<^verbatim>\<open>Tag\<close>, which
    the module does not import, is unbound.
  \<^item> this theory: properties that span stages. Stages in sequence (the black list filter
    and the bytes, the header filter before the rewriter, the file meta information
    filter before the detour), and the tag filter against the header filter: on a \<open>flat\<close>
    stream the first is the second with the keep condition asked for the path of depth
    one.

  \<^bold>\<open>Choices of the model.\<close> A stream is a finite list and a stage a function on lists;
  the asynchrony of the runtime streams (\<^verbatim>\<open>process.nextTick\<close>, back pressure) is not
  modelled, only the order of what is emitted. No definition uses fuel: every run is a
  recursion on the input list. The recogniser of the header that starts fragments is a
  parameter \<open>fr\<close> of every stage that tracks fragments, as the specification asks. The
  group length warnings, which the source writes to the console, are collected in the
  field \<open>warned\<close>. A delimitation that the delimitation layer synthesizes is a
  delimitation part without bytes in the byte order of the scope it closes. The
  compressor is a parameter of the detour (a function from the chunks written to the
  chunks read), and so is the binding of the identifier \<^verbatim>\<open>Tag\<close>. Bytes are read as
  strings only by \<open>trim\<close>, where white space outside ASCII is not modelled.

  \<^bold>\<open>Not modelled.\<close> The tokenizer, the element assembler (\<^verbatim>\<open>elementFlow\<close>) and the
  character set decoding, of which only tests are among the sources; the compressor
  itself and the stream plumbing (\<^verbatim>\<open>zlib\<close>, \<^verbatim>\<open>readable-stream\<close>, \<^verbatim>\<open>multipipe\<close>); the closing
  and aborting of streams.
\<close>

section \<open>Stages in sequence\<close>

text \<open>A header is flagged as file meta information only if its tag is of group 0002.\<close>

definition fmiFlagged :: "part \<Rightarrow> bool" where
  "fmiFlagged p \<longleftrightarrow> \<not> (isHeaderPart p \<and> isFmi p \<and> \<not> isFileMetaInformation (tag p))"

text \<open>A stream is flat when it holds headers and value chunks only: no sequence, no
  item, no fragments, no deflated chunk.\<close>

definition flat :: "part list \<Rightarrow> bool" where
  "flat ps \<longleftrightarrow> list_all (\<lambda>p. isHeaderPart p \<or> isValueChunk p) ps"

lemma concat_bytes_unmarked:
  "concat (map bytes (filter (\<lambda>q. \<not> isMarker q) ps)) = concat (map bytes ps)"
  by (induction ps) (simp_all add: isMarker_bytes)

text \<open>
  C33. The black list filter with no path listed does not change the bytes of the
  stream: what it adds (empty value chunks) and what it drops (delimitations without
  bytes) has no bytes.
\<close>

theorem blacklistFilter_Nil_bytes:
  "concat (toBytesFlow (blacklistFilter fr [] ps)) = concat (toBytesFlow ps)"
  by (simp add: blacklistFilter_def tagFilter_def create_def emitted_blacklist_Nil
      toBytesFlow_def concat_bytes_unmarked concat_bytes_guaranteedValue)

text \<open>
  C32. The header filter followed by the rewriter: the headers that arrive at the end
  are the headers of the input that the keep condition accepts, unchanged and in
  order, whatever the rewriter does to the sequences and items around them.
\<close>

theorem headerFilter_then_toIndeterminate:
  "filter isHeaderPart (toIndeterminateLengthSequences fr (headerFilter fr' keep w ps))
     = filter (\<lambda>p. isHeaderPart p \<and> keep p) ps"
  by (simp add: filter_toIndeterminate headerFilter_dropRejected filter_dropRejected)

text \<open>
  C31. After the filter that discards the file meta information the detour stage is the
  identity, whether the identifier \<^verbatim>\<open>Tag\<close> is bound or not, provided the tokenizer flags
  as file meta information only headers of group 0002: no header is left at which the
  stage could throw or start to collect a transfer syntax.
\<close>

theorem fmiDiscardFilter_then_deflate:
  assumes "list_all fmiFlagged ps"
  shows "deflateDatasetFlow G z (fmiDiscardFilter fr ps) = (fmiDiscardFilter fr ps, None)"
proof -
  let ?out = "fmiDiscardFilter fr ps"
  have "\<not> fmiHeader q" if "q \<in> set ?out" for q
  proof
    assume q: "fmiHeader q"
    with that set_tagFilter [of fr fmi_keep "Some (\<lambda>_. False)" None ps]
    have "q \<in> set ps"
      by (auto simp: fmiDiscardFilter_def fmiHeader_def emptyValueChunk_def)
    with assms q have "isHeaderPart q \<and> isFileMetaInformation (tag q)"
      by (auto simp: list_all_iff fmiFlagged_def fmiHeader_def)
    with that fmiDiscardFilter_no_fmi [of fr ps] show False
      by (auto simp: filter_empty_conv)
  qed
  then have none: "\<not> list_ex fmiHeader ?out"
    by (auto simp: list_ex_iff)
  then have "\<not> list_ex (tsHeader ts) ?out" for ts
    by (auto simp: list_ex_iff tsHeader_def)
  with none show ?thesis
    by (cases G)
      (simp_all add: deflateDatasetFlow_unbound_eq deflateDatasetFlow_bound detourAt_never
        takeWhile_eq_all_conv list_ex_iff)
qed

theorem fmiDiscardFilter_then_deflate_witness:
  "deflateDatasetFlow Unbound (\<lambda>bs. bs) (fmiDiscardFilter (\<lambda>p. False)
      [HeaderPart TransferSyntaxUID ''UI'' 0 False True True []])
   = (fmiDiscardFilter (\<lambda>p. False) [HeaderPart TransferSyntaxUID ''UI'' 0 False True True []],
      None)"
  using fmiDiscardFilter_then_deflate [where G = Unbound and z = "\<lambda>bs. bs"
      and fr = "\<lambda>p. False" and ps = "[HeaderPart TransferSyntaxUID ''UI'' 0 False True True []]"]
  by (simp add: fmiFlagged_def tag_defs isFileMetaInformation_def groupNumber_def)

section \<open>The tag filter and the header filter on a flat stream\<close>

text \<open>
  On a flat stream no scope is open and the tag path is the tag of the last header, so
  a step of the tag filter depends on the state only through that tag.
\<close>

lemma tagFilter_step_state_flat:
  assumes "partStack s = []" and "isHeaderPart p \<or> isValueChunk p"
  shows "partStack (snd (handlePart (tagFilter_flow fr k d) p s)) = []"
    and "tagPath (snd (handlePart (tagFilter_flow fr k d) p s)) = tagPath (trackPath p s)"
proof -
  from assms have "partStack (tracked fr p s) = []"
    by (simp add: tracked_def) (cases p; simp)
  then have "maybeDelimit (tagFilter_core fr k d) (snd (tagFilter_core fr k d p s))
      = ([], snd (tagFilter_core fr k d p s))"
    by (intro maybeDelimit_none) (simp add: tagFilter_core_eq exhausted_def)
  then show "partStack (snd (handlePart (tagFilter_flow fr k d) p s)) = []"
    and "tagPath (snd (handlePart (tagFilter_flow fr k d) p s)) = tagPath (trackPath p s)"
    using \<open>partStack (tracked fr p s) = []\<close>
    by (simp_all add: tagFilter_step snd_delimited tagFilter_core_eq)
qed

lemma tagFilter_flat_emitted:
  assumes "flat qs" and "partStack s = []" and "tagPath s = [TagStep t]"
  shows "emitted (handlePart (tagFilter_flow fr k d)) s qs =
     (if k [TagStep t] then dropRejected (\<lambda>p. k [TagStep (tag p)]) qs
      else dropRejected (\<lambda>p. k [TagStep (tag p)]) (dropWhile isValueChunk qs))"
  using assms
proof (induction qs arbitrary: s t)
  case Nil
  then show ?case by simp
next
  case (Cons p qs)
  let ?s = "snd (handlePart (tagFilter_flow fr k d) p s)"
  from Cons.prems have p: "isHeaderPart p \<or> isValueChunk p" and qs: "flat qs"
    by (simp_all add: flat_def)
  from Cons.prems(2) p have stack: "partStack ?s = []"
    by (rule tagFilter_step_state_flat)
  from tagFilter_step_state_flat(2) [OF Cons.prems(2) p, of fr k d] Cons.prems(3) p
  have path: "tagPath ?s = [TagStep (if isHeaderPart p then tag p else t)]"
    by (cases p) (simp_all add: thenTag_def scopes_def)
  from Cons.prems(3) p
  have out: "fst (handlePart (tagFilter_flow fr k d) p s)
      = (if k [TagStep (if isHeaderPart p then tag p else t)] then [p] else [])"
    unfolding tagFilter_step_out
    by (cases p) (simp_all add: keepNow_def thenTag_def scopes_def emptyTagPath_def)
  have "isHeaderPart p \<Longrightarrow> \<not> isValueChunk p"
    by (cases p) simp_all
  with p show ?case
    by (cases "isHeaderPart p") (simp_all add: Cons.IH [OF qs stack path] out)
qed

text \<open>
  C23. On a flat stream that starts with a header, the tag filter with the keep condition
  \<open>k\<close> is the header filter that asks \<open>k\<close> for the path of depth one of the header's tag,
  applied to the stream with the guaranteed empty value chunks: a rejected element is
  dropped with its value chunks, a kept one passes with them, and neither the default
  condition nor the recogniser of fragments nor the warning flags matter.
\<close>

theorem tagFilter_flat:
  assumes "flat ps" and "ps = [] \<or> isHeaderPart (hd ps)"
  shows "tagFilter fr k dc w ps
     = headerFilter fr' (\<lambda>p. k [TagStep (tag p)]) w' (guaranteedValue ps)"
proof (cases "guaranteedValue ps")
  case Nil
  then show ?thesis
    by (simp add: tagFilter_def create_def headerFilter_dropRejected)
next
  case (Cons h qs)
  define d where "d = (case dc of None \<Rightarrow> (\<lambda>_. True) | Some d \<Rightarrow> d)"
  define s0 where "s0 = tagFilter_init (case w of None \<Rightarrow> False | Some w \<Rightarrow> w)"
  let ?s = "snd (handlePart (tagFilter_flow fr k d) h s0)"
  from assms(1) have "flat (guaranteedValue ps)"
    using set_guaranteedValue [of ps]
    by (auto simp: flat_def list_all_iff emptyValueChunk_def)
  with Cons have h: "isHeaderPart h \<or> isValueChunk h" and qs: "flat qs"
    by (simp_all add: flat_def)
  from assms(2) Cons have hh: "isHeaderPart h"
    by (cases ps) (auto simp: guaranteedValue_Cons split: if_splits)
  have s0: "partStack s0 = []" "tagPath s0 = []"
    by (simp_all add: s0_def tagFilter_init_def emptyTagPath_def)
  from s0 h have stack: "partStack ?s = []"
    by (intro tagFilter_step_state_flat)
  from tagFilter_step_state_flat(2) [OF s0(1) h, of fr k d] s0(2) hh
  have path: "tagPath ?s = [TagStep (tag h)]"
    by (cases h) (simp_all add: thenTag_def)
  from s0 hh have out: "fst (handlePart (tagFilter_flow fr k d) h s0)
      = (if k [TagStep (tag h)] then [h] else [])"
    unfolding tagFilter_step_out
    by (cases h) (simp_all add: keepNow_def thenTag_def emptyTagPath_def)
  have "\<not> isValueChunk h"
    using hh by (cases h) simp_all
  with hh show ?thesis
    by (simp add: tagFilter_def create_def headerFilter_dropRejected Cons
        d_def [symmetric] s0_def [symmetric] out tagFilter_flat_emitted [OF qs stack path])
qed

theorem tagFilter_flat_witness:
  "tagFilter (\<lambda>p. False) (blacklist_keep [[TagStep PatientName]]) None None
     [HeaderPart PatientName ''PN'' 2 False True False [0x10, 0x00, 0x10, 0x00, 0x50, 0x4E, 2, 0],
      ValueChunk [0x41, 0x42] True,
      HeaderPart StudyDate ''DA'' 0 False True False [0x08, 0x00, 0x20, 0x00, 0x44, 0x41, 0, 0]]
   = [HeaderPart StudyDate ''DA'' 0 False True False [0x08, 0x00, 0x20, 0x00, 0x44, 0x41, 0, 0],
      ValueChunk [] True]"
  using tagFilter_flat [where fr = "\<lambda>p. False" and fr' = "\<lambda>p. False"
      and k = "blacklist_keep [[TagStep PatientName]]" and dc = None and w = None and w' = None
      and ps = "[HeaderPart PatientName ''PN'' 2 False True False
          [0x10, 0x00, 0x10, 0x00, 0x50, 0x4E, 2, 0],
        ValueChunk [0x41, 0x42] True,
        HeaderPart StudyDate ''DA'' 0 False True False [0x08, 0x00, 0x20, 0x00, 0x44, 0x41, 0, 0]]"]
  by (simp add: flat_def headerFilter_dropRejected blacklist_keep_def isTrunkOf_def tag_defs
      emptyValueChunk_def needsValue_def)

end
